(* ===== verification/Prelude.thy ===== *)
theory Prelude
  imports Main "HOL-Library.State_Monad"
begin

text \<open>
  What every component of the development shares: the errors a Go function returns, the
  state monad in which the handlers are written, the loops of the source as recursive
  functions over lists, and the rules by which a property of one step is lifted to a
  whole handler.

  \<^item> An operation of the source is a value of type \<open>('s, 'a) state\<close> (HOL-Library's
    state monad): it reads and writes a state \<open>'s\<close> and returns an \<open>'a\<close>.
  \<^item> A pair \<open>(value, error)\<close> of Go is the sum \<open>go_error + 'a\<close>, with \<open>Inl\<close> for a
    non-nil error.
  \<^item> The collection \<open>run_simps\<close> evaluates a handler on a state; the locale
    \<open>step_closed\<close> holds the rules for a reflexive and transitive relation between the
    state before and after.
\<close>

section \<open>Collections\<close>

named_theorems run_simps "equations that run an operation on a state"
named_theorems fmt_simps "equations that evaluate formatted strings"

section \<open>Errors\<close>

text \<open>
  The errors the source tells apart are those of the Kubernetes API that
  \<open>apierrors.IsNotFound\<close> recognises; the others are only returned, logged or wrapped.
\<close>

datatype go_error =
    NotFound
  | AlreadyExists
  | Conflict
  | Errorf string
  | Wrapped string go_error

fun IsNotFound :: "go_error \<Rightarrow> bool" where
  "IsNotFound NotFound = True"
| "IsNotFound (Wrapped m e) = IsNotFound e"
| "IsNotFound e = False"

text \<open>What a call ends with when it does not end with a value: a returned error, or a panic.\<close>

datatype fault = Failed go_error | Panic string

section \<open>The state monad\<close>

abbreviation ret :: "'a \<Rightarrow> ('s, 'a) state" where
  "ret \<equiv> State_Monad.return"

definition gets :: "('s \<Rightarrow> 'a) \<Rightarrow> ('s, 'a) state" where
  "gets f = State (\<lambda>s. (f s, s))"

definition modify :: "('s \<Rightarrow> 's) \<Rightarrow> ('s, unit) state" where
  "modify f = State (\<lambda>s. ((), f s))"

lemma run_gets [simp, run_simps]: "run_state (gets f) s = (f s, s)"
  by (simp add: gets_def)

lemma run_modify [simp, run_simps]: "run_state (modify f) s = ((), f s)"
  by (simp add: modify_def)

declare run_state_return [run_simps]
declare run_state_bind [run_simps]

subsection \<open>Loops\<close>

text \<open>\<open>for _, x := range xs { body }\<close>, where the body neither breaks nor returns.\<close>

fun for_each :: "('a \<Rightarrow> ('s, unit) state) \<Rightarrow> 'a list \<Rightarrow> ('s, unit) state" where
  "for_each f [] = ret ()"
| "for_each f (x # xs) = do { f x; for_each f xs }"

text \<open>
  A loop whose body may leave it: \<open>Some r\<close> is a \<open>return\<close> (or a \<open>break\<close> with the value
  \<open>r\<close>), \<open>None\<close> goes on with the next element.
\<close>

fun for_first :: "('a \<Rightarrow> ('s, 'b option) state) \<Rightarrow> 'a list \<Rightarrow> ('s, 'b option) state" where
  "for_first f [] = ret None"
| "for_first f (x # xs) =
     do { r \<leftarrow> f x; (case r of Some v \<Rightarrow> ret (Some v) | None \<Rightarrow> for_first f xs) }"

text \<open>A loop that changes a local variable of the function.\<close>

fun for_fold :: "('a \<Rightarrow> 'b \<Rightarrow> ('s, 'b) state) \<Rightarrow> 'a list \<Rightarrow> 'b \<Rightarrow> ('s, 'b) state" where
  "for_fold f [] b = ret b"
| "for_fold f (x # xs) b = do { b' \<leftarrow> f x b; for_fold f xs b' }"

subsection \<open>Relations between the state before and after\<close>

text \<open>
  \<open>state_io_rel R m\<close> (of the library) says that \<open>R\<close> relates every state to the one in
  which \<open>m\<close> leaves it. For a reflexive and transitive \<open>R\<close> it is enough to look at the
  single operations of a handler: the rules below compose them.
\<close>

lemma state_io_rel_run: "state_io_rel R m \<Longrightarrow> R s (snd (run_state m s))"
  by (simp add: state_io_rel_def)

locale step_closed =
  fixes R :: "'s \<Rightarrow> 's \<Rightarrow> bool"
  assumes refl_step: "R s s"
    and trans_step: "R s t \<Longrightarrow> R t u \<Longrightarrow> R s u"
begin

lemma io_return: "state_io_rel R (State_Monad.return a)"
  by (simp add: state_io_rel_def refl_step)

lemma io_gets: "state_io_rel R (gets f)"
  by (simp add: state_io_rel_def refl_step)

lemma io_modify: "(\<And>s. R s (f s)) \<Longrightarrow> state_io_rel R (modify f)"
  by (simp add: state_io_rel_def)

lemma io_bind:
  assumes "state_io_rel R m" and "\<And>a. state_io_rel R (f a)"
  shows "state_io_rel R (State_Monad.bind m f)"
  using assms by (auto simp: state_io_rel_def split: prod.split intro: trans_step)

lemma io_if:
  "(b \<Longrightarrow> state_io_rel R m) \<Longrightarrow> (\<not> b \<Longrightarrow> state_io_rel R n) \<Longrightarrow> state_io_rel R (if b then m else n)"
  by simp

lemma io_option:
  "(x = None \<Longrightarrow> state_io_rel R m) \<Longrightarrow> (\<And>a. x = Some a \<Longrightarrow> state_io_rel R (f a)) \<Longrightarrow>
   state_io_rel R (case x of None \<Rightarrow> m | Some a \<Rightarrow> f a)"
  by (simp split: option.split)

lemma io_sum:
  "(\<And>a. x = Inl a \<Longrightarrow> state_io_rel R (f a)) \<Longrightarrow> (\<And>b. x = Inr b \<Longrightarrow> state_io_rel R (g b)) \<Longrightarrow>
   state_io_rel R (case x of Inl a \<Rightarrow> f a | Inr b \<Rightarrow> g b)"
  by (simp split: sum.split)

lemma io_let: "state_io_rel R (f a) \<Longrightarrow> state_io_rel R (let x = a in f x)"
  by simp

lemma io_for_each: "(\<And>x. state_io_rel R (f x)) \<Longrightarrow> state_io_rel R (for_each f xs)"
  by (induction xs) (auto intro!: io_return io_bind)

lemma io_for_first: "(\<And>x. state_io_rel R (f x)) \<Longrightarrow> state_io_rel R (for_first f xs)"
  by (induction xs) (auto intro!: io_return io_bind io_option)

lemma io_for_fold: "(\<And>x b. state_io_rel R (f x b)) \<Longrightarrow> state_io_rel R (for_fold f xs b)"
  by (induction xs arbitrary: b) (auto intro!: io_return io_bind)

lemmas io_rules =
  io_return io_gets io_bind io_if io_option io_sum io_let io_for_each io_for_first io_for_fold

end

text \<open>Keeping an invariant, and keeping the value of a part of the state, are such relations.\<close>

definition preserves :: "('s \<Rightarrow> bool) \<Rightarrow> 's \<Rightarrow> 's \<Rightarrow> bool" where
  "preserves J s s' \<longleftrightarrow> (J s \<longrightarrow> J s')"

definition same :: "('s \<Rightarrow> 'b) \<Rightarrow> 's \<Rightarrow> 's \<Rightarrow> bool" where
  "same f s s' \<longleftrightarrow> f s' = f s"

interpretation keep: step_closed "preserves J" for J
  by unfold_locales (simp_all add: preserves_def)

interpretation frame: step_closed "same f" for f
  by unfold_locales (simp_all add: same_def)

subsection \<open>What an operation may return\<close>

definition returns :: "('s, 'a) state \<Rightarrow> ('a \<Rightarrow> bool) \<Rightarrow> bool" where
  "returns m Q \<longleftrightarrow> (\<forall>s. Q (fst (run_state m s)))"

lemma returnsD: "returns m Q \<Longrightarrow> run_state m s = (a, s') \<Longrightarrow> Q a"
  unfolding returns_def by (metis fst_conv)

lemma returns_return: "Q a \<Longrightarrow> returns (State_Monad.return a) Q"
  by (simp add: returns_def)

lemma returns_bind:
  assumes "returns m P" and "\<And>a. P a \<Longrightarrow> returns (f a) Q"
  shows "returns (State_Monad.bind m f) Q"
  unfolding returns_def
proof
  fix s
  obtain a s' where m: "run_state m s = (a, s')" by fastforce
  with assms(2) [OF returnsD [OF assms(1) m]] show "Q (fst (run_state (State_Monad.bind m f) s))"
    by (simp add: returns_def)
qed

lemma returns_any: "returns m (\<lambda>a. True)"
  by (simp add: returns_def)

lemma returns_bind_any: "(\<And>a. returns (f a) Q) \<Longrightarrow> returns (State_Monad.bind m f) Q"
  by (rule returns_bind [OF returns_any])

lemma returns_weaken: "returns m P \<Longrightarrow> (\<And>a. P a \<Longrightarrow> Q a) \<Longrightarrow> returns m Q"
  by (simp add: returns_def)

lemma returns_for_first:
  assumes "\<And>x. x \<in> set xs \<Longrightarrow> returns (f x) (\<lambda>r. case r of None \<Rightarrow> True | Some v \<Rightarrow> Q v)"
  shows "returns (for_first f xs) (\<lambda>r. case r of None \<Rightarrow> True | Some v \<Rightarrow> Q v)"
  using assms
proof (induction xs)
  case Nil
  then show ?case by (simp add: returns_return)
next
  case (Cons x xs)
  then have "returns (f x) (\<lambda>r. case r of None \<Rightarrow> True | Some v \<Rightarrow> Q v)" by simp
  then show ?case
    unfolding for_first.simps
    by (rule returns_bind) (use Cons in \<open>auto intro: returns_return split: option.split\<close>)
qed

section \<open>The state a controller runs on\<close>

text \<open>
  A controller's method reads and writes the investigation counter it shares with the
  other controllers, its own private fields (\<open>own\<close>: the trackers behind the controller's
  mutex) and everything outside the process (\<open>world\<close>: the cluster, GitHub, the disk and
  the clock). The counter's type is a parameter here; its theory gives it.
\<close>

record ('c, 't, 'w) proc =
  counter :: 'c
  own :: 't
  world :: 'w

text \<open>Updates of the parts are kept in one order, that of the record.\<close>

lemma proc_updates [simp]:
  "p\<lparr>world := w, own := t\<rparr> = p\<lparr>own := t, world := w\<rparr>"
  "p\<lparr>world := w, counter := c\<rparr> = p\<lparr>counter := c, world := w\<rparr>"
  "p\<lparr>own := t, counter := c\<rparr> = p\<lparr>counter := c, own := t\<rparr>"
  by simp_all

text \<open>A call that goes outside the process changes nothing else.\<close>

definition outside :: "('w, 'a) state \<Rightarrow> (('c, 't, 'w) proc, 'a) state" where
  "outside m = State (\<lambda>p. case run_state m (world p) of (a, w) \<Rightarrow> (a, p\<lparr>world := w\<rparr>))"

lemma run_outside [simp, run_simps]:
  "run_state (outside m) p = (case run_state m (world p) of (a, w) \<Rightarrow> (a, p\<lparr>world := w\<rparr>))"
  by (simp add: outside_def)

text \<open>Such a call keeps every invariant of the counter and of the private fields.\<close>

lemma io_outside_same:
  "(\<And>p w. f (p\<lparr>world := w\<rparr>) = f p) \<Longrightarrow> state_io_rel (same f) (outside m)"
  by (simp add: state_io_rel_def same_def split: prod.split)

lemma io_outside_keep:
  "(\<And>p w. J (p\<lparr>world := w\<rparr>) = J p) \<Longrightarrow> state_io_rel (preserves J) (outside m)"
  by (simp add: state_io_rel_def preserves_def split: prod.split)

section \<open>64-bit integers\<close>

text \<open>
  Go's \<open>int\<close> (on the 64-bit platforms the image is built for), \<open>int64\<close> and
  \<open>time.Duration\<close> wrap around. They are integers here, with the wrap-around written out
  where the code computes.
\<close>

definition wrap64 :: "int \<Rightarrow> int" where
  "wrap64 x = (x + 2 ^ 63) mod 2 ^ 64 - 2 ^ 63"

definition is_int64 :: "int \<Rightarrow> bool" where
  "is_int64 x \<longleftrightarrow> - (2 ^ 63) \<le> x \<and> x < 2 ^ 63"

lemma wrap64_id [simp]: "is_int64 x \<Longrightarrow> wrap64 x = x"
  by (simp add: wrap64_def is_int64_def)

lemma wrap64_range [simp]: "is_int64 (wrap64 x)"
proof -
  have "0 \<le> (x + 2 ^ 63) mod 2 ^ 64" "(x + 2 ^ 63) mod 2 ^ 64 < 2 ^ 64"
    by simp_all
  then show ?thesis by (simp add: wrap64_def is_int64_def)
qed

lemma wrap64_wrap64 [simp]: "wrap64 (wrap64 x) = wrap64 x"
  by (simp add: wrap64_id)

section \<open>Timers\<close>

text \<open>What the loop of a runnable sees in its \<open>select\<close>: a tick, or the end of the context.\<close>

datatype signal = Tick | Done

end
