(* ===== verification/GoFmt.thy ===== *)
theory GoFmt
  imports Prelude "HOL-Library.Sublist"
begin

text \<open>
  The part of Go's \<open>fmt\<close>, \<open>strconv\<close>, \<open>strings\<close> and \<open>net/url\<close> that the source
  calls: decimal formatting (\<open>%d\<close>), zero padding, \<open>strconv.Atoi\<close> and
  \<open>strconv.ParseInt(v, 10, 64)\<close>, \<open>strings.HasSuffix\<close> and the escaping of query values.
  The lemmas give the round trip between printing and parsing an integer and the
  injectivity of \<open>%d\<close>, which the names of the investigations rest on.
\<close>

section \<open>Decimal numbers\<close>

definition digit_char :: "nat \<Rightarrow> char" where
  "digit_char d = ''0123456789'' ! d"

definition digit_val :: "char \<Rightarrow> nat option" where
  "digit_val c = map_of (zip ''0123456789'' [0..<10]) c"

lemma less_10_cases:
  assumes "d < (10::nat)"
  shows "d = 0 \<or> d = 1 \<or> d = 2 \<or> d = 3 \<or> d = 4 \<or> d = 5 \<or> d = 6 \<or> d = 7 \<or> d = 8 \<or> d = 9"
  using assms by arith

lemma digit_val_char [simp]: "d < 10 \<Longrightarrow> digit_val (digit_char d) = Some d"
  by (drule less_10_cases) (auto simp: digit_val_def digit_char_def upt_rec)

lemma digit_val_minus [simp]: "digit_val (CHR ''-'') = None"
  by (simp add: digit_val_def upt_rec)

lemma digit_val_plus [simp]: "digit_val (CHR ''+'') = None"
  by (simp add: digit_val_def upt_rec)

lemma digit_char_not_sign [simp]:
  assumes "d < 10"
  shows "digit_char d \<noteq> CHR ''-''" "digit_char d \<noteq> CHR ''+''"
  using digit_val_char [OF assms] by auto

fun nat_digits :: "nat \<Rightarrow> string" where
  "nat_digits n =
     (if n < 10 then [digit_char n] else nat_digits (n div 10) @ [digit_char (n mod 10)])"

declare nat_digits.simps [simp del]

text \<open>\<open>fmt.Sprintf("%d", i)\<close>\<close>

definition fmt_d :: "int \<Rightarrow> string" where
  "fmt_d i = (if i < 0 then CHR ''-'' # nat_digits (nat (- i)) else nat_digits (nat i))"

lemmas fmt_d_eval [fmt_simps] = fmt_d_def nat_digits.simps digit_char_def

text \<open>Go's \<open>appendInt(b, x, width)\<close> in \<open>time.Format\<close>: zero padding of a number \<open>x \<ge> 0\<close>.\<close>

definition pad_int :: "nat \<Rightarrow> int \<Rightarrow> string" where
  "pad_int w i =
     (let ds = nat_digits (nat \<bar>i\<bar>)
      in (if i < 0 then ''-'' else '''') @ replicate (w - length ds) (CHR ''0'') @ ds)"

section \<open>Parsing\<close>

fun parse_digits :: "nat \<Rightarrow> string \<Rightarrow> nat option" where
  "parse_digits acc [] = Some acc"
| "parse_digits acc (c # cs) =
     (case digit_val c of None \<Rightarrow> None | Some d \<Rightarrow> parse_digits (acc * 10 + d) cs)"

text \<open>
  \<open>strconv.ParseInt(s, 10, 64)\<close>; \<open>strconv.Atoi\<close> is the same function where \<open>int\<close> has
  64 bits. \<open>None\<close> is a non-nil error: an empty string, a character that is not a digit
  (one leading sign apart), or a value out of range.
\<close>

definition parse_int64 :: "string \<Rightarrow> int option" where
  "parse_int64 s =
     (let (neg, ds) = (case s of
          [] \<Rightarrow> (False, [])
        | c # cs \<Rightarrow> if c = CHR ''-'' then (True, cs)
                    else if c = CHR ''+'' then (False, cs) else (False, s))
      in if ds = [] then None
         else case parse_digits 0 ds of
           None \<Rightarrow> None
         | Some n \<Rightarrow>
             if neg then (if int n \<le> 2 ^ 63 then Some (- int n) else None)
             else (if int n < 2 ^ 63 then Some (int n) else None))"

lemma parse_digits_append:
  "parse_digits acc (xs @ ys) = Option.bind (parse_digits acc xs) (\<lambda>a. parse_digits a ys)"
  by (induction xs arbitrary: acc) (auto split: option.split)

lemma nat_digits_not_Nil [simp]: "nat_digits n \<noteq> []"
  by (subst nat_digits.simps) simp

lemma parse_nat_digits [simp]: "parse_digits 0 (nat_digits n) = Some n"
proof (induction n rule: nat_digits.induct)
  case (1 n)
  show ?case
  proof (cases "n < 10")
    case True
    then show ?thesis by (subst nat_digits.simps) simp
  next
    case False
    then have "parse_digits 0 (nat_digits (n div 10)) = Some (n div 10)" by (rule 1)
    with False show ?thesis
      by (subst nat_digits.simps) (simp add: parse_digits_append)
  qed
qed

lemma hd_nat_digits: "\<exists>d < 10. \<exists>cs. nat_digits n = digit_char d # cs"
proof (induction n rule: nat_digits.induct)
  case (1 n)
  show ?case
  proof (cases "n < 10")
    case True
    then show ?thesis by (subst nat_digits.simps) auto
  next
    case False
    with 1 obtain d cs where "d < 10" "nat_digits (n div 10) = digit_char d # cs" by blast
    with False show ?thesis by (subst nat_digits.simps) auto
  qed
qed

lemma nat_digits_inject [simp]: "nat_digits m = nat_digits n \<longleftrightarrow> m = n"
  by (metis option.inject parse_nat_digits)

lemma fmt_d_inject [simp]: "fmt_d i = fmt_d j \<longleftrightarrow> i = j"
proof -
  have sign: "CHR ''-'' # ds \<noteq> nat_digits n" for n ds
    using hd_nat_digits [of n] digit_char_not_sign(1) by (metis list.inject)
  show ?thesis
    using sign sign [symmetric] by (auto simp: fmt_d_def)
qed

text \<open>Printing and parsing agree on every value of 64 bits.\<close>

lemma parse_fmt_d: "is_int64 i \<Longrightarrow> parse_int64 (fmt_d i) = Some i"
proof (cases "i < 0")
  case True
  assume "is_int64 i"
  with True show ?thesis
    by (simp add: parse_int64_def fmt_d_def is_int64_def)
next
  case False
  assume "is_int64 i"
  moreover obtain d cs where "d < 10" "nat_digits (nat i) = digit_char d # cs"
    using hd_nat_digits by blast
  moreover have "parse_digits 0 (nat_digits (nat i)) = Some (nat i)" by simp
  ultimately show ?thesis
    using False by (simp add: parse_int64_def fmt_d_def is_int64_def)
qed

lemma parse_int64_range: "parse_int64 s = Some i \<Longrightarrow> is_int64 i"
  by (auto simp: parse_int64_def is_int64_def Let_def split: list.splits if_splits option.splits)

section \<open>Strings\<close>

definition HasSuffix :: "string \<Rightarrow> string \<Rightarrow> bool" where
  "HasSuffix s suf \<longleftrightarrow> length suf \<le> length s \<and> drop (length s - length suf) s = suf"

lemma HasSuffix_iff: "HasSuffix s suf \<longleftrightarrow> suffix suf s"
  by (auto simp: HasSuffix_def suffix_def intro: exI [of _ "take (length s - length suf) s"])
    (metis append_take_drop_id)

text \<open>\<open>url.QueryEscape\<close>, byte by byte.\<close>

definition unreserved :: string where
  "unreserved = ''abcdefghijklmnopqrstuvwxyzABCDEFGHIJKLMNOPQRSTUVWXYZ0123456789-_.~''"

definition hex_char :: "nat \<Rightarrow> char" where
  "hex_char d = ''0123456789ABCDEF'' ! d"

fun QueryEscape :: "string \<Rightarrow> string" where
  "QueryEscape [] = []"
| "QueryEscape (c # cs) =
     (if c \<in> set unreserved then [c]
      else if c = CHR '' '' then ''+''
      else [CHR ''%'', hex_char (of_char c div 16), hex_char (of_char c mod 16)])
     @ QueryEscape cs"

lemma QueryEscape_unreserved: "set s \<subseteq> set unreserved \<Longrightarrow> QueryEscape s = s"
  by (induction s) auto

end
