(* ===== verification/GoTime.thy ===== *)
theory GoTime
  imports GoFmt
begin

text \<open>
  Go's \<open>time\<close> as the source uses it. A \<open>time.Time\<close> is the number of nanoseconds since
  its zero value (1 January of year 1, UTC), which is what \<open>IsZero\<close> tests; it is
  unbounded here, while a \<open>time.Duration\<close> is a signed 64-bit number of nanoseconds, so
  \<open>Time.Sub\<close> saturates and sums and differences of durations wrap around.
\<close>

type_synonym time = int
type_synonym duration = int

definition Second :: duration where "Second = 1000000000"
definition Minute :: duration where "Minute = 60 * Second"
definition Hour :: duration where "Hour = 60 * Minute"

lemmas duration_units = Second_def Minute_def Hour_def

definition IsZero :: "time \<Rightarrow> bool" where
  "IsZero t \<longleftrightarrow> t = 0"

definition Before :: "time \<Rightarrow> time \<Rightarrow> bool" where
  "Before t u \<longleftrightarrow> t < u"

definition maxDuration :: duration where "maxDuration = 2 ^ 63 - 1"
definition minDuration :: duration where "minDuration = - (2 ^ 63)"

text \<open>\<open>t.Sub(u)\<close>; \<open>time.Since(u)\<close> is \<open>time.Now().Sub(u)\<close>.\<close>

definition Sub :: "time \<Rightarrow> time \<Rightarrow> duration" where
  "Sub t u = (if maxDuration < t - u then maxDuration
              else if t - u < minDuration then minDuration else t - u)"

lemma Sub_int64 [simp]: "is_int64 (Sub t u)"
  by (simp add: Sub_def maxDuration_def minDuration_def is_int64_def)

lemma Sub_mono: "t \<le> t' \<Longrightarrow> Sub t u \<le> Sub t' u"
  by (auto simp: Sub_def maxDuration_def minDuration_def)

lemma Sub_exact: "is_int64 (t - u) \<Longrightarrow> Sub t u = t - u"
  by (simp add: Sub_def maxDuration_def minDuration_def is_int64_def)

lemma Sub_less_iff: "is_int64 d \<Longrightarrow> minDuration < d \<Longrightarrow> Sub t u < d \<longleftrightarrow> t - u < d"
  by (auto simp: Sub_def maxDuration_def minDuration_def is_int64_def)

text \<open>The converse comparison differs at the largest duration, where \<open>Sub\<close> saturates.\<close>

lemma less_Sub_iff: "is_int64 d \<Longrightarrow> d < maxDuration \<Longrightarrow> d < Sub t u \<longleftrightarrow> d < t - u"
  by (auto simp: Sub_def maxDuration_def minDuration_def is_int64_def)

section \<open>Calendar\<close>

text \<open>
  \<open>t.UTC().Format("2006-01-02T15-04-05")\<close>, the time stamp in a log's path. The date is
  computed from the number of days as Go's \<open>absDate\<close> does: cycles of 400, 100, 4 and 1
  years, where the last century and the last year of a cycle are one day longer.
\<close>

definition is_leap :: "int \<Rightarrow> bool" where
  "is_leap y \<longleftrightarrow> y mod 4 = 0 \<and> (y mod 100 \<noteq> 0 \<or> y mod 400 = 0)"

definition days_before :: "int list" where
  "days_before = [0, 31, 59, 90, 120, 151, 181, 212, 243, 273, 304, 334, 365]"

definition year_yday :: "int \<Rightarrow> int \<times> int" where
  "year_yday days =
     (let n400 = days div 146097; d = days mod 146097;
          n100 = min 3 (d div 36524); d = d - 36524 * n100;
          n4 = d div 1461; d = d - 1461 * n4;
          n1 = min 3 (d div 365); d = d - 365 * n1
      in (400 * n400 + 100 * n100 + 4 * n4 + n1 + 1, d))"

definition month_day :: "int \<Rightarrow> int \<Rightarrow> int \<times> int" where
  "month_day year yday =
     (if is_leap year \<and> yday = 59 then (2, 29)
      else let day = (if is_leap year \<and> 59 < yday then yday - 1 else yday);
               m = nat (day div 31);
               m' = (if days_before ! (m + 1) \<le> day then m + 1 else m)
           in (int m' + 1, day - days_before ! m' + 1))"

definition Format_stamp :: "time \<Rightarrow> string" where
  "Format_stamp t =
     (let secs = t div Second; days = secs div 86400; s = secs mod 86400;
          (y, yday) = year_yday days; (m, d) = month_day y yday
      in pad_int 4 y @ ''-'' @ pad_int 2 m @ ''-'' @ pad_int 2 d @ ''T'' @
         pad_int 2 (s div 3600) @ ''-'' @ pad_int 2 (s mod 3600 div 60) @ ''-'' @
         pad_int 2 (s mod 60))"

text \<open>Two times in the same second have the same stamp.\<close>

lemma Format_stamp_second: "t div Second = u div Second \<Longrightarrow> Format_stamp t = Format_stamp u"
  by (simp add: Format_stamp_def)

end
