(* ===== verification/Types.thy ===== *)
theory Types
  imports GoTime "HOL-Library.Word"
begin

text \<open>
  The custom resources of \<open>api/v1alpha1\<close>, field by field: the Investigation with the
  evidence in its spec and the DetectiveConfig. A pointer that may be nil is an
  \<open>option\<close>, a slice is a list (no code of the source tells a nil slice from an empty
  one), \<open>metav1.Time\<close> is a time, an \<open>int32\<close> or an \<open>int64\<close> identifier is a word.
  The object metadata holds the fields of \<open>metav1.ObjectMeta\<close> the source reads or writes.
\<close>

type_synonym int32 = "32 word"
type_synonym int64 = "64 word"

section \<open>Metadata\<close>

record NamespacedName =
  nn_Namespace :: string
  nn_Name :: string

record ObjectMeta =
  om_Name :: string
  om_Namespace :: string
  om_Labels :: "string \<rightharpoonup> string"
  om_Finalizers :: "string list"
  om_OwnerReferences :: "string list" \<comment> \<open>the names of the owners\<close>
  om_CreationTimestamp :: time
  om_DeletionTimestamp :: "time option"
  om_ResourceVersion :: string

text \<open>The metadata of an object literal that sets only the name and the namespace.\<close>

definition new_meta :: "string \<Rightarrow> string \<Rightarrow> ObjectMeta" where
  "new_meta namespace name =
     \<lparr>om_Name = name, om_Namespace = namespace, om_Labels = Map.empty, om_Finalizers = [],
      om_OwnerReferences = [], om_CreationTimestamp = 0, om_DeletionTimestamp = None,
      om_ResourceVersion = ''''\<rparr>"

definition key_of :: "ObjectMeta \<Rightarrow> NamespacedName" where
  "key_of m = \<lparr>nn_Namespace = om_Namespace m, nn_Name = om_Name m\<rparr>"

lemma key_of_new_meta [simp]: "key_of (new_meta ns n) = \<lparr>nn_Namespace = ns, nn_Name = n\<rparr>"
  by (simp add: key_of_def new_meta_def)

text \<open>A missing label reads as the empty string.\<close>

definition label :: "ObjectMeta \<Rightarrow> string \<Rightarrow> string" where
  "label m k = (case om_Labels m k of None \<Rightarrow> '''' | Some v \<Rightarrow> v)"

section \<open>Investigation\<close>

record InvestigationTrigger =
  tr_Type :: string
  tr_Source :: string

record WorkflowRunInfo =
  wr_ID :: int64
  wr_Name :: string
  wr_Status :: string
  wr_Conclusion :: string
  wr_HTMLURL :: string
  wr_Repository :: string

record JobStep =
  js_Name :: string
  js_Status :: string
  js_Conclusion :: string

record JobInfo =
  ji_ID :: int64
  ji_Name :: string
  ji_Status :: string
  ji_Conclusion :: string
  ji_RunnerName :: string
  ji_StartedAt :: "time option"
  ji_CompletedAt :: "time option"
  ji_Steps :: "JobStep list"

record StatusTransition =
  st_From :: string
  st_To :: string
  st_Timestamp :: time

record EphemeralRunnerInfo =
  er_Name :: string
  er_Namespace :: string
  er_Phase :: string
  er_StatusHistory :: "StatusTransition list"

record ConditionTransition =
  ct_Type :: string
  ct_Status :: string
  ct_Reason :: string
  ct_Message :: string
  ct_Timestamp :: time

record PodConditionSnapshot =
  pc_Type :: string
  pc_Status :: string
  pc_Reason :: string
  pc_Message :: string

record EventSnapshot =
  ev_Type :: string
  ev_Reason :: string
  ev_Message :: string
  ev_Count :: int32
  ev_Source :: string
  ev_FirstSeen :: time
  ev_LastSeen :: time

record ContainerStateTransition =
  cst_From :: string
  cst_To :: string
  cst_Reason :: string
  cst_ExitCode :: "int32 option"
  cst_Timestamp :: time

record ContainerStatusInfo =
  csi_Name :: string
  csi_State :: string
  csi_Reason :: string
  csi_ExitCode :: "int32 option"
  csi_RestartCount :: int32
  csi_OOMKilled :: bool
  csi_StateHistory :: "ContainerStateTransition list"

record PodInfo =
  pi_Name :: string
  pi_Namespace :: string
  pi_Phase :: string
  pi_PhaseHistory :: "StatusTransition list"
  pi_ConditionTransitions :: "ConditionTransition list"
  pi_Conditions :: "PodConditionSnapshot list"
  pi_ContainerStatuses :: "ContainerStatusInfo list"
  pi_Events :: "EventSnapshot list"
  pi_NodeName :: string

record TimelineEvent =
  tl_Timestamp :: time
  tl_Source :: string
  tl_Type :: string
  tl_Message :: string

record Diagnosis =
  dg_FailureType :: string
  dg_Summary :: string
  dg_Remediation :: string

record InvestigationSpec =
  sp_Trigger :: InvestigationTrigger
  sp_WorkflowRun :: "WorkflowRunInfo option"
  sp_Job :: "JobInfo option"
  sp_EphemeralRunner :: "EphemeralRunnerInfo option"
  sp_Pod :: "PodInfo option"
  sp_Timeline :: "TimelineEvent list"
  sp_Diagnosis :: "Diagnosis option"
  sp_LogPaths :: "string list"

record InvestigationStatus =
  is_Phase :: string
  is_Message :: string

record Investigation =
  inv_Meta :: ObjectMeta
  inv_Spec :: InvestigationSpec
  inv_Status :: InvestigationStatus

text \<open>A spec with a trigger and nothing else, and an object with a zero status.\<close>

definition new_spec :: "string \<Rightarrow> string \<Rightarrow> InvestigationSpec" where
  "new_spec type source =
     \<lparr>sp_Trigger = \<lparr>tr_Type = type, tr_Source = source\<rparr>, sp_WorkflowRun = None, sp_Job = None,
      sp_EphemeralRunner = None, sp_Pod = None, sp_Timeline = [], sp_Diagnosis = None,
      sp_LogPaths = []\<rparr>"

definition new_investigation :: "ObjectMeta \<Rightarrow> InvestigationSpec \<Rightarrow> Investigation" where
  "new_investigation m sp =
     \<lparr>inv_Meta = m, inv_Spec = sp, inv_Status = \<lparr>is_Phase = '''', is_Message = ''''\<rparr>\<rparr>"

text \<open>\<open>inv.Status.Phase = p\<close>\<close>

definition set_phase :: "string \<Rightarrow> Investigation \<Rightarrow> Investigation" where
  "set_phase p iv = iv\<lparr>inv_Status := (inv_Status iv)\<lparr>is_Phase := p\<rparr>\<rparr>"

definition phase_of :: "Investigation \<Rightarrow> string" where
  "phase_of iv = is_Phase (inv_Status iv)"

definition phaseCollecting :: string where "phaseCollecting = ''Collecting''"
definition phaseComplete :: string where "phaseComplete = ''Complete''"

lemma phases_differ [simp]:
  "phaseCollecting \<noteq> phaseComplete" "phaseComplete \<noteq> phaseCollecting"
  "phaseCollecting \<noteq> []" "phaseComplete \<noteq> []" "[] \<noteq> phaseCollecting" "[] \<noteq> phaseComplete"
  by (simp_all add: phaseCollecting_def phaseComplete_def)

lemma set_phase_simps [simp]:
  "inv_Meta (set_phase p iv) = inv_Meta iv"
  "inv_Spec (set_phase p iv) = inv_Spec iv"
  "phase_of (set_phase p iv) = p"
  "set_phase q (set_phase p iv) = set_phase q iv"
  by (simp_all add: set_phase_def phase_of_def)

lemma new_investigation_simps [simp]:
  "inv_Meta (new_investigation m sp) = m"
  "inv_Spec (new_investigation m sp) = sp"
  "phase_of (new_investigation m sp) = ''''"
  by (simp_all add: new_investigation_def phase_of_def)

section \<open>DetectiveConfig\<close>

record RepositoryRef =
  rr_Owner :: string
  rr_Name :: string

record LogStorageSpec =
  ls_PVCName :: string
  ls_MaxSizeMB :: "int option"

record DetectiveConfigSpec =
  dc_Repositories :: "RepositoryRef list"
  dc_PollInterval :: "duration option"
  dc_LogStorage :: LogStorageSpec
  dc_RetentionPeriod :: "duration option"
  dc_MaxInvestigations :: "int option"

record DetectiveConfigStatus =
  ds_Phase :: string
  ds_Message :: string

record DetectiveConfig =
  cfg_Meta :: ObjectMeta
  cfg_Spec :: DetectiveConfigSpec
  cfg_Status :: DetectiveConfigStatus

end
