(* ===== verification/Kube.thy ===== *)
theory Kube
  imports Types
begin

text \<open>
  The Kubernetes objects the controllers read (pods, EphemeralRunners, events), restricted to the
  fields the source uses, and the runtime the controllers call: the methods of controller-runtime's
  \<open>client.Client\<close> for each kind of object, and the clock. The API server is not part of the
  program, so the runtime is a parameter of every controller; \<open>kube_laws\<close> states what its
  documentation promises about the stored Investigations, for the properties that need it.
\<close>

section \<open>Objects\<close>

text \<open>
  \<open>corev1.ContainerState\<close> has three pointers; \<open>cs_Waiting\<close> holds the reason,
  \<open>cs_Terminated\<close> the reason and the exit code.
\<close>

record ContainerStatus =
  cs_Name :: string
  cs_RestartCount :: int32
  cs_Waiting :: "string option"
  cs_Running :: bool
  cs_Terminated :: "(string \<times> int32) option"

text \<open>The API documents that at most one of the members is set.\<close>

definition one_state :: "ContainerStatus \<Rightarrow> bool" where
  "one_state cs \<longleftrightarrow>
     (cs_Waiting cs \<noteq> None \<longrightarrow> \<not> cs_Running cs \<and> cs_Terminated cs = None) \<and>
     (cs_Running cs \<longrightarrow> cs_Terminated cs = None)"

record PodCondition =
  cond_Type :: string
  cond_Status :: string
  cond_Reason :: string
  cond_Message :: string

record Pod =
  pod_Meta :: ObjectMeta
  pod_NodeName :: string
  pod_InitContainers :: "string list" \<comment> \<open>the names\<close>
  pod_Containers :: "string list" \<comment> \<open>the names\<close>
  pod_Phase :: string
  pod_Conditions :: "PodCondition list"
  pod_ContainerStatuses :: "ContainerStatus list"

record Event =
  evt_Type :: string
  evt_Reason :: string
  evt_Message :: string
  evt_Count :: int32
  evt_Component :: string
  evt_FirstTimestamp :: time
  evt_LastTimestamp :: time

text \<open>
  An unstructured object: its metadata, and what \<open>unstructured.NestedString\<close> (a library's)
  finds at a path, \<open>None\<close> when the field is missing or not a string.
\<close>

record Unstructured =
  un_Meta :: ObjectMeta
  un_NestedString :: "string list \<Rightarrow> string option"

definition getNestedString :: "Unstructured \<Rightarrow> string list \<Rightarrow> string" where
  "getNestedString obj path =
     (case un_NestedString obj path of None \<Rightarrow> [] | Some v \<Rightarrow> v)"

section \<open>The runtime\<close>

text \<open>
  Create, Update and the status update return the object the server answers with, which the
  client writes back into its argument. The three functions on finalizers are those of
  controller-runtime's \<open>controllerutil\<close>.
\<close>

record 'w runtime =
  ContainsFinalizer :: "ObjectMeta \<Rightarrow> string \<Rightarrow> bool"
  AddFinalizer :: "ObjectMeta \<Rightarrow> string \<Rightarrow> ObjectMeta"
  RemoveFinalizer :: "ObjectMeta \<Rightarrow> string \<Rightarrow> ObjectMeta"
  Now :: "('w, time) state"
  Get_Investigation :: "NamespacedName \<Rightarrow> ('w, go_error + Investigation) state"
  Create_Investigation :: "Investigation \<Rightarrow> ('w, go_error + Investigation) state"
  Update_Investigation :: "Investigation \<Rightarrow> ('w, go_error + Investigation) state"
  StatusUpdate_Investigation :: "Investigation \<Rightarrow> ('w, go_error + Investigation) state"
  Delete_Investigation :: "Investigation \<Rightarrow> ('w, go_error option) state"
  List_Investigations :: "('w, go_error + Investigation list) state"
  List_Configs :: "('w, go_error + DetectiveConfig list) state"
  Get_Pod :: "NamespacedName \<Rightarrow> ('w, go_error + Pod) state"
  Update_Pod :: "Pod \<Rightarrow> ('w, go_error + Pod) state"
  List_Pods :: "string \<Rightarrow> string \<times> string \<Rightarrow> ('w, go_error + Pod list) state"
  Get_ER :: "NamespacedName \<Rightarrow> ('w, go_error + Unstructured) state"
  List_ERs :: "string \<Rightarrow> ('w, go_error + Unstructured list) state"
  List_Events :: "string \<Rightarrow> string \<Rightarrow> ('w, go_error + Event list) state"

text \<open>What \<open>controllerutil\<close> documents of the finalizers, for the properties that need it.\<close>

definition finalizer_laws :: "'w runtime \<Rightarrow> bool" where
  "finalizer_laws K \<longleftrightarrow>
     (\<forall>m f. ContainsFinalizer K m f \<longleftrightarrow> f \<in> set (om_Finalizers m)) \<and>
     (\<forall>m f. AddFinalizer K m f =
        (if f \<in> set (om_Finalizers m) then m else m\<lparr>om_Finalizers := om_Finalizers m @ [f]\<rparr>)) \<and>
     (\<forall>m f. RemoveFinalizer K m f =
        m\<lparr>om_Finalizers := filter (\<lambda>g. g \<noteq> f) (om_Finalizers m)\<rparr>)"

text \<open>A clock that the world shows and that stands still during a step.\<close>

definition reads_clock :: "'w runtime \<Rightarrow> ('w \<Rightarrow> time) \<Rightarrow> bool" where
  "reads_clock K clk \<longleftrightarrow> (\<forall>w. run_state (Now K) w = (clk w, w))"

lemma reads_clockD: "reads_clock K clk \<Longrightarrow> run_state (Now K) w = (clk w, w)"
  by (simp add: reads_clock_def)

section \<open>Reconcile\<close>

text \<open>\<open>ctrl.Result\<close>; a zero \<open>RequeueAfter\<close> asks for nothing.\<close>

record Result =
  RequeueAfter :: duration

definition no_requeue :: Result where
  "no_requeue = \<lparr>RequeueAfter = 0\<rparr>"

text \<open>\<open>DeletionTimestamp.IsZero()\<close>: nil, or the zero time.\<close>

definition being_deleted :: "ObjectMeta \<Rightarrow> bool" where
  "being_deleted m = (case om_DeletionTimestamp m of None \<Rightarrow> False | Some t \<Rightarrow> \<not> IsZero t)"

definition error_of :: "go_error + 'a \<Rightarrow> go_error option" where
  "error_of r = (case r of Inl e \<Rightarrow> Some e | Inr x \<Rightarrow> None)"

lemma error_of_simps [simp]: "error_of (Inl e) = Some e" "error_of (Inr x) = None"
  by (simp_all add: error_of_def)

section \<open>The laws of the stored Investigations\<close>

text \<open>
  What the API server promises of the stored Investigations, seen through \<open>stored\<close>: a Create
  that succeeds adds an object that was not there; an update of the object or of its status
  changes no other object and adds none; a Delete that succeeds removes a stored object; a call
  that fails changes nothing; a call of another kind does not touch Investigations. Nothing is said
  of what Get and List return, which come from a cache and may be old.
\<close>

type_synonym 'w store = "'w \<Rightarrow> NamespacedName \<Rightarrow> Investigation option"

definition keeps :: "'w store \<Rightarrow> ('w, 'a) state \<Rightarrow> bool" where
  "keeps stored m \<longleftrightarrow> (\<forall>w. stored (snd (run_state m w)) = stored w)"

text \<open>A call that stores an object: \<open>fresh\<close> says whether it must be a new one.\<close>

definition put_law ::
  "'w store \<Rightarrow> bool \<Rightarrow> (Investigation \<Rightarrow> ('w, go_error + Investigation) state) \<Rightarrow> bool" where
  "put_law stored fresh call \<longleftrightarrow>
     (\<forall>x w. case run_state (call x) w of
        (Inl e, w') \<Rightarrow> stored w' = stored w
      | (Inr y, w') \<Rightarrow>
          (stored w (key_of (inv_Meta x)) = None) = fresh \<and>
          key_of (inv_Meta y) = key_of (inv_Meta x) \<and>
          stored w' = (stored w)(key_of (inv_Meta x) \<mapsto> y))"

definition drop_law :: "'w store \<Rightarrow> (Investigation \<Rightarrow> ('w, go_error option) state) \<Rightarrow> bool" where
  "drop_law stored call \<longleftrightarrow>
     (\<forall>x w. case run_state (call x) w of
        (Some e, w') \<Rightarrow> stored w' = stored w
      | (None, w') \<Rightarrow>
          stored w (key_of (inv_Meta x)) \<noteq> None \<and>
          stored w' = (stored w)(key_of (inv_Meta x) := None))"

definition kube_laws :: "'w store \<Rightarrow> 'w runtime \<Rightarrow> bool" where
  "kube_laws stored K \<longleftrightarrow>
     put_law stored True (Create_Investigation K) \<and>
     put_law stored False (Update_Investigation K) \<and>
     put_law stored False (StatusUpdate_Investigation K) \<and>
     drop_law stored (Delete_Investigation K) \<and>
     keeps stored (Now K) \<and>
     (\<forall>k. keeps stored (Get_Investigation K k)) \<and>
     keeps stored (List_Investigations K) \<and>
     keeps stored (List_Configs K) \<and>
     (\<forall>k. keeps stored (Get_Pod K k)) \<and>
     (\<forall>p. keeps stored (Update_Pod K p)) \<and>
     (\<forall>ns l. keeps stored (List_Pods K ns l)) \<and>
     (\<forall>k. keeps stored (Get_ER K k)) \<and>
     (\<forall>ns. keeps stored (List_ERs K ns)) \<and>
     (\<forall>ns n. keeps stored (List_Events K ns n))"

lemma keeps_run: "keeps stored m \<Longrightarrow> run_state m w = (a, w') \<Longrightarrow> stored w' = stored w"
  unfolding keeps_def by (metis snd_conv)

named_theorems kube_keeps "calls of the runtime that leave the stored Investigations alone"

lemma kube_laws_keeps [kube_keeps]:
  assumes "kube_laws stored K"
  shows "keeps stored (Now K)" "keeps stored (Get_Investigation K k)"
    "keeps stored (List_Investigations K)" "keeps stored (List_Configs K)"
    "keeps stored (Get_Pod K k)" "keeps stored (Update_Pod K p)" "keeps stored (List_Pods K ns l)"
    "keeps stored (Get_ER K k)" "keeps stored (List_ERs K ns)" "keeps stored (List_Events K ns n)"
  using assms unfolding kube_laws_def by blast+

lemma put_law_Inr:
  assumes "put_law stored fresh call" and "run_state (call x) w = (Inr y, w')"
  shows "(stored w (key_of (inv_Meta x)) = None) = fresh \<and>
         key_of (inv_Meta y) = key_of (inv_Meta x) \<and>
         stored w' = (stored w)(key_of (inv_Meta x) \<mapsto> y)"
  using assms(1) [unfolded put_law_def, rule_format, where x = x and w = w] assms(2) by simp

lemma put_law_Inl:
  assumes "put_law stored fresh call" and "run_state (call x) w = (Inl e, w')"
  shows "stored w' = stored w"
  using assms(1) [unfolded put_law_def, rule_format, where x = x and w = w] assms(2) by simp

lemma drop_law_None:
  assumes "drop_law stored call" and "run_state (call x) w = (None, w')"
  shows "stored w (key_of (inv_Meta x)) \<noteq> None \<and>
         stored w' = (stored w)(key_of (inv_Meta x) := None)"
  using assms(1) [unfolded drop_law_def, rule_format, where x = x and w = w] assms(2) by simp

lemma drop_law_Some:
  assumes "drop_law stored call" and "run_state (call x) w = (Some e, w')"
  shows "stored w' = stored w"
  using assms(1) [unfolded drop_law_def, rule_format, where x = x and w = w] assms(2) by simp

lemma kube_laws_puts:
  assumes "kube_laws stored K"
  shows "put_law stored True (Create_Investigation K)"
    "put_law stored False (Update_Investigation K)"
    "put_law stored False (StatusUpdate_Investigation K)"
    "drop_law stored (Delete_Investigation K)"
  using assms unfolding kube_laws_def by blast+

text \<open>An update adds no object and removes none.\<close>

lemma put_law_dom:
  assumes "put_law stored False call"
  shows "dom (stored (snd (run_state (call x) w))) = dom (stored w)"
proof (cases "run_state (call x) w")
  case (Pair r w')
  show ?thesis
  proof (cases r)
    case (Inl e)
    with Pair put_law_Inl [OF assms, of x w e w'] show ?thesis by simp
  next
    case (Inr y)
    with Pair put_law_Inr [OF assms, of x w y w'] show ?thesis by auto
  qed
qed

end
