(* ===== verification/GitHub.thy ===== *)
theory GitHub
  imports Types
begin

text \<open>
  \<open>internal/github\<close>: the rate limit tracker, the options and the requests of the client, and
  the interface \<open>Client\<close> through which the controllers call it. What answers the requests is
  outside the program: \<open>http_env\<close> has the checks of \<open>http.NewRequest\<close> on the URL and the round
  trip of \<open>http.Client.Do\<close> as parameters; the decoding of a JSON body into the response type
  is a parameter of the call that names the type.
\<close>

section \<open>types.go\<close>

record Step =
  step_Name :: string
  step_Status :: string
  step_Conclusion :: string

record WorkflowRun =
  run_ID :: int64
  run_Name :: string
  run_Status :: string
  run_Conclusion :: string
  run_HTMLURL :: string
  run_CreatedAt :: time
  run_UpdatedAt :: time

record listRunsResponse =
  lr_TotalCount :: int
  lr_WorkflowRuns :: "WorkflowRun list"

record Job =
  job_ID :: int64
  job_Name :: string
  job_Status :: string
  job_Conclusion :: string
  job_RunnerName :: string
  job_StartedAt :: time
  job_CompletedAt :: time
  job_Steps :: "Step list"

record listJobsResponse =
  lj_TotalCount :: int
  lj_Jobs :: "Job list"

record ListRunsOpts =
  lo_Status :: string

text \<open>\<open>fmt.Sprintf("%d", id)\<close> of an \<open>int64\<close>.\<close>

definition fmt_id :: "int64 \<Rightarrow> string" where
  "fmt_id n = fmt_d (sint n)"

lemma sint_inject: "sint (m :: int64) = sint n \<Longrightarrow> m = n"
proof -
  assume "sint m = sint n"
  then have "(word_of_int (sint m) :: int64) = word_of_int (sint n)" by simp
  then show "m = n" by simp
qed

lemma fmt_id_inject [simp]: "fmt_id m = fmt_id n \<longleftrightarrow> m = n"
  by (auto simp: fmt_id_def dest: sint_inject)

section \<open>The interface\<close>

text \<open>The methods of \<open>Client\<close>, on whatever state the implementation and the network have.\<close>

record 'w GHClient =
  gh_ListWorkflowRuns :: "string \<Rightarrow> string \<Rightarrow> ListRunsOpts \<Rightarrow> ('w, go_error + WorkflowRun list) state"
  gh_ListJobsForRun :: "string \<Rightarrow> string \<Rightarrow> int64 \<Rightarrow> ('w, go_error + Job list) state"
  gh_GetJob :: "string \<Rightarrow> string \<Rightarrow> int64 \<Rightarrow> ('w, go_error + Job) state"
  gh_IsRateLimited :: "('w, bool) state"

section \<open>ratelimit.go\<close>

record http_response =
  hr_StatusCode :: int
  hr_Header :: "string \<Rightarrow> string" \<comment> \<open>\<open>Header.Get\<close>: empty where the header is missing\<close>
  hr_Body :: string

record RateLimitTracker =
  rl_remaining :: int
  rl_resetAt :: time
  rl_threshold :: int

definition NewRateLimitTracker :: "int \<Rightarrow> RateLimitTracker" where
  "NewRateLimitTracker threshold =
     \<lparr>rl_remaining = - 1, rl_resetAt = 0, rl_threshold = threshold\<rparr>"

text \<open>\<open>time.Unix(epoch, 0)\<close>: the shift from 1970 to year 1 is a 64-bit addition.\<close>

definition Unix :: "int \<Rightarrow> time" where
  "Unix epoch = wrap64 (epoch + 62135596800) * Second"

definition Update :: "http_response \<Rightarrow> RateLimitTracker \<Rightarrow> RateLimitTracker" where
  "Update resp r =
     (let v = hr_Header resp ''X-RateLimit-Remaining'';
          r1 = (if v \<noteq> [] then
                  (case parse_int64 v of Some n \<Rightarrow> r\<lparr>rl_remaining := n\<rparr> | None \<Rightarrow> r)
                else r);
          v' = hr_Header resp ''X-RateLimit-Reset''
      in if v' \<noteq> [] then
           (case parse_int64 v' of Some epoch \<Rightarrow> r1\<lparr>rl_resetAt := Unix epoch\<rparr> | None \<Rightarrow> r1)
         else r1)"

definition ShouldBackoff :: "RateLimitTracker \<Rightarrow> bool" where
  "ShouldBackoff r = (if rl_remaining r < 0 then False else rl_remaining r \<le> rl_threshold r)"

definition ResetAt :: "RateLimitTracker \<Rightarrow> time" where
  "ResetAt r = rl_resetAt r"

definition Remaining :: "RateLimitTracker \<Rightarrow> int" where
  "Remaining r = rl_remaining r"

lemma parse_int64_Nil [simp]: "parse_int64 [] = None"
  by (simp add: parse_int64_def)

lemma Remaining_Update:
  "Remaining (Update resp r) =
   (case parse_int64 (hr_Header resp ''X-RateLimit-Remaining'') of Some n \<Rightarrow> n | None \<Rightarrow> Remaining r)"
  by (auto simp: Remaining_def Update_def Let_def split: option.split)

lemma rl_threshold_Update [simp]: "rl_threshold (Update resp r) = rl_threshold r"
  by (auto simp: Update_def Let_def split: option.split)

section \<open>client.go\<close>

text \<open>
  \<open>WithGitHubApp\<close> puts a transport in place that mints installation tokens (a library's,
  so only its configuration is kept here).
\<close>

record app_config =
  ac_AppID :: string
  ac_InstallationID :: string
  ac_PrivateKey :: string
  ac_BaseURL :: string

datatype transport = DefaultTransport | OAuth2Transport app_config

record http_client =
  hc_Timeout :: duration
  hc_Transport :: transport

record client =
  cl_httpClient :: http_client
  cl_baseURL :: string
  cl_token :: string

datatype Option =
    WithBaseURL string
  | WithPAT string
  | WithGitHubApp app_config
  | WithHTTPClient http_client

fun apply_option :: "Option \<Rightarrow> client \<Rightarrow> client" where
  "apply_option (WithBaseURL baseURL) c = c\<lparr>cl_baseURL := baseURL\<rparr>"
| "apply_option (WithPAT token) c = c\<lparr>cl_token := token\<rparr>"
| "apply_option (WithGitHubApp cfg) c =
     c\<lparr>cl_httpClient :=
         \<lparr>hc_Timeout = hc_Timeout (cl_httpClient c), hc_Transport = OAuth2Transport cfg\<rparr>\<rparr>"
| "apply_option (WithHTTPClient hc) c = c\<lparr>cl_httpClient := hc\<rparr>"

text \<open>The tracker the new client starts with is \<open>NewRateLimitTracker(10)\<close>; it is the part of
  the client that changes, so it is kept in the state.\<close>

definition NewClient :: "Option list \<Rightarrow> client \<times> RateLimitTracker" where
  "NewClient opts =
     (fold apply_option opts
        \<lparr>cl_httpClient = \<lparr>hc_Timeout = 30 * Second, hc_Transport = DefaultTransport\<rparr>,
         cl_baseURL = ''https://api.github.com'', cl_token = []\<rparr>,
      NewRateLimitTracker 10)"

record http_request =
  rq_URL :: string
  rq_Header :: "(string \<times> string) list"

record 'n http_env =
  he_NewRequest :: "string \<Rightarrow> go_error option" \<comment> \<open>what is wrong with the URL, if anything\<close>
  he_Do :: "http_client \<Rightarrow> http_request \<Rightarrow> ('n, go_error + http_response) state"

text \<open>The state behind the client's methods: its tracker, and the network.\<close>

record 'n gh_state =
  gs_rateLimit :: RateLimitTracker
  gs_net :: 'n

definition on_net :: "('n, 'a) state \<Rightarrow> ('n gh_state, 'a) state" where
  "on_net m = State (\<lambda>s. case run_state m (gs_net s) of (a, n) \<Rightarrow> (a, s\<lparr>gs_net := n\<rparr>))"

lemma run_on_net [simp, run_simps]:
  "run_state (on_net m) s = (case run_state m (gs_net s) of (a, n) \<Rightarrow> (a, s\<lparr>gs_net := n\<rparr>))"
  by (simp add: on_net_def)

definition request_headers :: "client \<Rightarrow> (string \<times> string) list" where
  "request_headers c =
     [(''Accept'', ''application/vnd.github+json''), (''X-GitHub-Api-Version'', ''2022-11-28'')] @
     (if cl_token c \<noteq> [] then [(''Authorization'', ''Bearer '' @ cl_token c)] else [])"

definition doGet ::
  "'n http_env \<Rightarrow> client \<Rightarrow> string \<Rightarrow> (string \<Rightarrow> go_error + 'a) \<Rightarrow> ('n gh_state, go_error + 'a) state"
where
  "doGet env c rawURL decode =
     (case he_NewRequest env rawURL of
        Some err \<Rightarrow> ret (Inl (Wrapped ''creating request'' err))
      | None \<Rightarrow> do {
          r \<leftarrow> on_net (he_Do env (cl_httpClient c)
                  \<lparr>rq_URL = rawURL, rq_Header = request_headers c\<rparr>);
          (case r of
             Inl err \<Rightarrow> ret (Inl (Wrapped ''executing request'' err))
           | Inr resp \<Rightarrow> do {
               modify (\<lambda>s. s\<lparr>gs_rateLimit := Update resp (gs_rateLimit s)\<rparr>);
               if hr_StatusCode resp \<noteq> 200 then
                 ret (Inl (Errorf (''GitHub API returned '' @ fmt_d (hr_StatusCode resp) @ '': '' @
                                   hr_Body resp)))
               else (case decode (hr_Body resp) of
                   Inl err \<Rightarrow> ret (Inl (Wrapped ''decoding response'' err))
                 | Inr x \<Rightarrow> ret (Inr x))
             })
        })"

definition IsRateLimited :: "('n gh_state, bool) state" where
  "IsRateLimited = gets (\<lambda>s. ShouldBackoff (gs_rateLimit s))"

definition runs_url :: "client \<Rightarrow> string \<Rightarrow> string \<Rightarrow> string" where
  "runs_url c owner repo =
     cl_baseURL c @ ''/repos/'' @ owner @ ''/'' @ repo @ ''/actions/runs''"

definition ListWorkflowRuns ::
  "'n http_env \<Rightarrow> (string \<Rightarrow> go_error + listRunsResponse) \<Rightarrow> client \<Rightarrow> string \<Rightarrow> string \<Rightarrow>
   ListRunsOpts \<Rightarrow> ('n gh_state, go_error + WorkflowRun list) state"
where
  "ListWorkflowRuns env decode c owner repo opts =
     (let u = runs_url c owner repo;
          u' = (if lo_Status opts \<noteq> [] then u @ ''?status='' @ QueryEscape (lo_Status opts) else u)
      in do {
        r \<leftarrow> doGet env c u' decode;
        ret (case r of Inl err \<Rightarrow> Inl err | Inr result \<Rightarrow> Inr (lr_WorkflowRuns result))
      })"

definition ListJobsForRun ::
  "'n http_env \<Rightarrow> (string \<Rightarrow> go_error + listJobsResponse) \<Rightarrow> client \<Rightarrow> string \<Rightarrow> string \<Rightarrow>
   int64 \<Rightarrow> ('n gh_state, go_error + Job list) state"
where
  "ListJobsForRun env decode c owner repo runID =
     do {
       r \<leftarrow> doGet env c (runs_url c owner repo @ ''/'' @ fmt_id runID @ ''/jobs'') decode;
       ret (case r of Inl err \<Rightarrow> Inl err | Inr result \<Rightarrow> Inr (lj_Jobs result))
     }"

definition GetJob ::
  "'n http_env \<Rightarrow> (string \<Rightarrow> go_error + Job) \<Rightarrow> client \<Rightarrow> string \<Rightarrow> string \<Rightarrow> int64 \<Rightarrow>
   ('n gh_state, go_error + Job) state"
where
  "GetJob env decode c owner repo jobID =
     doGet env c (cl_baseURL c @ ''/repos/'' @ owner @ ''/'' @ repo @ ''/actions/jobs/'' @
                  fmt_id jobID) decode"

text \<open>The client as a value of the interface.\<close>

definition client_methods ::
  "'n http_env \<Rightarrow> (string \<Rightarrow> go_error + listRunsResponse) \<Rightarrow> (string \<Rightarrow> go_error + listJobsResponse) \<Rightarrow>
   (string \<Rightarrow> go_error + Job) \<Rightarrow> client \<Rightarrow> 'n gh_state GHClient"
where
  "client_methods env decRuns decJobs decJob c =
     \<lparr>gh_ListWorkflowRuns = ListWorkflowRuns env decRuns c,
      gh_ListJobsForRun = ListJobsForRun env decJobs c,
      gh_GetJob = GetJob env decJob c,
      gh_IsRateLimited = IsRateLimited\<rparr>"

section \<open>Properties\<close>

text \<open>What a call does, by the answer it gets.\<close>

lemma doGet_response:
  assumes "he_NewRequest env u = None"
    and "run_state (he_Do env (cl_httpClient c) \<lparr>rq_URL = u, rq_Header = request_headers c\<rparr>)
           (gs_net s) = (Inr resp, n)"
  shows "run_state (doGet env c u dec) s =
    (if hr_StatusCode resp \<noteq> 200 then
       Inl (Errorf (''GitHub API returned '' @ fmt_d (hr_StatusCode resp) @ '': '' @ hr_Body resp))
     else (case dec (hr_Body resp) of
         Inl err \<Rightarrow> Inl (Wrapped ''decoding response'' err) | Inr x \<Rightarrow> Inr x),
     s\<lparr>gs_net := n, gs_rateLimit := Update resp (gs_rateLimit s)\<rparr>)"
  using assms by (simp add: doGet_def split: sum.split)

text \<open>C26: the tracker learns the quota from every response, also from an error status and from a body
  that cannot be decoded: after any call that got a response, whether the client is rate limited
  depends on the header of that response when it holds a number, and is as before otherwise.\<close>

theorem doGet_updates_rate_limit:
  assumes "he_NewRequest env u = None"
    and "run_state (he_Do env (cl_httpClient c) \<lparr>rq_URL = u, rq_Header = request_headers c\<rparr>)
           (gs_net s) = (Inr resp, n)"
  shows "let s' = snd (run_state (doGet env c u dec) s)
         in fst (run_state IsRateLimited s') =
            (case parse_int64 (hr_Header resp ''X-RateLimit-Remaining'') of
               Some k \<Rightarrow> 0 \<le> k \<and> k \<le> rl_threshold (gs_rateLimit s)
             | None \<Rightarrow> fst (run_state IsRateLimited s))"
  unfolding Let_def doGet_response [OF assms]
  using Remaining_Update [of resp "gs_rateLimit s"]
  by (auto simp: IsRateLimited_def ShouldBackoff_def Remaining_def split: option.split)

text \<open>A network that answers every request with one response, for the witnesses.\<close>

definition answer_env :: "http_response \<Rightarrow> unit http_env" where
  "answer_env resp = \<lparr>he_NewRequest = (\<lambda>u. None), he_Do = (\<lambda>hc rq. State (\<lambda>n. (Inr resp, n)))\<rparr>"

definition limited_response :: http_response where
  "limited_response =
     \<lparr>hr_StatusCode = 403,
      hr_Header = (\<lambda>h. if h = ''X-RateLimit-Remaining'' then ''5'' else []),
      hr_Body = ''rate limit exceeded''\<rparr>"

lemma parse_5: "parse_int64 ''5'' = Some 5"
  by (simp add: parse_int64_def digit_val_def upt_rec)

theorem doGet_updates_rate_limit_witness:
  "let s' = snd (run_state (doGet (answer_env limited_response) (fst (NewClient [])) ''u''
              (\<lambda>b. Inr ())) \<lparr>gs_rateLimit = NewRateLimitTracker 10, gs_net = ()\<rparr>)
   in fst (run_state IsRateLimited s') = True"
proof -
  let ?s = "\<lparr>gs_rateLimit = NewRateLimitTracker 10, gs_net = ()\<rparr>"
  have "let s' = snd (run_state (doGet (answer_env limited_response) (fst (NewClient [])) ''u''
              (\<lambda>b. Inr ())) ?s)
        in fst (run_state IsRateLimited s') =
           (case parse_int64 (hr_Header limited_response ''X-RateLimit-Remaining'') of
              Some k \<Rightarrow> 0 \<le> k \<and> k \<le> rl_threshold (gs_rateLimit ?s)
            | None \<Rightarrow> fst (run_state IsRateLimited ?s))"
    by (rule doGet_updates_rate_limit [where n = "()"]) (simp_all add: answer_env_def)
  then show ?thesis
    by (simp add: limited_response_def parse_5 NewRateLimitTracker_def)
qed

text \<open>C27: a quota the server prints is read back exactly: for every 64-bit number of remaining requests
  the tracker holds that number after the response, whatever it held before, and it backs off
  exactly when the number lies between zero and the threshold, both included.\<close>

theorem tracker_reads_printed_quota:
  assumes "is_int64 k" and "hr_Header resp ''X-RateLimit-Remaining'' = fmt_d k"
  shows "Remaining (Update resp r) = k \<and>
         (ShouldBackoff (Update resp r) \<longleftrightarrow> 0 \<le> k \<and> k \<le> rl_threshold r)"
proof -
  have "Remaining (Update resp r) = k"
    using assms by (simp add: Remaining_Update parse_fmt_d)
  then show ?thesis by (auto simp: ShouldBackoff_def Remaining_def)
qed

theorem tracker_reads_printed_quota_witness:
  "let resp = \<lparr>hr_StatusCode = 200, hr_Header = (\<lambda>h. fmt_d 10), hr_Body = []\<rparr>;
       r = NewRateLimitTracker 10
   in Remaining (Update resp r) = 10 \<and> (ShouldBackoff (Update resp r) \<longleftrightarrow> 0 \<le> (10::int) \<and> 10 \<le> rl_threshold r)"
  unfolding Let_def
  by (rule tracker_reads_printed_quota) (simp_all add: is_int64_def)


end
