(* ===== verification/Storage.thy ===== *)
theory Storage
  imports Prelude
begin

text \<open>
  The interface \<open>logcollector.Storage\<close> and its contract, as the log collector and the cleanup rely on it:
  a stream is the bytes it yields and the error it ends with; a reader is the content, or \<open>None\<close> for a
  directory, which can be opened but not read. \<open>st_disk\<close> is \<open>OldestFiles\<close> where the storage is a
  \<open>*DiskStorage\<close>, which the cleanup finds out by a type assertion.
\<close>

type_synonym stream = "string \<times> go_error option"

record 'w Storage =
  st_Write :: "string \<Rightarrow> stream \<Rightarrow> ('w, go_error option) state"
  st_Read :: "string \<Rightarrow> ('w, go_error + string option) state"
  st_Delete :: "string \<Rightarrow> ('w, go_error option) state"
  st_ListPrefix :: "string \<Rightarrow> ('w, string list) state"
  st_UsageBytes :: "('w, int \<times> go_error option) state"
  st_disk :: "('w, go_error + string list) state option"

text \<open>
  The contract: \<open>holds w p\<close> is the content of the log at \<open>p\<close>, for paths that are \<open>valid\<close>.
\<close>

locale log_storage =
  fixes st :: "'w Storage" and ok :: "'w \<Rightarrow> bool" and valid :: "string \<Rightarrow> bool"
    and holds :: "'w \<Rightarrow> string \<Rightarrow> string option"
  assumes write_ok: "ok w \<Longrightarrow> valid p \<Longrightarrow> run_state (st_Write st p (data, err)) w = (r, w') \<Longrightarrow>
      ok w' \<and> (r = None \<longrightarrow> err = None \<and> holds w' p = Some data) \<and>
      (\<forall>q. valid q \<longrightarrow> q \<noteq> p \<longrightarrow> holds w' q = holds w q)"
    and read_holds: "ok w \<Longrightarrow> valid p \<Longrightarrow> run_state (st_Read st p) w = (Inr (Some data), w') \<longleftrightarrow>
      holds w p = Some data \<and> w' = w"
    and delete_ok: "ok w \<Longrightarrow> valid p \<Longrightarrow> run_state (st_Delete st p) w = (r, w') \<Longrightarrow>
      ok w' \<and> (r = None \<longrightarrow> holds w' p = None) \<and>
      (\<forall>q. valid q \<longrightarrow> holds w p \<noteq> None \<longrightarrow> q \<noteq> p \<longrightarrow> holds w' q = holds w q)"
begin

text \<open>What is written can be read back, and a later write to another path does not change that.\<close>

lemma write_read:
  assumes "ok w" and "valid p" and "run_state (st_Write st p (data, err)) w = (None, w')"
  shows "run_state (st_Read st p) w' = (Inr (Some data), w')"
  using write_ok [OF assms] read_holds [of w' p data w'] assms(2) by blast

lemma write_write:
  assumes "ok w" and "valid p" and "valid q" and "q \<noteq> p"
    and "run_state (st_Write st q d) w = (r, w')" and "holds w p = Some data"
  shows "ok w' \<and> holds w' p = Some data"
  using write_ok [OF assms(1,3), of "fst d" "snd d"] assms by fastforce

end

end
