(* ===== verification/Trace.thy ===== *)
theory Trace
  imports Kube GitHub Storage
begin

text \<open>
  The calls a controller makes, in order. \<open>traced K\<close> is the runtime \<open>K\<close> with every call to the
  cluster recorded in a list beside the state of \<open>K\<close>, so that a statement about the order of the
  calls, such as "the logs are collected before the finalizer is removed", is one about that list, for
  whatever the cluster answers. The relation \<open>appends\<close> bounds what a piece of code may call.
\<close>

section \<open>Calls\<close>

datatype call =
    GetInvestigation NamespacedName
  | CreateInvestigation Investigation
  | UpdateInvestigation Investigation
  | StatusUpdateInvestigation Investigation
  | DeleteInvestigation Investigation
  | ListInvestigations
  | ListConfigs
  | GetPod NamespacedName
  | UpdatePod Pod
  | ListPods string "string \<times> string"
  | GetER NamespacedName
  | ListERs string
  | ListEvents string string
  | CollectLogsOf Pod
  | GHListRuns string string ListRunsOpts
  | GHListJobs string string int64
  | GHGetJob string string int64
  | GHIsRateLimited
  | DeleteLog string

definition recorded :: "call \<Rightarrow> ('w, 'a) state \<Rightarrow> ('w \<times> call list, 'a) state" where
  "recorded c m = State (\<lambda>(w, cs). case run_state m w of (a, w') \<Rightarrow> (a, (w', cs @ [c])))"

definition silent :: "('w, 'a) state \<Rightarrow> ('w \<times> call list, 'a) state" where
  "silent m = State (\<lambda>(w, cs). case run_state m w of (a, w') \<Rightarrow> (a, (w', cs)))"

lemma run_recorded [simp, run_simps]:
  "run_state (recorded c m) wc =
   (case run_state m (fst wc) of (a, w') \<Rightarrow> (a, (w', snd wc @ [c])))"
  by (simp add: recorded_def split: prod.split)

lemma run_silent [simp, run_simps]:
  "run_state (silent m) wc = (case run_state m (fst wc) of (a, w') \<Rightarrow> (a, (w', snd wc)))"
  by (simp add: silent_def split: prod.split)

definition traced :: "'w runtime \<Rightarrow> ('w \<times> call list) runtime" where
  "traced K =
     \<lparr>ContainsFinalizer = ContainsFinalizer K, AddFinalizer = AddFinalizer K,
      RemoveFinalizer = RemoveFinalizer K,
      Now = silent (Now K),
      Get_Investigation = (\<lambda>k. recorded (GetInvestigation k) (Get_Investigation K k)),
      Create_Investigation = (\<lambda>iv. recorded (CreateInvestigation iv) (Create_Investigation K iv)),
      Update_Investigation = (\<lambda>iv. recorded (UpdateInvestigation iv) (Update_Investigation K iv)),
      StatusUpdate_Investigation =
        (\<lambda>iv. recorded (StatusUpdateInvestigation iv) (StatusUpdate_Investigation K iv)),
      Delete_Investigation = (\<lambda>iv. recorded (DeleteInvestigation iv) (Delete_Investigation K iv)),
      List_Investigations = recorded ListInvestigations (List_Investigations K),
      List_Configs = recorded ListConfigs (List_Configs K),
      Get_Pod = (\<lambda>k. recorded (GetPod k) (Get_Pod K k)),
      Update_Pod = (\<lambda>p. recorded (UpdatePod p) (Update_Pod K p)),
      List_Pods = (\<lambda>ns l. recorded (ListPods ns l) (List_Pods K ns l)),
      Get_ER = (\<lambda>k. recorded (GetER k) (Get_ER K k)),
      List_ERs = (\<lambda>ns. recorded (ListERs ns) (List_ERs K ns)),
      List_Events = (\<lambda>ns n. recorded (ListEvents ns n) (List_Events K ns n))\<rparr>"

lemma traced_simps [simp, run_simps]:
  "ContainsFinalizer (traced K) = ContainsFinalizer K"
  "AddFinalizer (traced K) = AddFinalizer K"
  "RemoveFinalizer (traced K) = RemoveFinalizer K"
  "Now (traced K) = silent (Now K)"
  "Get_Investigation (traced K) k = recorded (GetInvestigation k) (Get_Investigation K k)"
  "Create_Investigation (traced K) iv = recorded (CreateInvestigation iv) (Create_Investigation K iv)"
  "Update_Investigation (traced K) iv = recorded (UpdateInvestigation iv) (Update_Investigation K iv)"
  "StatusUpdate_Investigation (traced K) iv =
     recorded (StatusUpdateInvestigation iv) (StatusUpdate_Investigation K iv)"
  "Delete_Investigation (traced K) iv = recorded (DeleteInvestigation iv) (Delete_Investigation K iv)"
  "List_Investigations (traced K) = recorded ListInvestigations (List_Investigations K)"
  "List_Configs (traced K) = recorded ListConfigs (List_Configs K)"
  "Get_Pod (traced K) k = recorded (GetPod k) (Get_Pod K k)"
  "Update_Pod (traced K) p = recorded (UpdatePod p) (Update_Pod K p)"
  "List_Pods (traced K) ns l = recorded (ListPods ns l) (List_Pods K ns l)"
  "Get_ER (traced K) k = recorded (GetER k) (Get_ER K k)"
  "List_ERs (traced K) ns = recorded (ListERs ns) (List_ERs K ns)"
  "List_Events (traced K) ns n = recorded (ListEvents ns n) (List_Events K ns n)"
  by (simp_all add: traced_def)

text \<open>The same for the GitHub client.\<close>

definition traced_client :: "'w GHClient \<Rightarrow> ('w \<times> call list) GHClient" where
  "traced_client g =
     \<lparr>gh_ListWorkflowRuns = (\<lambda>o' n opts. recorded (GHListRuns o' n opts) (gh_ListWorkflowRuns g o' n opts)),
      gh_ListJobsForRun = (\<lambda>o' n i. recorded (GHListJobs o' n i) (gh_ListJobsForRun g o' n i)),
      gh_GetJob = (\<lambda>o' n i. recorded (GHGetJob o' n i) (gh_GetJob g o' n i)),
      gh_IsRateLimited = recorded GHIsRateLimited (gh_IsRateLimited g)\<rparr>"

lemma traced_client_simps [simp, run_simps]:
  "gh_ListWorkflowRuns (traced_client g) o' n opts =
     recorded (GHListRuns o' n opts) (gh_ListWorkflowRuns g o' n opts)"
  "gh_ListJobsForRun (traced_client g) o' n i = recorded (GHListJobs o' n i) (gh_ListJobsForRun g o' n i)"
  "gh_GetJob (traced_client g) o' n i = recorded (GHGetJob o' n i) (gh_GetJob g o' n i)"
  "gh_IsRateLimited (traced_client g) = recorded GHIsRateLimited (gh_IsRateLimited g)"
  by (simp_all add: traced_client_def)

text \<open>The same for the log storage, where only the deletions are recorded.\<close>

definition traced_storage :: "'w Storage \<Rightarrow> ('w \<times> call list) Storage" where
  "traced_storage st =
     \<lparr>st_Write = (\<lambda>p d. silent (st_Write st p d)), st_Read = (\<lambda>p. silent (st_Read st p)),
      st_Delete = (\<lambda>p. recorded (DeleteLog p) (st_Delete st p)),
      st_ListPrefix = (\<lambda>p. silent (st_ListPrefix st p)), st_UsageBytes = silent (st_UsageBytes st),
      st_disk = map_option silent (st_disk st)\<rparr>"

lemma traced_storage_simps [simp, run_simps]:
  "st_Write (traced_storage st) p d = silent (st_Write st p d)"
  "st_Read (traced_storage st) p = silent (st_Read st p)"
  "st_Delete (traced_storage st) p = recorded (DeleteLog p) (st_Delete st p)"
  "st_ListPrefix (traced_storage st) p = silent (st_ListPrefix st p)"
  "st_UsageBytes (traced_storage st) = silent (st_UsageBytes st)"
  "st_disk (traced_storage st) = map_option silent (st_disk st)"
  by (simp_all add: traced_storage_def)

section \<open>What a piece of code may call\<close>

text \<open>\<open>tr\<close> reads the list of calls from the state the code runs on.\<close>

definition appends :: "('s \<Rightarrow> call list) \<Rightarrow> (call \<Rightarrow> bool) \<Rightarrow> 's \<Rightarrow> 's \<Rightarrow> bool" where
  "appends tr P s s' \<longleftrightarrow> (\<exists>new. tr s' = tr s @ new \<and> (\<forall>c \<in> set new. P c))"

interpretation calls: step_closed "appends tr P" for tr :: "'s \<Rightarrow> call list" and P
proof
  fix s t u
  show "appends tr P s s" by (auto simp: appends_def)
  show "appends tr P s t \<Longrightarrow> appends tr P t u \<Longrightarrow> appends tr P s u"
    by (force simp: appends_def)
qed

text \<open>The state of a controller that shares the counter: the calls are beside the world.\<close>

abbreviation proc_calls :: "('c, 't, 'w \<times> call list) proc \<Rightarrow> call list" where
  "proc_calls \<equiv> (\<lambda>p. snd (world p))"

lemma io_recorded: "P c \<Longrightarrow> state_io_rel (appends snd P) (recorded c m)"
  by (auto simp: state_io_rel_def appends_def split: prod.split)

lemma io_silent: "state_io_rel (appends snd P) (silent m)"
  by (auto simp: state_io_rel_def appends_def split: prod.split)

lemma io_outside:
  fixes m :: "('w \<times> call list, 'a) state"
  assumes "state_io_rel (appends snd P) m"
  shows "state_io_rel (appends proc_calls P) (outside m)"
proof (unfold state_io_rel_def, rule allI, goal_cases)
  case (1 p)
  from state_io_rel_run [OF assms, of "world p"]
  show ?case
    by (cases "run_state m (world p)") (auto simp: appends_def)
qed

lemma io_modify_same:
  "(\<And>s. tr (f s) = tr s) \<Longrightarrow> state_io_rel (appends tr P) (modify f)"
  by (auto simp: state_io_rel_def appends_def)

lemmas call_rules = calls.io_rules io_recorded io_silent io_outside io_modify_same

lemma appendsD:
  assumes "state_io_rel (appends tr P) m" and "run_state m s = (a, s')"
  obtains new where "tr s' = tr s @ new" and "\<forall>c \<in> set new. P c"
  using state_io_rel_run [OF assms(1), of s] assms(2) by (auto simp: appends_def)

section \<open>What a piece of code does call\<close>

abbreviation grows :: "('s \<Rightarrow> call list) \<Rightarrow> ('s, 'a) state \<Rightarrow> bool" where
  "grows tr m \<equiv> state_io_rel (appends tr (\<lambda>c. True)) m"

definition makes :: "('s \<Rightarrow> call list) \<Rightarrow> call \<Rightarrow> ('s, 'a) state \<Rightarrow> bool" where
  "makes tr c m \<longleftrightarrow> (\<forall>s. c \<in> set (tr (snd (run_state m s))))"

lemma makes_bind_left:
  assumes "makes tr c m" and "\<And>a. grows tr (f a)"
  shows "makes tr c (State_Monad.bind m f)"
  unfolding makes_def
proof
  fix s
  obtain a s' where m: "run_state m s = (a, s')" by (meson surj_pair)
  with assms(1) have "c \<in> set (tr s')" unfolding makes_def by (metis snd_conv)
  with state_io_rel_run [OF assms(2) [of a], of s'] m
  show "c \<in> set (tr (snd (run_state (State_Monad.bind m f) s)))" by (auto simp: appends_def)
qed

lemma makes_bind_right: "(\<And>a. makes tr c (f a)) \<Longrightarrow> makes tr c (State_Monad.bind m f)"
  by (simp add: makes_def split: prod.split)

lemma makes_for_each:
  assumes "x \<in> set xs" and "makes tr c (f x)" and "\<And>x. grows tr (f x)"
  shows "makes tr c (for_each f xs)"
  using assms(1)
proof (induction xs)
  case Nil
  then show ?case by simp
next
  case (Cons y ys)
  show ?case
  proof (cases "x = y")
    case True
    then show ?thesis
      using assms by (auto intro!: makes_bind_left calls.io_for_each)
  next
    case False
    with Cons show ?thesis by (auto intro: makes_bind_right)
  qed
qed

lemma makes_outside: "makes proc_calls c (outside (recorded c m))"
  by (simp add: makes_def split: prod.split)

end
