(* ===== verification/Counter.thy ===== *)
theory Counter
  imports Prelude
begin

text \<open>
  \<open>internal/controller/investigation_counter.go\<close>: the counter the controllers share, which
  bounds the number of Investigations. The locale \<open>admission\<close> is its contract as the
  controllers use it: a place is granted exactly below the limit, and giving one back never
  takes the count below zero. The interpretation proves it for the code's counter.
\<close>

section \<open>The counter\<close>

record InvestigationCounter =
  ic_count :: int
  ic_max :: int

definition DefaultMaxInvestigations :: int where
  "DefaultMaxInvestigations = 100"

definition NewInvestigationCounter :: "int \<Rightarrow> fault + InvestigationCounter" where
  "NewInvestigationCounter mx =
     (if mx = 0 then Inl (Panic ''maxInvestigations must be > 0'')
      else Inr \<lparr>ic_count = 0, ic_max = mx\<rparr>)"

definition Init :: "int \<Rightarrow> InvestigationCounter \<Rightarrow> InvestigationCounter" where
  "Init count c = c\<lparr>ic_count := count\<rparr>"

definition TryIncrement :: "InvestigationCounter \<Rightarrow> bool \<times> InvestigationCounter" where
  "TryIncrement c =
     (if ic_count c \<ge> ic_max c then (False, c)
      else (True, c\<lparr>ic_count := wrap64 (ic_count c + 1)\<rparr>))"

definition Decrement :: "int \<Rightarrow> InvestigationCounter \<Rightarrow> InvestigationCounter" where
  "Decrement n c =
     (let c1 = c\<lparr>ic_count := wrap64 (ic_count c - n)\<rparr>
      in if ic_count c1 < 0 then c1\<lparr>ic_count := 0\<rparr> else c1)"

definition Count :: "InvestigationCounter \<Rightarrow> int" where
  "Count c = ic_count c"

text \<open>The methods as operations of a controller on the counter it shares.\<close>

definition counter_TryIncrement :: "((InvestigationCounter, 't, 'w) proc, bool) state" where
  "counter_TryIncrement =
     State (\<lambda>p. case TryIncrement (counter p) of (b, c) \<Rightarrow> (b, p\<lparr>counter := c\<rparr>))"

definition counter_Decrement :: "int \<Rightarrow> ((InvestigationCounter, 't, 'w) proc, unit) state" where
  "counter_Decrement n = modify (\<lambda>p. p\<lparr>counter := Decrement n (counter p)\<rparr>)"

lemma run_counter_TryIncrement [simp, run_simps]:
  "run_state counter_TryIncrement p =
   (case TryIncrement (counter p) of (b, c) \<Rightarrow> (b, p\<lparr>counter := c\<rparr>))"
  by (simp add: counter_TryIncrement_def)

lemma run_counter_Decrement [simp, run_simps]:
  "run_state (counter_Decrement n) p = ((), p\<lparr>counter := Decrement n (counter p)\<rparr>)"
  by (simp add: counter_Decrement_def)

section \<open>The contract\<close>

text \<open>
  \<open>ok\<close> is the invariant of the counter, \<open>used\<close> and \<open>limit\<close> are what its clients know of it.
\<close>

locale admission =
  fixes ok :: "'c \<Rightarrow> bool"
    and request :: "'c \<Rightarrow> bool \<times> 'c"
    and release :: "'c \<Rightarrow> 'c"
    and used :: "'c \<Rightarrow> int"
    and limit :: "'c \<Rightarrow> int"
  assumes ok_try: "ok c \<Longrightarrow> ok (snd (request c))"
    and ok_release: "ok c \<Longrightarrow> ok (release c)"
    and used_nonneg: "ok c \<Longrightarrow> 0 \<le> used c"
    and try_iff: "ok c \<Longrightarrow> fst (request c) \<longleftrightarrow> used c < limit c"
    and try_granted: "ok c \<Longrightarrow> used c < limit c \<Longrightarrow> used (snd (request c)) = used c + 1"
    and try_refused: "ok c \<Longrightarrow> \<not> used c < limit c \<Longrightarrow> snd (request c) = c"
    and release_used: "ok c \<Longrightarrow> used (release c) = max 0 (used c - 1)"
    and limit_try: "limit (snd (request c)) = limit c"
    and limit_release: "limit (release c) = limit c"
begin

text \<open>What one call does to the number in use, and that giving back undoes taking.\<close>

lemma used_try: "ok c \<Longrightarrow> used (snd (request c)) = (if used c < limit c then used c + 1 else used c)"
  using try_granted [of c] try_refused [of c] by (cases "used c < limit c") simp_all

lemma release_try:
  "ok c \<Longrightarrow> fst (request c) \<Longrightarrow> used (release (snd (request c))) = used c"
  using ok_try [of c] used_nonneg [of c] by (simp add: try_iff release_used used_try)

text \<open>
  The clients' invariant: however requests and releases follow each other, the number in use
  stays below the limit, or below where it started when that was above the limit already.
\<close>

definition within :: "int \<Rightarrow> 'c \<Rightarrow> bool" where
  "within b c \<longleftrightarrow> ok c \<and> used c \<le> max b (limit c)"

lemma within_try: "within b c \<Longrightarrow> within b (snd (request c))"
  by (auto simp: within_def ok_try limit_try used_try)

lemma within_release: "within b c \<Longrightarrow> within b (release c)"
  using used_nonneg [of c] by (auto simp: within_def ok_release limit_release release_used)

lemma within_start: "ok c \<Longrightarrow> within (used c) c"
  by (simp add: within_def)

end

section \<open>The counter meets the contract\<close>

text \<open>
  The invariant of the counter: both fields are 64-bit values and the count is not negative.
  \<open>Init\<close> is called with the length of a list, so it establishes the second part.
\<close>

definition counter_ok :: "InvestigationCounter \<Rightarrow> bool" where
  "counter_ok c \<longleftrightarrow> is_int64 (ic_count c) \<and> is_int64 (ic_max c) \<and> 0 \<le> ic_count c"

lemma counter_ok_new:
  "is_int64 mx \<Longrightarrow> NewInvestigationCounter mx = Inr c \<Longrightarrow> counter_ok c"
  by (auto simp: NewInvestigationCounter_def counter_ok_def is_int64_def split: if_splits)

lemma counter_ok_Init: "counter_ok c \<Longrightarrow> is_int64 n \<Longrightarrow> 0 \<le> n \<Longrightarrow> counter_ok (Init n c)"
  by (simp add: counter_ok_def Init_def)

lemma ic_max_TryIncrement [simp]: "ic_max (snd (TryIncrement c)) = ic_max c"
  by (simp add: TryIncrement_def)

lemma ic_max_Decrement [simp]: "ic_max (Decrement n c) = ic_max c"
  by (simp add: Decrement_def Let_def)

text \<open>Below the maximum the increment does not overflow.\<close>

lemma succ_count_int64:
  assumes "counter_ok c" and "ic_count c < ic_max c"
  shows "is_int64 (ic_count c + 1)"
  using assms by (simp add: counter_ok_def is_int64_def)

lemma TryIncrement_fst: "fst (TryIncrement c) \<longleftrightarrow> ic_count c < ic_max c"
  by (simp add: TryIncrement_def)

lemma TryIncrement_count:
  assumes "counter_ok c"
  shows "ic_count (snd (TryIncrement c)) =
         (if ic_count c < ic_max c then ic_count c + 1 else ic_count c)"
  using succ_count_int64 [OF assms] by (auto simp: TryIncrement_def)

lemma Decrement_count:
  assumes "counter_ok c" and "0 \<le> n" and "is_int64 n"
  shows "ic_count (Decrement n c) = max 0 (ic_count c - n)"
proof -
  have "is_int64 (ic_count c - n)"
    using assms by (simp add: counter_ok_def is_int64_def)
  then show ?thesis by (simp add: Decrement_def Let_def)
qed

lemma counter_ok_TryIncrement: "counter_ok c \<Longrightarrow> counter_ok (snd (TryIncrement c))"
  using succ_count_int64 [of c] by (auto simp: counter_ok_def TryIncrement_def)

lemma counter_ok_Decrement: "counter_ok c \<Longrightarrow> counter_ok (Decrement n c)"
  by (simp add: counter_ok_def Decrement_def Let_def is_int64_def [of 0])

lemma one_int64 [simp]: "is_int64 1"
  by (simp add: is_int64_def)

interpretation ic: admission counter_ok TryIncrement "Decrement 1" Count ic_max
proof unfold_locales
  fix c
  assume ok: "counter_ok c"
  show "counter_ok (snd (TryIncrement c))" by (rule counter_ok_TryIncrement [OF ok])
  show "counter_ok (Decrement 1 c)" by (rule counter_ok_Decrement [OF ok])
  show "0 \<le> Count c" using ok by (simp add: Count_def counter_ok_def)
  show "fst (TryIncrement c) \<longleftrightarrow> Count c < ic_max c" by (simp add: TryIncrement_fst Count_def)
  show "Count c < ic_max c \<Longrightarrow> Count (snd (TryIncrement c)) = Count c + 1"
    by (simp add: TryIncrement_count [OF ok] Count_def)
  show "\<not> Count c < ic_max c \<Longrightarrow> snd (TryIncrement c) = c"
    by (simp add: TryIncrement_def Count_def)
  show "Count (Decrement 1 c) = max 0 (Count c - 1)"
    by (simp add: Decrement_count [OF ok] Count_def)
next
  fix c
  show "ic_max (snd (TryIncrement c)) = ic_max c" by simp
  show "ic_max (Decrement 1 c) = ic_max c" by simp
qed

section \<open>Properties\<close>

text \<open>
  A use of the counter is a sequence of calls, from any of the controllers, in any order: the
  mutex makes each call one step.
\<close>

datatype counter_call = CTry | CDecrement

fun counter_run :: "counter_call list \<Rightarrow> InvestigationCounter \<Rightarrow> InvestigationCounter" where
  "counter_run [] c = c"
| "counter_run (CTry # ops) c = counter_run ops (snd (TryIncrement c))"
| "counter_run (CDecrement # ops) c = counter_run ops (Decrement 1 c)"

lemma counter_run_within: "ic.within b c \<Longrightarrow> ic.within b (counter_run ops c)"
proof (induction ops arbitrary: c)
  case Nil
  then show ?case by simp
next
  case (Cons op ops)
  then show ?case
    by (cases op) (simp_all add: ic.within_try ic.within_release)
qed

lemma ic_max_counter_run: "ic_max (counter_run ops c) = ic_max c"
  by (induction ops c rule: counter_run.induct) simp_all

text \<open>C15: whatever the controllers do with the counter, in any order, the count never exceeds the
  configured maximum (or the number of Investigations found at startup, where that was larger), it
  never becomes negative, it does not overflow, and the maximum itself stays as configured.\<close>

theorem counter_never_exceeds_max:
  assumes "NewInvestigationCounter mx = Inr c0" and "is_int64 mx" and "is_int64 n" and "0 \<le> n"
  shows "let c = counter_run ops (Init n c0)
         in 0 \<le> Count c \<and> Count c \<le> max n mx \<and> ic_max c = mx"
proof -
  have c0: "ic_max c0 = mx" using assms(1) by (auto simp: NewInvestigationCounter_def split: if_splits)
  have ok: "counter_ok (Init n c0)"
    using assms by (auto intro: counter_ok_Init counter_ok_new)
  have "ic.within n (counter_run ops (Init n c0))"
    using ic.within_start [OF ok] by (intro counter_run_within) (simp add: Count_def Init_def)
  moreover have "ic_max (counter_run ops (Init n c0)) = mx"
    by (simp add: ic_max_counter_run Init_def c0)
  ultimately show ?thesis
    by (auto simp: ic.within_def Let_def dest: ic.used_nonneg)
qed

theorem counter_never_exceeds_max_witness:
  "let c = counter_run [CTry, CTry, CDecrement, CTry, CTry, CTry] (Init 1 \<lparr>ic_count = 0, ic_max = 3\<rparr>)
   in 0 \<le> Count c \<and> Count c \<le> max 1 3 \<and> ic_max c = 3"
  by (rule counter_never_exceeds_max)
    (simp_all add: NewInvestigationCounter_def is_int64_def)

text \<open>C29: a negative maximum passes the check of the constructor, which refuses 0 only; a counter
  built with it grants nothing, whatever happens, so no Investigation is ever created.\<close>

theorem negative_max_refuses_everything:
  assumes "mx < 0" and "is_int64 mx" and "is_int64 n" and "0 \<le> n"
  shows "\<exists>c0. NewInvestigationCounter mx = Inr c0 \<and>
              \<not> fst (TryIncrement (counter_run ops (Init n c0)))"
proof -
  let ?c0 = "\<lparr>ic_count = 0, ic_max = mx\<rparr>"
  have new: "NewInvestigationCounter mx = Inr ?c0"
    using assms(1) by (simp add: NewInvestigationCounter_def)
  have "ic.within n (Init n ?c0)"
    using ic.within_start [of "Init n ?c0"] counter_ok_Init [OF counter_ok_new [OF assms(2) new]] assms
    by (simp add: Count_def Init_def)
  then have "ic.within n (counter_run ops (Init n ?c0))" by (rule counter_run_within)
  then have "0 \<le> Count (counter_run ops (Init n ?c0))"
    by (auto simp: ic.within_def dest: ic.used_nonneg)
  moreover have "ic_max (counter_run ops (Init n ?c0)) = mx"
    by (simp add: ic_max_counter_run Init_def)
  ultimately have "\<not> fst (TryIncrement (counter_run ops (Init n ?c0)))"
    using assms(1) by (simp add: TryIncrement_fst Count_def)
  with new show ?thesis by blast
qed

theorem negative_max_refuses_everything_witness:
  "\<exists>c0. NewInvestigationCounter (- 1) = Inr c0 \<and>
        \<not> fst (TryIncrement (counter_run [CDecrement, CTry] (Init 0 c0)))"
  by (rule negative_max_refuses_everything) (simp_all add: is_int64_def)

end
