(* ===== verification/Submit.thy ===== *)
theory Submit
  imports Trace Counter
begin

text \<open>
  The last steps of opening an Investigation, which the pod watcher, the runner watcher and the GitHub
  poller end with: the Create, the return of the place in the counter where it fails, and the second
  call that sets the phase.
\<close>

text \<open>
  The end of every operation that opens an Investigation, the same in the three controllers: the
  place taken from the counter is given back when the Create fails; the phase is written by a
  second call, since the status is a subresource.
\<close>

definition submit ::
  "'w runtime \<Rightarrow> Investigation \<Rightarrow> ((InvestigationCounter, 't, 'w) proc, go_error option) state" where
  "submit K iv = do {
     r \<leftarrow> outside (Create_Investigation K iv);
     (case r of
        Inl e \<Rightarrow> do { counter_Decrement 1; ret (Some e) }
      | Inr created \<Rightarrow> do {
          r' \<leftarrow> outside (StatusUpdate_Investigation K (set_phase phaseCollecting created));
          ret (error_of r')
        })
   }"

section \<open>Steps within a handler\<close>

text \<open>
  A step that leaves the private fields \<open>h\<close> alone and makes only calls that satisfy \<open>P\<close>. Reading the
  private fields gives \<open>h\<close>, so \<open>P\<close> may speak of them.
\<close>

definition steady ::
  "'t \<Rightarrow> (call \<Rightarrow> bool) \<Rightarrow> ('c, 't, 'w \<times> call list) proc \<Rightarrow> ('c, 't, 'w \<times> call list) proc \<Rightarrow> bool" where
  "steady h P p p' \<longleftrightarrow>
     (own p = h \<longrightarrow> own p' = h \<and>
       (\<exists>new. proc_calls p' = proc_calls p @ new \<and> (\<forall>c \<in> set new. P c)))"

interpretation steady: step_closed "steady h P" for h P
  by unfold_locales (force simp: steady_def)+

lemma steady_call: "P c \<Longrightarrow> state_io_rel (steady h P) (outside (recorded c m))"
  by (auto simp: state_io_rel_def steady_def split: prod.split)

lemma steady_silent: "state_io_rel (steady h P) (outside (silent m))"
  by (auto simp: state_io_rel_def steady_def split: prod.split)

lemma steady_counter:
  "state_io_rel (steady h P) counter_TryIncrement"
  "state_io_rel (steady h P) (counter_Decrement n)"
  by (auto simp: state_io_rel_def steady_def split: prod.split)

lemma steady_own:
  "state_io_rel (steady h P) (f h) \<Longrightarrow> state_io_rel (steady h P) (State_Monad.bind (gets own) f)"
  by (auto simp: state_io_rel_def steady_def)

lemmas steady_rules =
  steady_own steady.io_return steady.io_bind steady.io_if steady.io_sum steady.io_option
  steady_call steady_silent steady_counter

lemma steady_submit:
  assumes "P (CreateInvestigation iv)"
    and "\<And>iv'. phase_of iv' = phaseCollecting \<Longrightarrow> P (StatusUpdateInvestigation iv')"
  shows "state_io_rel (steady h P) (submit (traced K) iv)"
  using assms unfolding submit_def traced_simps by (intro steady_rules) auto

end
