(* ===== verification/Tracker.thy ===== *)
theory Tracker
  imports Types
begin

text \<open>
  The pod watcher and the runner watcher both keep, per object, the last phase they saw and the
  list of its changes, and update them in a \<open>recordTransition\<close>; \<open>tracks\<close> says which phases count. The locale \<open>transition_log\<close> is
  what the two have in common; its lemmas say that the list is a connected history of the object.
\<close>

section \<open>Histories\<close>

text \<open>
  \<open>linked a ts b\<close>: the transitions lead from phase \<open>a\<close> to phase \<open>b\<close>, each one starting where
  the one before ended and none of them staying where it was.
\<close>

fun linked :: "string \<Rightarrow> StatusTransition list \<Rightarrow> string \<Rightarrow> bool" where
  "linked a [] b = (a = b)"
| "linked a (t # ts) b = (st_From t = a \<and> st_To t \<noteq> a \<and> linked (st_To t) ts b)"

lemma linked_snoc:
  "linked a (ts @ [t]) c \<longleftrightarrow> linked a ts (st_From t) \<and> st_To t \<noteq> st_From t \<and> st_To t = c"
  by (induction ts arbitrary: a) auto

definition times :: "StatusTransition list \<Rightarrow> time list" where
  "times ts = map st_Timestamp ts"

locale transition_log =
  fixes tracks :: "string \<Rightarrow> bool"
    and observe :: "string \<Rightarrow> time \<Rightarrow> 't \<Rightarrow> 't"
    and last_phase :: "'t \<Rightarrow> string"
    and log :: "'t \<Rightarrow> StatusTransition list"
    and start :: "'t"
  assumes start_phase: "last_phase start = []"
    and start_log: "log start = []"
    and observe_new: "tracks phase \<Longrightarrow> last_phase t \<noteq> phase \<Longrightarrow>
        last_phase (observe phase now t) = phase \<and>
        log (observe phase now t) =
          log t @ [\<lparr>st_From = last_phase t, st_To = phase, st_Timestamp = now\<rparr>]"
    and observe_same: "\<not> tracks phase \<or> last_phase t = phase \<Longrightarrow>
        last_phase (observe phase now t) = last_phase t \<and> log (observe phase now t) = log t"
begin

text \<open>A history is complete when it leads from the unknown phase to the last one seen.\<close>

definition complete :: "'t \<Rightarrow> bool" where
  "complete t \<longleftrightarrow> linked [] (log t) (last_phase t)"

lemma complete_start: "complete start"
  by (simp add: complete_def start_phase start_log)

lemma complete_observe: "complete t \<Longrightarrow> complete (observe phase now t)"
  using observe_new [of phase t now] observe_same [of phase t now]
  by (cases "\<not> tracks phase \<or> last_phase t = phase") (auto simp: complete_def linked_snoc)

lemma last_phase_observe: "tracks phase \<Longrightarrow> last_phase (observe phase now t) = phase"
  using observe_new [of phase t now] observe_same [of phase t now]
  by (cases "last_phase t = phase") auto

text \<open>With a clock that does not run backwards the time stamps are in order.\<close>

definition stamped :: "time \<Rightarrow> 't \<Rightarrow> bool" where
  "stamped now t \<longleftrightarrow> sorted (times (log t)) \<and> (\<forall>s \<in> set (times (log t)). s \<le> now)"

lemma stamped_start: "stamped now start"
  by (simp add: stamped_def start_log times_def)

lemma stamped_observe: "stamped now t \<Longrightarrow> now \<le> now' \<Longrightarrow> stamped now' (observe phase now' t)"
  using observe_new [of phase t now'] observe_same [of phase t now']
  by (cases "\<not> tracks phase \<or> last_phase t = phase")
    (force simp: stamped_def times_def sorted_append)+

text \<open>A whole run of observations, with their times.\<close>

lemma complete_fold: "complete t \<Longrightarrow> complete (fold (\<lambda>(phase, now). observe phase now) obs t)"
  by (induction obs arbitrary: t) (auto simp: complete_observe)

lemma stamped_fold:
  assumes "stamped now t" and "sorted (now # map snd obs)"
  shows "stamped (last (now # map snd obs)) (fold (\<lambda>(phase, now). observe phase now) obs t)"
  using assms
proof (induction obs arbitrary: now t)
  case Nil
  then show ?case by simp
next
  case (Cons ob obs)
  obtain phase now' where ob: "ob = (phase, now')" by (cases ob)
  from Cons.prems ob have "stamped now' (observe phase now' t)"
    by (intro stamped_observe [of now]) auto
  moreover from Cons.prems ob have "sorted (now' # map snd obs)" by simp
  ultimately show ?case using Cons.IH [of now' "observe phase now' t"] ob by simp
qed

end

end
