(* ===== verification/Classifier.thy ===== *)
theory Classifier
  imports Types "HOL-Library.Sublist"
begin

text \<open>
  \<open>internal/diagnosis\<close>: the ordered list \<open>KnownPatterns\<close> of failure patterns and
  \<open>Classify\<close>, which takes the first one that matches. \<open>diagnose\<close> is the abstract
  specification: which evidence stands for which failure, and which failure wins.
\<close>

section \<open>Patterns\<close>

record FailurePattern =
  fp_Type :: string
  fp_Description :: string
  fp_Match :: "InvestigationSpec \<Rightarrow> bool"
  fp_Remediation :: string

definition match_pod_oomkilled :: "InvestigationSpec \<Rightarrow> bool" where
  "match_pod_oomkilled sp =
     (case sp_Pod sp of
        None \<Rightarrow> False
      | Some pod \<Rightarrow>
          list_ex (\<lambda>cs. csi_OOMKilled cs \<or>
                        (csi_State cs = ''terminated'' \<and> csi_ExitCode cs = Some 137))
            (pi_ContainerStatuses pod))"

definition match_pod_crashed :: "InvestigationSpec \<Rightarrow> bool" where
  "match_pod_crashed sp =
     (case sp_Pod sp of
        None \<Rightarrow> False
      | Some pod \<Rightarrow>
          list_ex (\<lambda>cs. csi_State cs = ''terminated'' \<and>
                        (case csi_ExitCode cs of None \<Rightarrow> False | Some c \<Rightarrow> c \<noteq> 0) \<and>
                        \<not> csi_OOMKilled cs)
            (pi_ContainerStatuses pod))"

definition match_pod_stuck_terminating :: "InvestigationSpec \<Rightarrow> bool" where
  "match_pod_stuck_terminating sp =
     (case sp_Pod sp of None \<Rightarrow> False | Some pod \<Rightarrow> pi_Phase pod = ''Terminating'')"

definition match_pod_init_timeout :: "InvestigationSpec \<Rightarrow> bool" where
  "match_pod_init_timeout sp =
     (case sp_Pod sp of
        None \<Rightarrow> False
      | Some pod \<Rightarrow>
          if pi_Phase pod \<noteq> ''Pending'' \<and> pi_Phase pod \<noteq> ''Failed'' then False
          else list_ex (\<lambda>cs. csi_State cs = ''waiting'' \<and>
                             (csi_Reason cs = ''ImagePullBackOff'' \<or>
                              csi_Reason cs = ''ErrImagePull''))
                 (pi_ContainerStatuses pod))"

definition match_runner_stuck_running :: "InvestigationSpec \<Rightarrow> bool" where
  "match_runner_stuck_running sp =
     (case sp_EphemeralRunner sp of
        None \<Rightarrow> False
      | Some er \<Rightarrow>
          if er_Phase er \<noteq> ''Running'' then False
          else if (case sp_Job sp of None \<Rightarrow> False | Some j \<Rightarrow> ji_Status j = ''completed'') then True
          else if tr_Type (sp_Trigger sp) = ''runner-stuck'' then True
          else False)"

definition match_runner_stuck_failed :: "InvestigationSpec \<Rightarrow> bool" where
  "match_runner_stuck_failed sp =
     (case sp_EphemeralRunner sp of None \<Rightarrow> False | Some er \<Rightarrow> er_Phase er = ''Failed'')"

definition match_job_stuck_queued :: "InvestigationSpec \<Rightarrow> bool" where
  "match_job_stuck_queued sp =
     (case sp_Job sp of
        None \<Rightarrow> False
      | Some j \<Rightarrow> ji_Status j = ''queued'' \<and> sp_EphemeralRunner sp = None)"

definition KnownPatterns :: "FailurePattern list" where
  "KnownPatterns =
     [\<lparr>fp_Type = ''pod-oomkilled'', fp_Description = ''Runner pod OOMKilled'',
       fp_Match = match_pod_oomkilled,
       fp_Remediation = ''Increase memory limits on the runner pod template.''\<rparr>,
      \<lparr>fp_Type = ''pod-crashed'', fp_Description = ''Runner pod exited with non-zero exit code'',
       fp_Match = match_pod_crashed,
       fp_Remediation = ''Check collected logs for the crash reason. Common causes: broken entrypoint scripts, missing binaries in the runner image, or incompatible runner versions.''\<rparr>,
      \<lparr>fp_Type = ''pod-stuck-terminating'', fp_Description = ''Runner pod stuck Terminating'',
       fp_Match = match_pod_stuck_terminating,
       fp_Remediation = ''Force-delete the pod. Check node autoscaler configuration.''\<rparr>,
      \<lparr>fp_Type = ''pod-init-timeout'', fp_Description = ''Runner pod killed during init'',
       fp_Match = match_pod_init_timeout,
       fp_Remediation = ''Pre-pull runner images or use a registry mirror closer to the cluster.''\<rparr>,
      \<lparr>fp_Type = ''runner-stuck-running'',
       fp_Description = ''EphemeralRunner stuck in Running state'',
       fp_Match = match_runner_stuck_running,
       fp_Remediation = ''Delete the stuck EphemeralRunner manually. Check ARC controller logs.''\<rparr>,
      \<lparr>fp_Type = ''runner-stuck-failed'',
       fp_Description = ''EphemeralRunner stuck in Failed, not cleaned up'',
       fp_Match = match_runner_stuck_failed,
       fp_Remediation = ''Delete the stuck EphemeralRunner. This is a known ARC issue.''\<rparr>,
      \<lparr>fp_Type = ''job-stuck-queued'',
       fp_Description = ''GitHub job stuck queued with no viable runner'',
       fp_Match = match_job_stuck_queued,
       fp_Remediation = ''Check AutoScalingRunnerSet status and listener pod health.''\<rparr>]"

section \<open>Classify\<close>

definition buildSummary :: "InvestigationSpec \<Rightarrow> FailurePattern \<Rightarrow> string" where
  "buildSummary sp pattern =
     (let s0 = fp_Description pattern;
          s1 = (case sp_Pod sp of
                  None \<Rightarrow> s0
                | Some pod \<Rightarrow> s0 @ '' (pod '' @ pi_Namespace pod @ ''/'' @ pi_Name pod @ '')'');
          s2 = (case sp_EphemeralRunner sp of
                  None \<Rightarrow> s1
                | Some er \<Rightarrow> s1 @ '' (runner '' @ er_Namespace er @ ''/'' @ er_Name er @ '')'');
          s3 = (case sp_Job sp of
                  None \<Rightarrow> s2
                | Some j \<Rightarrow> s2 @ '' [job: '' @ ji_Name j @ '']'')
      in s3)"

fun classify_loop :: "InvestigationSpec \<Rightarrow> FailurePattern list \<Rightarrow> Diagnosis option" where
  "classify_loop sp [] = None"
| "classify_loop sp (pattern # ps) =
     (if fp_Match pattern sp then
        Some \<lparr>dg_FailureType = fp_Type pattern, dg_Summary = buildSummary sp pattern,
              dg_Remediation = fp_Remediation pattern\<rparr>
      else classify_loop sp ps)"

definition Classify :: "InvestigationSpec \<Rightarrow> Diagnosis option" where
  "Classify sp = classify_loop sp KnownPatterns"

lemmas match_defs =
  match_pod_oomkilled_def match_pod_crashed_def match_pod_stuck_terminating_def
  match_pod_init_timeout_def match_runner_stuck_running_def match_runner_stuck_failed_def
  match_job_stuck_queued_def

lemma classify_loop_Some:
  "classify_loop sp ps = Some d \<longleftrightarrow>
   (\<exists>i < length ps. fp_Match (ps ! i) sp \<and> (\<forall>j < i. \<not> fp_Match (ps ! j) sp) \<and>
      d = \<lparr>dg_FailureType = fp_Type (ps ! i), dg_Summary = buildSummary sp (ps ! i),
           dg_Remediation = fp_Remediation (ps ! i)\<rparr>)"
  by (induction ps) (auto simp: Ex_less_Suc2 All_less_Suc2)

lemma classify_loop_None: "classify_loop sp ps = None \<longleftrightarrow> (\<forall>p \<in> set ps. \<not> fp_Match p sp)"
  by (induction ps) auto

lemma classify_loop_find:
  "classify_loop sp ps =
   map_option (\<lambda>p. \<lparr>dg_FailureType = fp_Type p, dg_Summary = buildSummary sp p,
                     dg_Remediation = fp_Remediation p\<rparr>)
     (List.find (\<lambda>p. fp_Match p sp) ps)"
  by (induction ps) auto

section \<open>Specification\<close>

datatype failure =
    PodOOMKilled
  | PodCrashed
  | PodStuckTerminating
  | PodInitTimeout
  | RunnerStuckRunning
  | RunnerStuckFailed
  | JobStuckQueued

fun failure_type :: "failure \<Rightarrow> string" where
  "failure_type PodOOMKilled = ''pod-oomkilled''"
| "failure_type PodCrashed = ''pod-crashed''"
| "failure_type PodStuckTerminating = ''pod-stuck-terminating''"
| "failure_type PodInitTimeout = ''pod-init-timeout''"
| "failure_type RunnerStuckRunning = ''runner-stuck-running''"
| "failure_type RunnerStuckFailed = ''runner-stuck-failed''"
| "failure_type JobStuckQueued = ''job-stuck-queued''"

lemma failure_type_inject [simp]: "failure_type f = failure_type g \<longleftrightarrow> f = g"
  by (cases f; cases g) simp_all

text \<open>The evidence, as relations between a spec and what was observed.\<close>

definition exited :: "InvestigationSpec \<Rightarrow> int32 \<Rightarrow> ContainerStatusInfo \<Rightarrow> bool" where
  "exited sp c cs \<longleftrightarrow>
     (\<exists>pod. sp_Pod sp = Some pod \<and> cs \<in> set (pi_ContainerStatuses pod)) \<and>
     csi_State cs = ''terminated'' \<and> csi_ExitCode cs = Some c"

definition out_of_memory :: "InvestigationSpec \<Rightarrow> bool" where
  "out_of_memory sp \<longleftrightarrow>
     (\<exists>cs. exited sp 137 cs) \<or>
     (\<exists>pod. sp_Pod sp = Some pod \<and> (\<exists>cs \<in> set (pi_ContainerStatuses pod). csi_OOMKilled cs))"

definition crashed :: "InvestigationSpec \<Rightarrow> bool" where
  "crashed sp \<longleftrightarrow> (\<exists>c cs. exited sp c cs \<and> c \<noteq> 0)"

definition image_missing :: "InvestigationSpec \<Rightarrow> bool" where
  "image_missing sp \<longleftrightarrow>
     (\<exists>pod. sp_Pod sp = Some pod \<and>
        (\<exists>cs \<in> set (pi_ContainerStatuses pod). csi_State cs = ''waiting'' \<and>
           csi_Reason cs \<in> {''ImagePullBackOff'', ''ErrImagePull''}))"

definition pod_phase_is :: "InvestigationSpec \<Rightarrow> string \<Rightarrow> bool" where
  "pod_phase_is sp ph \<longleftrightarrow> (\<exists>pod. sp_Pod sp = Some pod \<and> pi_Phase pod = ph)"

definition runner_phase_is :: "InvestigationSpec \<Rightarrow> string \<Rightarrow> bool" where
  "runner_phase_is sp ph \<longleftrightarrow> (\<exists>er. sp_EphemeralRunner sp = Some er \<and> er_Phase er = ph)"

definition job_status_is :: "InvestigationSpec \<Rightarrow> string \<Rightarrow> bool" where
  "job_status_is sp st \<longleftrightarrow> (\<exists>j. sp_Job sp = Some j \<and> ji_Status j = st)"

lemmas evidence_defs =
  exited_def out_of_memory_def crashed_def image_missing_def pod_phase_is_def runner_phase_is_def
  job_status_is_def

definition diagnose :: "InvestigationSpec \<Rightarrow> failure option" where
  "diagnose sp =
     (if out_of_memory sp then Some PodOOMKilled
      else if crashed sp then Some PodCrashed
      else if pod_phase_is sp ''Terminating'' then Some PodStuckTerminating
      else if (pod_phase_is sp ''Pending'' \<or> pod_phase_is sp ''Failed'') \<and> image_missing sp
        then Some PodInitTimeout
      else if runner_phase_is sp ''Running'' \<and>
              (job_status_is sp ''completed'' \<or> tr_Type (sp_Trigger sp) = ''runner-stuck'')
        then Some RunnerStuckRunning
      else if runner_phase_is sp ''Failed'' then Some RunnerStuckFailed
      else if job_status_is sp ''queued'' \<and> sp_EphemeralRunner sp = None then Some JobStuckQueued
      else None)"

lemma match_oomkilled_iff: "match_pod_oomkilled sp = out_of_memory sp"
  by (auto simp: match_pod_oomkilled_def evidence_defs list_ex_iff split: option.splits)

text \<open>
  The pattern \<open>pod-crashed\<close> also asks that the container was not killed for memory; once
  \<open>pod-oomkilled\<close> has not matched, that is so for every container.
\<close>

lemma match_crashed_iff:
  "\<not> out_of_memory sp \<Longrightarrow> match_pod_crashed sp = crashed sp"
  by (fastforce simp: match_pod_crashed_def evidence_defs list_ex_iff split: option.splits)

lemma match_init_timeout_iff:
  "match_pod_init_timeout sp =
   ((pod_phase_is sp ''Pending'' \<or> pod_phase_is sp ''Failed'') \<and> image_missing sp)"
  by (auto simp: match_pod_init_timeout_def evidence_defs list_ex_iff split: option.splits)

lemma match_stuck_iff:
  "match_pod_stuck_terminating sp = pod_phase_is sp ''Terminating''"
  "match_runner_stuck_running sp =
   (runner_phase_is sp ''Running'' \<and>
    (job_status_is sp ''completed'' \<or> tr_Type (sp_Trigger sp) = ''runner-stuck''))"
  "match_runner_stuck_failed sp = runner_phase_is sp ''Failed''"
  "match_job_stuck_queued sp = (job_status_is sp ''queued'' \<and> sp_EphemeralRunner sp = None)"
  by (auto simp: match_defs evidence_defs split: option.splits)

lemmas match_iffs = match_oomkilled_iff match_crashed_iff match_init_timeout_iff match_stuck_iff

text \<open>The pattern that stands for a failure, by its place in \<open>KnownPatterns\<close>.\<close>

fun pattern_index :: "failure \<Rightarrow> nat" where
  "pattern_index PodOOMKilled = 0"
| "pattern_index PodCrashed = 1"
| "pattern_index PodStuckTerminating = 2"
| "pattern_index PodInitTimeout = 3"
| "pattern_index RunnerStuckRunning = 4"
| "pattern_index RunnerStuckFailed = 5"
| "pattern_index JobStuckQueued = 6"

text \<open>The failures in the order in which the patterns are tried.\<close>

instantiation failure :: linorder
begin

definition less_eq_failure :: "failure \<Rightarrow> failure \<Rightarrow> bool" where
  "f \<le> g \<longleftrightarrow> pattern_index f \<le> pattern_index g"

definition less_failure :: "failure \<Rightarrow> failure \<Rightarrow> bool" where
  "f < g \<longleftrightarrow> pattern_index f < pattern_index g"

instance
proof
  fix f g :: failure
  show "f \<le> g \<Longrightarrow> g \<le> f \<Longrightarrow> f = g" by (cases f; cases g) (simp_all add: less_eq_failure_def)
qed (auto simp: less_eq_failure_def less_failure_def)

end

text \<open>The evidence for each failure on its own, whatever else the spec shows.\<close>

fun indicates :: "InvestigationSpec \<Rightarrow> failure \<Rightarrow> bool" where
  "indicates sp PodOOMKilled = out_of_memory sp"
| "indicates sp PodCrashed = crashed sp"
| "indicates sp PodStuckTerminating = pod_phase_is sp ''Terminating''"
| "indicates sp PodInitTimeout =
     ((pod_phase_is sp ''Pending'' \<or> pod_phase_is sp ''Failed'') \<and> image_missing sp)"
| "indicates sp RunnerStuckRunning = (runner_phase_is sp ''Running'' \<and>
     (job_status_is sp ''completed'' \<or> tr_Type (sp_Trigger sp) = ''runner-stuck''))"
| "indicates sp RunnerStuckFailed = runner_phase_is sp ''Failed''"
| "indicates sp JobStuckQueued = (job_status_is sp ''queued'' \<and> sp_EphemeralRunner sp = None)"

lemma diagnose_None: "diagnose sp = None \<Longrightarrow> \<not> indicates sp f"
  by (cases f) (auto simp: diagnose_def split: if_splits)

lemma diagnose_Some: "diagnose sp = Some f \<Longrightarrow> indicates sp f"
  by (auto simp: diagnose_def split: if_splits)

lemma diagnose_first: "diagnose sp = Some f \<Longrightarrow> indicates sp g \<Longrightarrow> f \<le> g"
  by (cases g) (auto simp: diagnose_def less_eq_failure_def split: if_splits)

lemma diagnose_least:
  "diagnose sp = (if \<exists>f. indicates sp f then Some (LEAST f. indicates sp f) else None)"
proof (cases "diagnose sp")
  case None
  then show ?thesis using diagnose_None by simp
next
  case (Some f)
  then have "(LEAST f. indicates sp f) = f"
    by (intro Least_equality diagnose_Some) (auto dest: diagnose_first)
  with Some show ?thesis using diagnose_Some by auto
qed

definition pattern_of :: "failure \<Rightarrow> FailurePattern" where
  "pattern_of f = KnownPatterns ! pattern_index f"

lemma pattern_of_type [simp]: "fp_Type (pattern_of f) = failure_type f"
  by (cases f) (simp_all add: pattern_of_def KnownPatterns_def)

lemma find_pattern:
  "List.find (\<lambda>p. fp_Match p sp) KnownPatterns = map_option pattern_of (diagnose sp)"
proof (cases "out_of_memory sp")
  case True
  then show ?thesis by (simp add: KnownPatterns_def pattern_of_def diagnose_def match_iffs)
next
  case False
  then show ?thesis by (auto simp: KnownPatterns_def pattern_of_def diagnose_def match_iffs)
qed

text \<open>The diagnosis that reports a failure.\<close>

definition report :: "InvestigationSpec \<Rightarrow> failure \<Rightarrow> Diagnosis" where
  "report sp f =
     \<lparr>dg_FailureType = failure_type f, dg_Summary = buildSummary sp (pattern_of f),
      dg_Remediation = fp_Remediation (pattern_of f)\<rparr>"

lemma Classify_report: "Classify sp = map_option (report sp) (diagnose sp)"
  by (simp add: Classify_def classify_loop_find find_pattern option.map_comp comp_def
      report_def [abs_def])

text \<open>The summary in the order in which it is put together.\<close>

lemma buildSummary_parts:
  "buildSummary sp p =
     fp_Description p @
     (case sp_Pod sp of None \<Rightarrow> []
      | Some pod \<Rightarrow> '' '' @ (''(pod '' @ pi_Namespace pod @ ''/'' @ pi_Name pod @ '')'')) @
     (case sp_EphemeralRunner sp of None \<Rightarrow> []
      | Some er \<Rightarrow> '' '' @ (''(runner '' @ er_Namespace er @ ''/'' @ er_Name er @ '')'')) @
     (case sp_Job sp of None \<Rightarrow> [] | Some j \<Rightarrow> '' '' @ (''[job: '' @ ji_Name j @ '']''))"
  by (simp add: buildSummary_def split: option.split)

lemma sublist_app:
  "sublist xs ys \<Longrightarrow> sublist xs (ys @ zs)"
  "sublist xs zs \<Longrightarrow> sublist xs (ys @ zs)"
  by (auto simp: sublist_append)

text \<open>\<open>Classify\<close> reads the trigger's type, the pod, the runner and the job only.\<close>

lemma match_cong:
  assumes "p \<in> set KnownPatterns" and "sp_Trigger sp = sp_Trigger sp'" and "sp_Pod sp = sp_Pod sp'"
    and "sp_EphemeralRunner sp = sp_EphemeralRunner sp'" and "sp_Job sp = sp_Job sp'"
  shows "fp_Match p sp = fp_Match p sp'" and "buildSummary sp p = buildSummary sp' p"
proof -
  have "\<forall>p \<in> set KnownPatterns. fp_Match p sp = fp_Match p sp'"
    by (simp add: KnownPatterns_def match_defs assms split: option.split)
  with assms(1) show "fp_Match p sp = fp_Match p sp'" by blast
  show "buildSummary sp p = buildSummary sp' p"
    by (simp add: buildSummary_def assms)
qed

lemma Classify_cong:
  assumes "sp_Trigger sp = sp_Trigger sp'" and "sp_Pod sp = sp_Pod sp'"
    and "sp_EphemeralRunner sp = sp_EphemeralRunner sp'" and "sp_Job sp = sp_Job sp'"
  shows "Classify sp = Classify sp'"
proof -
  have "classify_loop sp ps = classify_loop sp' ps" if "set ps \<subseteq> set KnownPatterns" for ps
    using that
  proof (induction ps)
    case Nil
    then show ?case by simp
  next
    case (Cons p ps)
    then have "p \<in> set KnownPatterns" by simp
    from match_cong [OF this assms] Cons show ?case by simp
  qed
  then show ?thesis by (simp add: Classify_def)
qed

section \<open>Properties\<close>

text \<open>C6: Classify implements the specification diagnose: the failure it reports is the first one, in
  the order of precedence, for which the spec holds the evidence, with the description and the
  remediation of that failure, and it reports nothing exactly when there is evidence for none.\<close>

theorem Classify_refines_diagnose:
  "Classify sp = map_option (report sp) (diagnose sp) \<and>
   diagnose sp = (if \<exists>f. indicates sp f then Some (LEAST f. indicates sp f) else None)"
  using Classify_report diagnose_least by blast

text \<open>A container that exited with code 137 is always diagnosed as killed for memory, never as
  crashed, even when Kubernetes does not give the reason OOMKilled, and whatever else the pod, the
  runner and the job look like.\<close>

lemma exit_137_is_out_of_memory:
  assumes "exited sp 137 cs"
  shows "\<exists>d. Classify sp = Some d \<and> dg_FailureType d = ''pod-oomkilled''"
proof -
  from assms have "out_of_memory sp" by (auto simp: out_of_memory_def)
  then show ?thesis by (simp add: Classify_report diagnose_def report_def)
qed

text \<open>The summary of a diagnosis starts with the description of the failure, and names the
  pod, the runner and the job the spec holds, with their namespaces.\<close>

lemma summary_names_evidence:
  assumes "Classify sp = Some d"
  shows "(\<exists>f. diagnose sp = Some f \<and> prefix (fp_Description (pattern_of f)) (dg_Summary d)) \<and>
    (\<forall>pod. sp_Pod sp = Some pod \<longrightarrow>
       sublist (''(pod '' @ pi_Namespace pod @ ''/'' @ pi_Name pod @ '')'') (dg_Summary d)) \<and>
    (\<forall>er. sp_EphemeralRunner sp = Some er \<longrightarrow>
       sublist (''(runner '' @ er_Namespace er @ ''/'' @ er_Name er @ '')'') (dg_Summary d)) \<and>
    (\<forall>j. sp_Job sp = Some j \<longrightarrow> sublist (''[job: '' @ ji_Name j @ '']'') (dg_Summary d))"
proof -
  from assms obtain f where "diagnose sp = Some f"
    and d: "dg_Summary d = buildSummary sp (pattern_of f)"
    by (auto simp: Classify_report report_def)
  moreover have "prefix (fp_Description p) (buildSummary sp p)" for p
    by (simp add: buildSummary_parts)
  moreover have "sp_Pod sp = Some pod \<Longrightarrow>
      sublist (''(pod '' @ pi_Namespace pod @ ''/'' @ pi_Name pod @ '')'') (buildSummary sp p)"
    for pod p
    unfolding buildSummary_parts
    by (simp only: option.case)
      (rule sublist_app(2), rule sublist_app(1), rule sublist_app(2), simp)
  moreover have "sp_EphemeralRunner sp = Some er \<Longrightarrow>
      sublist (''(runner '' @ er_Namespace er @ ''/'' @ er_Name er @ '')'') (buildSummary sp p)"
    for er p
    unfolding buildSummary_parts
    by (simp only: option.case)
      (rule sublist_app(2), rule sublist_app(2), rule sublist_app(1), rule sublist_app(2), simp)
  moreover have "sp_Job sp = Some j \<Longrightarrow>
      sublist (''[job: '' @ ji_Name j @ '']'') (buildSummary sp p)" for j p
    unfolding buildSummary_parts
    by (simp only: option.case)
      (rule sublist_app(2), rule sublist_app(2), rule sublist_app(2), rule sublist_app(2), simp)
  ultimately show ?thesis by simp
qed

end
