(* ===== verification/PodInfo.thy ===== *)
theory PodInfo
  imports Kube Classifier
begin

text \<open>
  How a pod becomes evidence: the snapshot of its conditions and container statuses, which the pod
  watcher's \<open>buildPodInfo\<close> and the correlator's \<open>buildPodInfoFromPod\<close> take with the same code, and
  the anomaly the pod watcher looks for in the same statuses. The lemmas relate the two: what
  \<open>detectAnomaly\<close> triggers on is what \<open>Classify\<close> finds in the snapshot.
\<close>

section \<open>Snapshots\<close>

definition reasonOOMKilled :: string where
  "reasonOOMKilled = ''OOMKilled''"

definition condition_snapshot :: "PodCondition \<Rightarrow> PodConditionSnapshot" where
  "condition_snapshot c =
     \<lparr>pc_Type = cond_Type c, pc_Status = cond_Status c, pc_Reason = cond_Reason c,
      pc_Message = cond_Message c\<rparr>"

definition container_status_info :: "ContainerStatus \<Rightarrow> ContainerStatusInfo" where
  "container_status_info cs =
     (let csi = \<lparr>csi_Name = cs_Name cs, csi_State = [], csi_Reason = [], csi_ExitCode = None,
                 csi_RestartCount = cs_RestartCount cs, csi_OOMKilled = False,
                 csi_StateHistory = []\<rparr>
      in case cs_Waiting cs of
           Some reason \<Rightarrow> csi\<lparr>csi_State := ''waiting'', csi_Reason := reason\<rparr>
         | None \<Rightarrow>
             if cs_Running cs then csi\<lparr>csi_State := ''running''\<rparr>
             else (case cs_Terminated cs of
                 Some (reason, code) \<Rightarrow>
                   csi\<lparr>csi_State := ''terminated'', csi_Reason := reason, csi_ExitCode := Some code,
                       csi_OOMKilled := (reason = reasonOOMKilled)\<rparr>
               | None \<Rightarrow> csi))"

definition buildPodInfoFromPod :: "Pod \<Rightarrow> PodInfo" where
  "buildPodInfoFromPod pod =
     \<lparr>pi_Name = om_Name (pod_Meta pod), pi_Namespace = om_Namespace (pod_Meta pod),
      pi_Phase = pod_Phase pod, pi_PhaseHistory = [], pi_ConditionTransitions = [],
      pi_Conditions = map condition_snapshot (pod_Conditions pod),
      pi_ContainerStatuses = map container_status_info (pod_ContainerStatuses pod),
      pi_Events = [], pi_NodeName = pod_NodeName pod\<rparr>"

section \<open>Anomalies\<close>

fun detect_loop :: "ContainerStatus list \<Rightarrow> string" where
  "detect_loop [] = []"
| "detect_loop (cs # css) =
     (if (case cs_Terminated cs of None \<Rightarrow> False | Some (reason, code) \<Rightarrow> reason = reasonOOMKilled)
      then ''pod-oomkill''
      else if (case cs_Terminated cs of None \<Rightarrow> False | Some (reason, code) \<Rightarrow> code \<noteq> 0)
      then ''pod-crash''
      else if (case cs_Waiting cs of None \<Rightarrow> False
               | Some reason \<Rightarrow> reason = ''ImagePullBackOff'' \<or> reason = ''ErrImagePull'')
      then ''pod-init-timeout''
      else detect_loop css)"

definition detectAnomaly :: "Pod \<Rightarrow> string" where
  "detectAnomaly pod = detect_loop (pod_ContainerStatuses pod)"

section \<open>From statuses to evidence\<close>

definition snapshot_spec :: "InvestigationSpec \<Rightarrow> Pod \<Rightarrow> PodInfo \<Rightarrow> bool" where
  "snapshot_spec sp pod info \<longleftrightarrow>
     sp_Pod sp = Some info \<and> pi_Phase info = pod_Phase pod \<and>
     pi_ContainerStatuses info = map container_status_info (pod_ContainerStatuses pod)"

lemma container_terminated:
  assumes "one_state cs" and "cs_Terminated cs = Some (reason, code)"
  shows "csi_State (container_status_info cs) = ''terminated''"
    "csi_ExitCode (container_status_info cs) = Some code"
    "csi_OOMKilled (container_status_info cs) = (reason = reasonOOMKilled)"
  using assms by (auto simp: container_status_info_def one_state_def)

lemma container_waiting:
  assumes "cs_Waiting cs = Some reason"
  shows "csi_State (container_status_info cs) = ''waiting''"
    "csi_Reason (container_status_info cs) = reason"
  using assms by (auto simp: container_status_info_def)

text \<open>What a snapshot says of a container is what the status said.\<close>

lemma info_terminatedD:
  assumes "csi_State (container_status_info cs) = ''terminated''"
    and "csi_ExitCode (container_status_info cs) = Some code"
  shows "\<exists>reason. cs_Terminated cs = Some (reason, code)"
  using assms
  by (auto simp: container_status_info_def Let_def split: option.splits if_splits)

lemma info_oomD:
  assumes "csi_OOMKilled (container_status_info cs)"
  shows "\<exists>code. cs_Terminated cs = Some (reasonOOMKilled, code)"
  using assms
  by (auto simp: container_status_info_def Let_def split: option.splits if_splits)

lemma info_waitingD:
  assumes "csi_State (container_status_info cs) = ''waiting''"
  shows "cs_Waiting cs = Some (csi_Reason (container_status_info cs))"
  using assms
  by (auto simp: container_status_info_def Let_def split: option.splits if_splits)

text \<open>What an anomaly says of the statuses.\<close>

lemma detect_oomD:
  "detect_loop css = ''pod-oomkill'' \<Longrightarrow>
   \<exists>cs \<in> set css. \<exists>code. cs_Terminated cs = Some (reasonOOMKilled, code)"
  by (induction css) (auto split: if_splits option.splits)

lemma detect_crashD:
  "detect_loop css = ''pod-crash'' \<Longrightarrow>
   \<exists>cs \<in> set css. \<exists>reason code. cs_Terminated cs = Some (reason, code) \<and> code \<noteq> 0"
  by (induction css) (auto split: if_splits option.splits)

lemma detect_initD:
  "detect_loop css = ''pod-init-timeout'' \<Longrightarrow>
   \<exists>cs \<in> set css. cs_Waiting cs \<in> {Some ''ImagePullBackOff'', Some ''ErrImagePull''}"
  by (induction css) (auto split: if_splits option.splits)

lemma detect_noneD:
  "detect_loop css = [] \<Longrightarrow>
   \<forall>cs \<in> set css.
     (\<forall>reason code. cs_Terminated cs = Some (reason, code) \<longrightarrow> reason \<noteq> reasonOOMKilled \<and> code = 0) \<and>
     cs_Waiting cs \<notin> {Some ''ImagePullBackOff'', Some ''ErrImagePull''}"
  by (induction css) (auto split: if_splits option.splits)

lemma detect_range:
  "detect_loop css \<in> {[], ''pod-oomkill'', ''pod-crash'', ''pod-init-timeout''}"
  by (induction css) auto

text \<open>The evidence \<open>Classify\<close> finds in a snapshot, in terms of the pod.\<close>

lemma exited_snapshot:
  assumes "snapshot_spec sp pod info" and "\<forall>cs \<in> set (pod_ContainerStatuses pod). one_state cs"
  shows "(\<exists>x. exited sp code x) \<longleftrightarrow>
    (\<exists>cs \<in> set (pod_ContainerStatuses pod). \<exists>reason. cs_Terminated cs = Some (reason, code))"
proof
  assume "\<exists>x. exited sp code x"
  then obtain cs where "cs \<in> set (pod_ContainerStatuses pod)"
      "csi_State (container_status_info cs) = ''terminated''"
      "csi_ExitCode (container_status_info cs) = Some code"
    using assms(1) by (auto simp: exited_def snapshot_spec_def)
  then show "\<exists>cs \<in> set (pod_ContainerStatuses pod). \<exists>reason. cs_Terminated cs = Some (reason, code)"
    using info_terminatedD by blast
next
  assume "\<exists>cs \<in> set (pod_ContainerStatuses pod). \<exists>reason. cs_Terminated cs = Some (reason, code)"
  then obtain cs reason where cs: "cs \<in> set (pod_ContainerStatuses pod)"
      "cs_Terminated cs = Some (reason, code)" by blast
  with assms(2) have "one_state cs" by blast
  with cs assms(1) show "\<exists>x. exited sp code x"
    by (auto simp: exited_def snapshot_spec_def dest: container_terminated)
qed

lemma oom_snapshot:
  assumes "snapshot_spec sp pod info" and "\<forall>cs \<in> set (pod_ContainerStatuses pod). one_state cs"
  shows "out_of_memory sp \<longleftrightarrow>
    (\<exists>cs \<in> set (pod_ContainerStatuses pod). \<exists>reason code. cs_Terminated cs = Some (reason, code) \<and>
       (reason = reasonOOMKilled \<or> code = 137))"
proof -
  have "(\<exists>cs \<in> set (pod_ContainerStatuses pod). csi_OOMKilled (container_status_info cs)) \<longleftrightarrow>
    (\<exists>cs \<in> set (pod_ContainerStatuses pod). \<exists>code. cs_Terminated cs = Some (reasonOOMKilled, code))"
    using assms(2) container_terminated(3) info_oomD by blast
  moreover have "(\<exists>pod'. sp_Pod sp = Some pod' \<and> (\<exists>x \<in> set (pi_ContainerStatuses pod'). csi_OOMKilled x))
      \<longleftrightarrow> (\<exists>cs \<in> set (pod_ContainerStatuses pod). csi_OOMKilled (container_status_info cs))"
    using assms(1) by (auto simp: snapshot_spec_def)
  ultimately show ?thesis
    unfolding out_of_memory_def exited_snapshot [OF assms] by auto
qed

lemma crashed_snapshot:
  assumes "snapshot_spec sp pod info" and "\<forall>cs \<in> set (pod_ContainerStatuses pod). one_state cs"
  shows "crashed sp \<longleftrightarrow>
    (\<exists>cs \<in> set (pod_ContainerStatuses pod). \<exists>reason code. cs_Terminated cs = Some (reason, code) \<and>
       code \<noteq> 0)"
  using exited_snapshot [OF assms] unfolding crashed_def by blast

lemma image_snapshot:
  assumes "snapshot_spec sp pod info"
  shows "image_missing sp \<longleftrightarrow>
    (\<exists>cs \<in> set (pod_ContainerStatuses pod).
       cs_Waiting cs \<in> {Some ''ImagePullBackOff'', Some ''ErrImagePull''})"
proof -
  have "(csi_State (container_status_info cs) = ''waiting'' \<and>
         csi_Reason (container_status_info cs) \<in> {''ImagePullBackOff'', ''ErrImagePull''}) \<longleftrightarrow>
        cs_Waiting cs \<in> {Some ''ImagePullBackOff'', Some ''ErrImagePull''}" for cs
    using info_waitingD [of cs] container_waiting [of cs] by auto
  then show ?thesis
    using assms by (auto simp: image_missing_def snapshot_spec_def)
qed

lemmas snapshot_evidence = oom_snapshot crashed_snapshot image_snapshot

section \<open>Properties\<close>


definition pulling_pod :: "string \<Rightarrow> Pod" where
  "pulling_pod phase =
     \<lparr>pod_Meta = new_meta ''ns'' ''p'', pod_NodeName = [], pod_InitContainers = [],
      pod_Containers = [''runner''], pod_Phase = phase, pod_Conditions = [],
      pod_ContainerStatuses =
        [\<lparr>cs_Name = ''runner'', cs_RestartCount = 0, cs_Waiting = Some ''ErrImagePull'',
          cs_Running = False, cs_Terminated = None\<rparr>]\<rparr>"

definition pod_spec :: "Pod \<Rightarrow> InvestigationSpec" where
  "pod_spec pod =
     (new_spec (detectAnomaly pod) ''ns/p'')\<lparr>sp_Pod := Some (buildPodInfoFromPod pod)\<rparr>"

lemma snapshot_pod_spec: "snapshot_spec (pod_spec pod) pod (buildPodInfoFromPod pod)"
  by (simp add: snapshot_spec_def pod_spec_def buildPodInfoFromPod_def)




end
