(* ===== verification/Cluster.thy ===== *)
theory Cluster
  imports Kube "HOL-Library.AList"
begin

text \<open>
  A runtime that keeps its objects in memory. It is the concrete instance of the parameter
  \<open>runtime\<close> on which the hypotheses about the API server are shown to hold together and the
  properties are evaluated: the objects are stored in association lists, a Create of a stored key and
  an update or a deletion of an unknown one fail, a status update writes only the status and an
  update only the rest, and any kind of call can be made to fail (\<open>cl_down\<close>).
\<close>

datatype verb = VGet | VCreate | VUpdate | VStatus | VDelete | VList | VUpdatePod

record cluster =
  cl_time :: time
  cl_invs :: "(NamespacedName \<times> Investigation) list"
  cl_pods :: "Pod list"
  cl_ers :: "(NamespacedName \<times> Unstructured) list"
  cl_events :: "(NamespacedName \<times> Event) list"
  cl_configs :: "DetectiveConfig list"
  cl_down :: "verb list"

definition empty_cluster :: cluster where
  "empty_cluster =
     \<lparr>cl_time = 0, cl_invs = [], cl_pods = [], cl_ers = [], cl_events = [], cl_configs = [],
      cl_down = []\<rparr>"

definition unavailable :: go_error where
  "unavailable = Errorf ''unavailable''"

definition find_in :: "verb \<Rightarrow> (cluster \<Rightarrow> ('k \<times> 'a) list) \<Rightarrow> 'k \<Rightarrow> (cluster, go_error + 'a) state" where
  "find_in v f k = gets (\<lambda>w.
     if v \<in> set (cl_down w) then Inl unavailable
     else (case map_of (f w) k of None \<Rightarrow> Inl NotFound | Some x \<Rightarrow> Inr x))"

definition list_of :: "(cluster \<Rightarrow> 'a list) \<Rightarrow> (cluster, go_error + 'a list) state" where
  "list_of f = gets (\<lambda>w. if VList \<in> set (cl_down w) then Inl unavailable else Inr (f w))"

text \<open>\<open>change\<close> gives the stored object from the old one and the argument.\<close>

definition store ::
  "verb \<Rightarrow> (time \<Rightarrow> Investigation option \<Rightarrow> Investigation \<Rightarrow> go_error + Investigation) \<Rightarrow>
   Investigation \<Rightarrow> (cluster, go_error + Investigation) state" where
  "store v change iv = State (\<lambda>w.
     let k = key_of (inv_Meta iv) in
     if v \<in> set (cl_down w) then (Inl unavailable, w)
     else (case change (cl_time w) (map_of (cl_invs w) k) iv of
             Inl e \<Rightarrow> (Inl e, w)
           | Inr y \<Rightarrow> (Inr y, w\<lparr>cl_invs := AList.update k y (cl_invs w)\<rparr>)))"

definition on_create :: "time \<Rightarrow> Investigation option \<Rightarrow> Investigation \<Rightarrow> go_error + Investigation" where
  "on_create now old iv =
     (case old of
        Some _ \<Rightarrow> Inl AlreadyExists
      | None \<Rightarrow> Inr (new_investigation ((inv_Meta iv)\<lparr>om_CreationTimestamp := now\<rparr>) (inv_Spec iv)))"

definition on_update :: "time \<Rightarrow> Investigation option \<Rightarrow> Investigation \<Rightarrow> go_error + Investigation" where
  "on_update now old iv =
     (case old of None \<Rightarrow> Inl NotFound | Some x \<Rightarrow> Inr (iv\<lparr>inv_Status := inv_Status x\<rparr>))"

definition on_status ::
  "time \<Rightarrow> Investigation option \<Rightarrow> Investigation \<Rightarrow> go_error + Investigation" where
  "on_status now old iv =
     (case old of
        None \<Rightarrow> Inl NotFound
      | Some x \<Rightarrow> Inr (iv\<lparr>inv_Spec := inv_Spec x\<rparr>))"

definition delete_inv :: "Investigation \<Rightarrow> (cluster, go_error option) state" where
  "delete_inv iv = State (\<lambda>w.
     let k = key_of (inv_Meta iv) in
     if VDelete \<in> set (cl_down w) then (Some unavailable, w)
     else (case map_of (cl_invs w) k of
             None \<Rightarrow> (Some NotFound, w)
           | Some _ \<Rightarrow> (None, w\<lparr>cl_invs := AList.delete k (cl_invs w)\<rparr>)))"

definition find_pod :: "NamespacedName \<Rightarrow> (cluster, go_error + Pod) state" where
  "find_pod k = gets (\<lambda>w.
     if VGet \<in> set (cl_down w) then Inl unavailable
     else (case find (\<lambda>p. key_of (pod_Meta p) = k) (cl_pods w) of
             None \<Rightarrow> Inl NotFound | Some p \<Rightarrow> Inr p))"

definition update_pod :: "Pod \<Rightarrow> (cluster, go_error + Pod) state" where
  "update_pod pod = State (\<lambda>w.
     if VUpdatePod \<in> set (cl_down w) then (Inl Conflict, w)
     else (Inr pod, w\<lparr>cl_pods :=
       map (\<lambda>q. if key_of (pod_Meta q) = key_of (pod_Meta pod) then pod else q) (cl_pods w)\<rparr>))"

definition sample_kube :: "cluster runtime" where
  "sample_kube =
     \<lparr>ContainsFinalizer = (\<lambda>m f. f \<in> set (om_Finalizers m)),
      AddFinalizer = (\<lambda>m f.
        if f \<in> set (om_Finalizers m) then m else m\<lparr>om_Finalizers := om_Finalizers m @ [f]\<rparr>),
      RemoveFinalizer = (\<lambda>m f. m\<lparr>om_Finalizers := filter (\<lambda>g. g \<noteq> f) (om_Finalizers m)\<rparr>),
      Now = gets cl_time,
      Get_Investigation = find_in VGet cl_invs,
      Create_Investigation = store VCreate on_create,
      Update_Investigation = store VUpdate on_update,
      StatusUpdate_Investigation = store VStatus on_status,
      Delete_Investigation = delete_inv,
      List_Investigations = list_of (\<lambda>w. map snd (cl_invs w)),
      List_Configs = list_of cl_configs,
      Get_Pod = find_pod,
      Update_Pod = update_pod,
      List_Pods = (\<lambda>ns (l, v). list_of (\<lambda>w. filter (\<lambda>p. om_Namespace (pod_Meta p) = ns \<and>
        label (pod_Meta p) l = v) (cl_pods w))),
      Get_ER = find_in VGet cl_ers,
      List_ERs = (\<lambda>ns. list_of (\<lambda>w. filter (\<lambda>e. om_Namespace (un_Meta e) = ns)
        (map snd (cl_ers w)))),
      List_Events = (\<lambda>ns n. list_of (\<lambda>w. map snd (filter (\<lambda>(k, e).
        nn_Namespace k = ns \<and> nn_Name k = n) (cl_events w))))\<rparr>"

lemma sample_kube_simps [simp]:
  "ContainsFinalizer sample_kube m f \<longleftrightarrow> f \<in> set (om_Finalizers m)"
  "AddFinalizer sample_kube m f =
     (if f \<in> set (om_Finalizers m) then m else m\<lparr>om_Finalizers := om_Finalizers m @ [f]\<rparr>)"
  "RemoveFinalizer sample_kube m f = m\<lparr>om_Finalizers := filter (\<lambda>g. g \<noteq> f) (om_Finalizers m)\<rparr>"
  "Now sample_kube = gets cl_time"
  "Get_Investigation sample_kube = find_in VGet cl_invs"
  "Create_Investigation sample_kube = store VCreate on_create"
  "Update_Investigation sample_kube = store VUpdate on_update"
  "StatusUpdate_Investigation sample_kube = store VStatus on_status"
  "Delete_Investigation sample_kube = delete_inv"
  "List_Investigations sample_kube = list_of (\<lambda>w. map snd (cl_invs w))"
  "List_Configs sample_kube = list_of cl_configs"
  "Get_Pod sample_kube = find_pod"
  "Update_Pod sample_kube = update_pod"
  "List_Pods sample_kube ns (l, v) = list_of (\<lambda>w. filter (\<lambda>p. om_Namespace (pod_Meta p) = ns \<and>
        label (pod_Meta p) l = v) (cl_pods w))"
  "Get_ER sample_kube = find_in VGet cl_ers"
  "List_ERs sample_kube ns = list_of (\<lambda>w. filter (\<lambda>e. om_Namespace (un_Meta e) = ns)
        (map snd (cl_ers w)))"
  "List_Events sample_kube ns n = list_of (\<lambda>w. map snd (filter (\<lambda>(k, e).
        nn_Namespace k = ns \<and> nn_Name k = n) (cl_events w)))"
  by (simp_all add: sample_kube_def)

definition sample_stored :: "cluster store" where
  "sample_stored w = map_of (cl_invs w)"

lemmas cluster_defs =
  find_in_def list_of_def store_def on_create_def on_update_def on_status_def delete_inv_def
  find_pod_def update_pod_def

lemma sample_finalizer_laws: "finalizer_laws sample_kube"
  by (simp add: finalizer_laws_def)

lemma sample_puts:
  "put_law sample_stored True (store VCreate on_create)"
  "put_law sample_stored False (store VUpdate on_update)"
  "put_law sample_stored False (store VStatus on_status)"
  "drop_law sample_stored delete_inv"
  by (auto simp: put_law_def drop_law_def sample_stored_def cluster_defs Let_def update_conv'
      delete_conv' key_of_def split: option.split if_split)

lemma keeps_gets: "keeps f (gets g)"
  by (simp add: keeps_def)

lemma sample_kube_laws: "kube_laws sample_stored sample_kube"
proof -
  have "keeps sample_stored (update_pod p)" for p
    by (simp add: keeps_def update_pod_def sample_stored_def)
  then show ?thesis
    unfolding kube_laws_def
    by (simp add: sample_puts find_in_def find_pod_def list_of_def keeps_gets)
qed

lemma sample_clock: "reads_clock sample_kube cl_time"
  by (simp add: reads_clock_def)

end
