(* ===== verification/PodWatcher.thy ===== *)
theory PodWatcher
  imports Submit Tracker PodInfo Cluster
begin

text \<open>
  \<open>internal/controller/pod_watcher.go\<close>: the watcher of the runner pods. Its private state maps a
  pod to the tracker of its phases; it puts a finalizer on every runner pod, collects the logs of a
  pod that is being deleted before it takes the finalizer off, and opens an Investigation for a pod
  with an anomaly, within the limit of the shared counter. The collector of the logs is the
  interface \<open>logcollector.Collector\<close>, a parameter here.
\<close>

section \<open>State\<close>

record podTracker =
  pt_lastPhase :: string
  pt_containerStates :: "string \<rightharpoonup> string"
  pt_phaseTransitions :: "StatusTransition list"

type_synonym 'w pw = "(InvestigationCounter, NamespacedName \<rightharpoonup> podTracker, 'w) proc"

text \<open>\<open>CollectLogs\<close> of the interface: the paths, and the error beside them.\<close>

type_synonym 'w collector = "Pod \<Rightarrow> ('w, string list \<times> go_error option) state"

definition arcRunnerLabel :: string where
  "arcRunnerLabel = ''actions-ephemeral-runner''"

definition logCollectorFinalizer :: string where
  "logCollectorFinalizer = ''detective.arcdetective.io/log-collector''"

definition has_log_finalizer :: "'w runtime \<Rightarrow> Pod \<Rightarrow> bool" where
  "has_log_finalizer K pod = ContainsFinalizer K (pod_Meta pod) logCollectorFinalizer"

section \<open>Trackers\<close>

text \<open>A new watcher has seen no pod.\<close>

definition NewPodWatcher :: "NamespacedName \<rightharpoonup> podTracker" where
  "NewPodWatcher = Map.empty"

definition new_podTracker :: podTracker where
  "new_podTracker =
     \<lparr>pt_lastPhase = [], pt_containerStates = Map.empty, pt_phaseTransitions = []\<rparr>"

text \<open>What \<open>recordTransition\<close> does to the tracker of the pod.\<close>

definition observe_pod :: "string \<Rightarrow> time \<Rightarrow> podTracker \<Rightarrow> podTracker" where
  "observe_pod phase now t =
     (if phase \<noteq> [] \<and> pt_lastPhase t \<noteq> phase
      then t\<lparr>pt_phaseTransitions := pt_phaseTransitions t @
               [\<lparr>st_From = pt_lastPhase t, st_To = phase, st_Timestamp = now\<rparr>],
             pt_lastPhase := phase\<rparr>
      else t)"

interpretation pod_log:
  transition_log "\<lambda>phase. phase \<noteq> []" observe_pod pt_lastPhase pt_phaseTransitions new_podTracker
  by unfold_locales (auto simp: observe_pod_def new_podTracker_def)

definition pod_tracker_of :: "(NamespacedName \<rightharpoonup> podTracker) \<Rightarrow> NamespacedName \<Rightarrow> podTracker" where
  "pod_tracker_of h key = (case h key of None \<Rightarrow> new_podTracker | Some t \<Rightarrow> t)"

text \<open>The clock is read only where the phase has changed.\<close>

definition pod_recordTransition :: "'w runtime \<Rightarrow> NamespacedName \<Rightarrow> Pod \<Rightarrow> ('w pw, unit) state" where
  "pod_recordTransition K key pod = do {
     h \<leftarrow> gets own;
     (let t = pod_tracker_of h key in
      if pod_Phase pod \<noteq> [] \<and> pt_lastPhase t \<noteq> pod_Phase pod then do {
        now \<leftarrow> outside (Now K);
        modify (\<lambda>p. p\<lparr>own := h(key \<mapsto> observe_pod (pod_Phase pod) now t)\<rparr>)
      }
      else modify (\<lambda>p. p\<lparr>own := h(key \<mapsto> t)\<rparr>))
   }"

definition buildPodInfo :: "(NamespacedName \<rightharpoonup> podTracker) \<Rightarrow> Pod \<Rightarrow> PodInfo" where
  "buildPodInfo h pod =
     (buildPodInfoFromPod pod)\<lparr>pi_PhaseHistory :=
        (case h (key_of (pod_Meta pod)) of None \<Rightarrow> [] | Some t \<Rightarrow> pt_phaseTransitions t)\<rparr>"

section \<open>Investigations\<close>

definition pod_inv_name :: "Pod \<Rightarrow> string" where
  "pod_inv_name pod = ''pod-'' @ om_Name (pod_Meta pod)"

definition pod_inv_key :: "Pod \<Rightarrow> NamespacedName" where
  "pod_inv_key pod = \<lparr>nn_Namespace = om_Namespace (pod_Meta pod), nn_Name = pod_inv_name pod\<rparr>"

definition pod_source :: "Pod \<Rightarrow> string" where
  "pod_source pod = om_Namespace (pod_Meta pod) @ ''/'' @ om_Name (pod_Meta pod)"

definition ensureInvestigation ::
  "'w runtime \<Rightarrow> Pod \<Rightarrow> string list \<Rightarrow> ('w pw, go_error option) state" where
  "ensureInvestigation K pod logPaths = do {
     r \<leftarrow> outside (Get_Investigation K (pod_inv_key pod));
     (case r of
        Inl e \<Rightarrow>
          if IsNotFound e then do {
            granted \<leftarrow> counter_TryIncrement;
            if \<not> granted then ret None
            else do {
              h \<leftarrow> gets own;
              submit K (new_investigation
                (new_meta (om_Namespace (pod_Meta pod)) (pod_inv_name pod))
                ((new_spec ''pod-deletion'' (pod_source pod))
                   \<lparr>sp_Pod := Some (buildPodInfo h pod), sp_LogPaths := logPaths\<rparr>))
            }
          }
          else ret (Some e)
      | Inr iv \<Rightarrow> do {
          h \<leftarrow> gets own;
          (let sp = inv_Spec iv in do {
            r' \<leftarrow> outside (Update_Investigation K
              (iv\<lparr>inv_Spec := sp\<lparr>sp_LogPaths := sp_LogPaths sp @ logPaths,
                                  sp_Pod := Some (buildPodInfo h pod)\<rparr>\<rparr>));
            ret (error_of r')
          })
        })
   }"

definition createAnomalyInvestigation ::
  "'w runtime \<Rightarrow> Pod \<Rightarrow> string \<Rightarrow> ('w pw, go_error option) state" where
  "createAnomalyInvestigation K pod anomaly = do {
     r \<leftarrow> outside (Get_Investigation K (pod_inv_key pod));
     (case r of
        Inr iv \<Rightarrow> ret None
      | Inl e \<Rightarrow> do {
          granted \<leftarrow> counter_TryIncrement;
          if \<not> granted then ret None
          else do {
            unused \<leftarrow> outside (Now K);
            h \<leftarrow> gets own;
            now \<leftarrow> outside (Now K);
            submit K (new_investigation
              (new_meta (om_Namespace (pod_Meta pod)) (pod_inv_name pod))
              ((new_spec anomaly (pod_source pod))
                 \<lparr>sp_Pod := Some (buildPodInfo h pod),
                  sp_Timeline :=
                    [\<lparr>tl_Timestamp = now, tl_Source = ''pod'', tl_Type = anomaly,
                      tl_Message = ''Anomaly detected on pod '' @ om_Name (pod_Meta pod) @
                                   '': '' @ anomaly\<rparr>]\<rparr>))
          }
        })
   }"

section \<open>Reconcile\<close>

text \<open>The finalizer is put on a pod that has none and is not being deleted; the pod read back.\<close>

definition pod_add_finalizer :: "'w runtime \<Rightarrow> Pod \<Rightarrow> ('w pw, go_error + Pod) state" where
  "pod_add_finalizer K pod =
     (if \<not> being_deleted (pod_Meta pod) \<and> \<not> has_log_finalizer K pod
      then outside (Update_Pod K
             (pod\<lparr>pod_Meta := AddFinalizer K (pod_Meta pod) logCollectorFinalizer\<rparr>))
      else ret (Inr pod))"

definition pod_handle_deletion ::
  "'w runtime \<Rightarrow> 'w collector \<Rightarrow> Pod \<Rightarrow> ('w pw, go_error + Result) state" where
  "pod_handle_deletion K collect pod = do {
     (logPaths, err) \<leftarrow> outside (collect pod);
     _ \<leftarrow> (if logPaths \<noteq> [] then ensureInvestigation K pod logPaths else ret None);
     r \<leftarrow> outside (Update_Pod K
            (pod\<lparr>pod_Meta := RemoveFinalizer K (pod_Meta pod) logCollectorFinalizer\<rparr>));
     ret (case r of Inl e \<Rightarrow> Inl e | Inr _ \<Rightarrow> Inr no_requeue)
   }"

definition pod_check_anomaly :: "'w runtime \<Rightarrow> Pod \<Rightarrow> ('w pw, go_error + Result) state" where
  "pod_check_anomaly K pod = do {
     _ \<leftarrow> (let anomaly = detectAnomaly pod in
           if anomaly \<noteq> [] then createAnomalyInvestigation K pod anomaly else ret None);
     ret (Inr no_requeue)
   }"

definition pod_Reconcile ::
  "'w runtime \<Rightarrow> 'w collector \<Rightarrow> NamespacedName \<Rightarrow> ('w pw, go_error + Result) state" where
  "pod_Reconcile K collect key = do {
     r \<leftarrow> outside (Get_Pod K key);
     (case r of
        Inl e \<Rightarrow>
          if IsNotFound e then do {
            modify (\<lambda>p. p\<lparr>own := (own p)(key := None)\<rparr>);
            ret (Inr no_requeue)
          }
          else ret (Inl e)
      | Inr pod \<Rightarrow>
          if label (pod_Meta pod) arcRunnerLabel \<noteq> ''True'' then ret (Inr no_requeue)
          else do {
            a \<leftarrow> pod_add_finalizer K pod;
            (case a of
               Inl e \<Rightarrow> ret (Inl e)
             | Inr pod \<Rightarrow> do {
                 pod_recordTransition K key pod;
                 if being_deleted (pod_Meta pod) \<and> has_log_finalizer K pod
                 then pod_handle_deletion K collect pod
                 else pod_check_anomaly K pod
               })
          })
   }"

text \<open>The filter of the events the watcher is run for.\<close>

definition pod_event_filter :: "ObjectMeta \<Rightarrow> bool" where
  "pod_event_filter m = (label m arcRunnerLabel = ''True'')"

section \<open>What the operations call\<close>

text \<open>The collector with its calls recorded beside those of the runtime.\<close>

definition traced_collector :: "'w collector \<Rightarrow> ('w \<times> call list) collector" where
  "traced_collector collect = (\<lambda>pod. recorded (CollectLogsOf pod) (collect pod))"

lemma run_traced_collector [simp]:
  "run_state (traced_collector collect pod) wc =
   (case run_state (collect pod) (fst wc) of (r, w') \<Rightarrow> (r, (w', snd wc @ [CollectLogsOf pod])))"
  by (simp add: traced_collector_def)

text \<open>
  The calls about the Investigation of a pod: they name it by the pod's key, and what they store is
  the snapshot of the pod with the history of its tracker.
\<close>

fun pod_inv_call :: "(NamespacedName \<rightharpoonup> podTracker) \<Rightarrow> Pod \<Rightarrow> call \<Rightarrow> bool" where
  "pod_inv_call h pod (GetInvestigation k) = (k = pod_inv_key pod)"
| "pod_inv_call h pod (CreateInvestigation iv) =
     (key_of (inv_Meta iv) = pod_inv_key pod \<and> sp_Pod (inv_Spec iv) = Some (buildPodInfo h pod))"
| "pod_inv_call h pod (UpdateInvestigation iv) = (sp_Pod (inv_Spec iv) = Some (buildPodInfo h pod))"
| "pod_inv_call h pod (StatusUpdateInvestigation iv) = (phase_of iv = phaseCollecting)"
| "pod_inv_call h pod c = False"

text \<open>A step that leaves the trackers \<open>h\<close> alone and makes only such calls.\<close>

abbreviation about_pod ::
  "(NamespacedName \<rightharpoonup> podTracker) \<Rightarrow> Pod \<Rightarrow> ('w \<times> call list) pw \<Rightarrow> ('w \<times> call list) pw \<Rightarrow> bool" where
  "about_pod h pod \<equiv> steady h (pod_inv_call h pod)"

lemma about_pod_ensure: "state_io_rel (about_pod h pod) (ensureInvestigation (traced K) pod paths)"
  unfolding ensureInvestigation_def Let_def traced_simps
  by (intro steady_rules steady_submit) (auto simp: pod_inv_key_def)

lemma about_pod_anomaly:
  "state_io_rel (about_pod h pod) (createAnomalyInvestigation (traced K) pod anomaly)"
  unfolding createAnomalyInvestigation_def traced_simps
  by (intro steady_rules steady_submit) (auto simp: pod_inv_key_def)

text \<open>The two ways a Reconcile ends, with the calls they make.\<close>

definition without_finalizer :: "'w runtime \<Rightarrow> Pod \<Rightarrow> Pod" where
  "without_finalizer K pod =
     pod\<lparr>pod_Meta := RemoveFinalizer K (pod_Meta pod) logCollectorFinalizer\<rparr>"

lemma deletion_calls:
  assumes "run_state (pod_handle_deletion (traced K) (traced_collector collect) pod) p = (r, p')"
  obtains mid w2 a where "own p' = own p"
    and "proc_calls p' =
       proc_calls p @ [CollectLogsOf pod] @ mid @ [UpdatePod (without_finalizer K pod)]"
    and "\<forall>c \<in> set mid. pod_inv_call (own p) pod c"
    and "run_state (Update_Pod K (without_finalizer K pod)) w2 = (a, fst (world p'))"
    and "r = (case a of Inl e \<Rightarrow> Inl e | Inr _ \<Rightarrow> Inr no_requeue)"
proof -
  obtain paths err w where col: "run_state (collect pod) (fst (world p)) = ((paths, err), w)"
    by (metis surj_pair)
  define q where "q = p\<lparr>world := (w, proc_calls p @ [CollectLogsOf pod])\<rparr>"
  define m where "m = (if paths \<noteq> [] then ensureInvestigation (traced K) pod paths else ret None)"
  obtain b q' where m: "run_state m q = (b, q')" by fastforce
  have "state_io_rel (about_pod (own q) pod) m"
    unfolding m_def by (intro steady_rules about_pod_ensure)
  from state_io_rel_run [OF this, of q] m obtain mid where mid:
    "own q' = own p" "proc_calls q' = proc_calls p @ [CollectLogsOf pod] @ mid"
    "\<forall>c \<in> set mid. pod_inv_call (own p) pod c"
    by (auto simp: steady_def q_def)
  obtain a w2 where upd: "run_state (Update_Pod K (without_finalizer K pod)) (fst (world q')) = (a, w2)"
    by fastforce
  have "p' = q'\<lparr>world := (w2, proc_calls q' @ [UpdatePod (without_finalizer K pod)])\<rparr>"
    "r = (case a of Inl e \<Rightarrow> Inl e | Inr _ \<Rightarrow> Inr no_requeue)"
    using assms m upd by (simp_all add: pod_handle_deletion_def col m_def [symmetric]
        q_def [symmetric] without_finalizer_def [symmetric])
  with mid upd show ?thesis by (intro that [of mid "fst (world q')" a]) auto
qed

lemma anomaly_calls:
  "about_pod (own p) pod p (snd (run_state (pod_check_anomaly (traced K) pod) p))"
  by (rule state_io_rel_run)
    (auto simp: pod_check_anomaly_def Let_def intro!: steady_rules about_pod_anomaly)

section \<open>The whole Reconcile\<close>

lemma record_own:
  "\<exists>now. own (snd (run_state (pod_recordTransition (traced K) key pod) p)) =
     (own p)(key \<mapsto> observe_pod (pod_Phase pod) now (pod_tracker_of (own p) key))"
  by (auto simp: pod_recordTransition_def observe_pod_def Let_def split: prod.split)

lemma record_calls:
  "proc_calls (snd (run_state (pod_recordTransition (traced K) key pod) p)) = proc_calls p"
  by (auto simp: pod_recordTransition_def Let_def split: prod.split)

text \<open>
  The second half of a Reconcile, from the transition on. \<open>deletes\<close> is the condition under which
  the logs are collected.
\<close>

definition deletes :: "'w runtime \<Rightarrow> Pod \<Rightarrow> bool" where
  "deletes K pod \<longleftrightarrow> being_deleted (pod_Meta pod) \<and> has_log_finalizer K pod"

lemma run_pod_Reconcile_found:
  assumes "run_state (Get_Pod K key) (fst (world p)) = (Inr pod, w)"
    and "label (pod_Meta pod) arcRunnerLabel = ''True''"
  shows "run_state (pod_Reconcile (traced K) collect key) p =
    (case run_state (pod_add_finalizer (traced K) pod)
            (p\<lparr>world := (w, proc_calls p @ [GetPod key])\<rparr>) of
       (Inl e, p') \<Rightarrow> (Inl e, p')
     | (Inr pod', p') \<Rightarrow>
         (let p'' = snd (run_state (pod_recordTransition (traced K) key pod') p') in
          if deletes K pod' then run_state (pod_handle_deletion (traced K) collect pod') p''
          else run_state (pod_check_anomaly (traced K) pod') p''))"
  using assms
  by (auto simp: pod_Reconcile_def deletes_def has_log_finalizer_def Let_def split: prod.split sum.split)

section \<open>Properties\<close>

text \<open>
  \<open>releases_guarded K seen cs\<close>: every update of a pod among the calls either leaves the pod with
  the log finalizer or is the release of a pod in deletion whose logs were asked for before; \<open>seen\<close>
  are the pods whose logs were asked for so far.
\<close>

fun releases_guarded :: "'w runtime \<Rightarrow> Pod list \<Rightarrow> call list \<Rightarrow> bool" where
  "releases_guarded K seen [] = True"
| "releases_guarded K seen (c # cs) =
     ((case c of
         UpdatePod q \<Rightarrow> has_log_finalizer K q \<or>
           (\<exists>p \<in> set seen. being_deleted (pod_Meta p) \<and> q = without_finalizer K p)
       | _ \<Rightarrow> True) \<and>
      releases_guarded K (case c of CollectLogsOf p \<Rightarrow> p # seen | _ \<Rightarrow> seen) cs)"

lemma guarded_inv_calls:
  "\<forall>c \<in> set mid. pod_inv_call h pod c \<Longrightarrow>
   releases_guarded K seen (mid @ cs) = releases_guarded K seen cs"
proof (induction mid)
  case Nil
  then show ?case by simp
next
  case (Cons c mid)
  then show ?case by (cases c) auto
qed

lemma guarded_deletion:
  assumes "being_deleted (pod_Meta pod)" and "\<forall>c \<in> set mid. pod_inv_call h pod c"
  shows "releases_guarded K seen (CollectLogsOf pod # mid @ [UpdatePod (without_finalizer K pod)])"
  using assms by (simp add: guarded_inv_calls)

text \<open>The calls of the second half, for a pod read back from the server.\<close>

lemma second_half_guarded:
  assumes "run_state (if deletes K pod
       then pod_handle_deletion (traced K) (traced_collector collect) pod
       else pod_check_anomaly (traced K) pod) p = (r, p')"
  shows "\<exists>new. proc_calls p' = proc_calls p @ new \<and> (\<forall>seen. releases_guarded K seen new)"
proof (cases "deletes K pod")
  case True
  with assms have "run_state (pod_handle_deletion (traced K) (traced_collector collect) pod) p = (r, p')"
    by simp
  then obtain mid w2 a where "own p' = own p"
    "proc_calls p' =
       proc_calls p @ [CollectLogsOf pod] @ mid @ [UpdatePod (without_finalizer K pod)]"
    "\<forall>c \<in> set mid. pod_inv_call (own p) pod c"
    "run_state (Update_Pod K (without_finalizer K pod)) w2 = (a, fst (world p'))"
    "r = (case a of Inl e \<Rightarrow> Inl e | Inr _ \<Rightarrow> Inr no_requeue)" by (rule deletion_calls)
  with True guarded_deletion [of pod mid "own p" K] show ?thesis by (simp add: deletes_def)
next
  case False
  with assms anomaly_calls [of p pod K]
  obtain new where "proc_calls p' = proc_calls p @ new" "\<forall>c \<in> set new. pod_inv_call (own p) pod c"
    by (auto simp: steady_def)
  with guarded_inv_calls [of new "own p" pod K _ "[]"] show ?thesis by auto
qed

text \<open>No pod loses the log finalizer before its logs were asked for: whatever the API server and
  the collector answer, every pod update a Reconcile makes either leaves the finalizer on the pod, or
  follows a CollectLogs of that very pod, which is in deletion, and changes nothing but the
  finalizer.\<close>

lemma release_only_after_collecting:
  assumes "finalizer_laws K"
  shows "\<exists>new. proc_calls (snd (run_state (pod_Reconcile (traced K) (traced_collector collect) key) p)) =
      proc_calls p @ new \<and> releases_guarded K [] new"
proof -
  obtain g w where g: "run_state (Get_Pod K key) (fst (world p)) = (g, w)" by fastforce
  show ?thesis
  proof (cases "\<exists>pod. g = Inr pod \<and> label (pod_Meta pod) arcRunnerLabel = ''True''")
    case False
    with g show ?thesis by (cases g) (auto simp: pod_Reconcile_def)
  next
    case True
    then obtain pod where pod: "g = Inr pod" "label (pod_Meta pod) arcRunnerLabel = ''True''" by blast
    define p1 where "p1 = p\<lparr>world := (w, proc_calls p @ [GetPod key])\<rparr>"
    obtain a p2 where a: "run_state (pod_add_finalizer (traced K) pod) p1 = (a, p2)" by fastforce
    have p2: "\<exists>new. proc_calls p2 = proc_calls p @ GetPod key # new \<and>
        (\<forall>cs. releases_guarded K [] (GetPod key # new @ cs) = releases_guarded K [] cs)"
      using a assms
      by (auto simp: pod_add_finalizer_def p1_def has_log_finalizer_def finalizer_laws_def
          split: if_splits prod.splits)
    note run = run_pod_Reconcile_found [OF g [unfolded pod(1)] pod(2), of "traced_collector collect",
        folded p1_def, unfolded a]
    show ?thesis
    proof (cases a)
      case (Inl e)
      with run p2 show ?thesis by (force dest: spec [of _ "[]"])
    next
      case (Inr pod')
      obtain r p4 where half: "run_state (if deletes K pod'
          then pod_handle_deletion (traced K) (traced_collector collect) pod'
          else pod_check_anomaly (traced K) pod')
          (snd (run_state (pod_recordTransition (traced K) key pod') p2)) = (r, p4)" by fastforce
      with Inr run have "snd (run_state (pod_Reconcile (traced K) (traced_collector collect) key) p) = p4"
        by (auto simp: Let_def split: if_splits)
      with second_half_guarded [OF half] p2 show ?thesis by (force simp: record_calls)
    qed
  qed
qed

definition dying_pod :: "string \<Rightarrow> Pod" where
  "dying_pod phase =
     \<lparr>pod_Meta = (new_meta ''ns'' ''runner'')\<lparr>
        om_Labels := [arcRunnerLabel \<mapsto> ''True''], om_Finalizers := [logCollectorFinalizer],
        om_DeletionTimestamp := Some 5\<rparr>,
      pod_NodeName = [], pod_InitContainers = [], pod_Containers = [''main''], pod_Phase = phase,
      pod_Conditions = [], pod_ContainerStatuses = []\<rparr>"

definition pod_key :: NamespacedName where
  "pod_key = \<lparr>nn_Namespace = ''ns'', nn_Name = ''runner''\<rparr>"

lemma dying_pod_simps [simp]:
  "label (pod_Meta (dying_pod phase)) arcRunnerLabel = ''True''"
  "being_deleted (pod_Meta (dying_pod phase))"
  "has_log_finalizer sample_kube (dying_pod phase)"
  "key_of (pod_Meta (dying_pod phase)) = pod_key"
  by (simp_all add: dying_pod_def label_def being_deleted_def has_log_finalizer_def IsZero_def
      key_of_def pod_key_def new_meta_def)

text \<open>A controller that has just started, beside a cluster with one pod.\<close>

definition fresh_pw :: "(NamespacedName \<rightharpoonup> podTracker) \<Rightarrow> cluster \<Rightarrow> (cluster \<times> call list) pw" where
  "fresh_pw h c = \<lparr>counter = \<lparr>ic_count = 0, ic_max = 3\<rparr>, own = h, world = (c, [])\<rparr>"

definition one_pod :: "Pod \<Rightarrow> cluster" where
  "one_pod pod = empty_cluster\<lparr>cl_pods := [pod], cl_time := 7\<rparr>"

definition logs_of :: "string list \<Rightarrow> cluster collector" where
  "logs_of paths = (\<lambda>pod. gets (\<lambda>w. (paths, None)))"

text \<open>C8: the deletion of a runner pod is never held up by the logs: for a pod in deletion with the
  log finalizer a Reconcile asks for its logs, makes calls about its own Investigation only, and then
  sends the pod back without the finalizer, whether or not collecting the logs or storing the
  Investigation failed; its result is an error exactly when that last update fails.\<close>

theorem deletion_collects_then_releases:
  assumes "run_state (Get_Pod K key) (fst (world p)) = (Inr pod, w)"
    and "label (pod_Meta pod) arcRunnerLabel = ''True''"
    and "being_deleted (pod_Meta pod)" and "has_log_finalizer K pod"
  shows "\<exists>mid w2 a. let (r, p') = run_state (pod_Reconcile (traced K) (traced_collector collect) key) p in
      proc_calls p' = proc_calls p @ [GetPod key, CollectLogsOf pod] @ mid @
        [UpdatePod (without_finalizer K pod)] \<and>
      (\<forall>c \<in> set mid. \<exists>h. pod_inv_call h pod c) \<and>
      run_state (Update_Pod K (without_finalizer K pod)) w2 = (a, fst (world p')) \<and>
      r = (case a of Inl e \<Rightarrow> Inl e | Inr _ \<Rightarrow> Inr no_requeue)"
proof -
  define p1 where "p1 = p\<lparr>world := (w, proc_calls p @ [GetPod key])\<rparr>"
  define p2 where "p2 = snd (run_state (pod_recordTransition (traced K) key pod) p1)"
  obtain r p3 where del:
    "run_state (pod_handle_deletion (traced K) (traced_collector collect) pod) p2 = (r, p3)" by fastforce
  have "run_state (pod_add_finalizer (traced K) pod) p1 = (Inr pod, p1)"
    using assms(3) by (simp add: pod_add_finalizer_def)
  then have run: "run_state (pod_Reconcile (traced K) (traced_collector collect) key) p = (r, p3)"
    using run_pod_Reconcile_found [OF assms(1,2), of "traced_collector collect"] assms(3,4) del
    by (simp add: p1_def [symmetric] p2_def [symmetric] deletes_def)
  have calls: "proc_calls p2 = proc_calls p @ [GetPod key]"
    by (simp add: p2_def record_calls) (simp add: p1_def)
  from del obtain mid w2 a where "own p3 = own p2"
    "proc_calls p3 =
       proc_calls p2 @ [CollectLogsOf pod] @ mid @ [UpdatePod (without_finalizer K pod)]"
    "\<forall>c \<in> set mid. pod_inv_call (own p2) pod c"
    "run_state (Update_Pod K (without_finalizer K pod)) w2 = (a, fst (world p3))"
    "r = (case a of Inl e \<Rightarrow> Inl e | Inr _ \<Rightarrow> Inr no_requeue)" by (rule deletion_calls)
  with run calls show ?thesis
    by (intro exI [of _ mid] exI [of _ w2] exI [of _ a]) auto
qed

theorem deletion_collects_then_releases_witness:
  "\<exists>mid w2 a. let (r, p') = run_state (pod_Reconcile (traced sample_kube)
        (traced_collector (logs_of [])) pod_key)
        (fresh_pw Map.empty ((one_pod (dying_pod ''Running''))\<lparr>cl_down := [VUpdatePod]\<rparr>)) in
      proc_calls p' = [] @ [GetPod pod_key, CollectLogsOf (dying_pod ''Running'')] @ mid @
        [UpdatePod (without_finalizer sample_kube (dying_pod ''Running''))] \<and>
      (\<forall>c \<in> set mid. \<exists>h. pod_inv_call h (dying_pod ''Running'') c) \<and>
      run_state (Update_Pod sample_kube
        (without_finalizer sample_kube (dying_pod ''Running''))) w2 = (a, fst (world p')) \<and>
      r = (case a of Inl e \<Rightarrow> Inl e | Inr _ \<Rightarrow> Inr no_requeue)"
proof -
  let ?c = "(one_pod (dying_pod ''Running''))\<lparr>cl_down := [VUpdatePod]\<rparr>"
  let ?p = "fresh_pw Map.empty ?c"
  have get: "run_state (Get_Pod sample_kube pod_key) (fst (world ?p)) = (Inr (dying_pod ''Running''), ?c)"
    by (simp add: fresh_pw_def one_pod_def cluster_defs)
  have none: "proc_calls ?p = []" by (simp add: fresh_pw_def)
  show ?thesis
    using deletion_collects_then_releases [of sample_kube pod_key ?p, OF get, of "logs_of []"]
    unfolding none by simp
qed

text \<open>The trackers and the calls of the second half, in one statement.\<close>

definition histories_complete :: "(NamespacedName \<rightharpoonup> podTracker) \<Rightarrow> bool" where
  "histories_complete h \<longleftrightarrow> (\<forall>t \<in> ran h. pod_log.complete t)"

lemma second_half_about:
  assumes "run_state (if deletes K pod
       then pod_handle_deletion (traced K) (traced_collector collect) pod
       else pod_check_anomaly (traced K) pod) p = (r, p')"
  obtains new where "own p' = own p" and "proc_calls p' = proc_calls p @ new"
    and "\<forall>c \<in> set new. pod_inv_call (own p) pod c \<or>
           c \<in> {CollectLogsOf pod, UpdatePod (without_finalizer K pod)}"
proof (cases "deletes K pod")
  case True
  with assms have "run_state (pod_handle_deletion (traced K) (traced_collector collect) pod) p = (r, p')"
    by simp
  then obtain mid w2 a where "own p' = own p"
    "proc_calls p' =
       proc_calls p @ [CollectLogsOf pod] @ mid @ [UpdatePod (without_finalizer K pod)]"
    "\<forall>c \<in> set mid. pod_inv_call (own p) pod c"
    "run_state (Update_Pod K (without_finalizer K pod)) w2 = (a, fst (world p'))"
    "r = (case a of Inl e \<Rightarrow> Inl e | Inr _ \<Rightarrow> Inr no_requeue)" by (rule deletion_calls)
  then show ?thesis
    by (intro that [of "CollectLogsOf pod # mid @ [UpdatePod (without_finalizer K pod)]"]) auto
next
  case False
  with assms anomaly_calls [of p pod K] show ?thesis
    by (auto simp: steady_def intro: that)
qed

lemma pod_tracker_complete: "histories_complete h \<Longrightarrow> pod_log.complete (pod_tracker_of h key)"
  by (auto simp: histories_complete_def pod_tracker_of_def ran_def pod_log.complete_start
      split: option.split)

lemma histories_complete_upd:
  "histories_complete h \<Longrightarrow> pod_log.complete t \<Longrightarrow> histories_complete (h(key \<mapsto> t))"
  by (auto simp: histories_complete_def ran_def)

lemma histories_complete_del: "histories_complete h \<Longrightarrow> histories_complete (h(key := None))"
  by (auto simp: histories_complete_def ran_def)

text \<open>The snapshot of a pod whose tracker was just updated tells how the pod came to its phase.\<close>

definition history_explains :: "Investigation \<Rightarrow> bool" where
  "history_explains iv \<longleftrightarrow>
     (case sp_Pod (inv_Spec iv) of None \<Rightarrow> False
      | Some info \<Rightarrow> pi_Phase info \<noteq> [] \<longrightarrow> linked [] (pi_PhaseHistory info) (pi_Phase info))"

lemma buildPodInfo_phase [simp]: "pi_Phase (buildPodInfo h pod) = pod_Phase pod"
  by (simp add: buildPodInfo_def buildPodInfoFromPod_def)

lemma history_explains_built:
  assumes "histories_complete h" and "key_of (pod_Meta pod) = key"
    and "h' = h(key \<mapsto> observe_pod (pod_Phase pod) now (pod_tracker_of h key))"
    and "sp_Pod (inv_Spec iv) = Some (buildPodInfo h' pod)"
  shows "history_explains iv"
  using assms pod_log.complete_observe [OF pod_tracker_complete [OF assms(1), of key],
      of "pod_Phase pod" now]
  by (cases "pod_Phase pod = []")
    (simp_all add: history_explains_def buildPodInfo_def pod_log.complete_def
      pod_log.last_phase_observe buildPodInfoFromPod_def)

lemma history_explains_call:
  assumes "pod_inv_call h' pod c \<or> c \<in> {CollectLogsOf pod, UpdatePod (without_finalizer K pod)}"
    and "histories_complete h" and "key_of (pod_Meta pod) = key"
    and "h' = h(key \<mapsto> observe_pod (pod_Phase pod) now (pod_tracker_of h key))"
    and "c \<in> {CreateInvestigation iv, UpdateInvestigation iv}"
  shows "history_explains iv"
  using assms history_explains_built [OF assms(2,3,4)] by auto

text \<open>The API server answers with the object it was asked for.\<close>

definition answers_key :: "'w runtime \<Rightarrow> bool" where
  "answers_key K \<longleftrightarrow>
     (\<forall>k w pod w'. run_state (Get_Pod K k) w = (Inr pod, w') \<longrightarrow> key_of (pod_Meta pod) = k) \<and>
     (\<forall>p w pod w'. run_state (Update_Pod K p) w = (Inr pod, w') \<longrightarrow>
        key_of (pod_Meta pod) = key_of (pod_Meta p))"

lemma add_finalizer_calls:
  assumes "run_state (pod_add_finalizer (traced K) pod) p = (a, p')"
  shows "own p' = own p \<and>
    (\<exists>new. proc_calls p' = proc_calls p @ new \<and> (\<forall>c \<in> set new. \<exists>q. c = UpdatePod q))"
  using assms by (auto simp: pod_add_finalizer_def split: if_splits prod.splits)

lemma key_of_AddFinalizer: "finalizer_laws K \<Longrightarrow> key_of (AddFinalizer K m f) = key_of m"
  by (simp add: finalizer_laws_def key_of_def)

lemma add_finalizer_key:
  assumes "finalizer_laws K" and "answers_key K"
    and "run_state (pod_add_finalizer (traced K) pod) p = (Inr pod', p')"
  shows "key_of (pod_Meta pod') = key_of (pod_Meta pod)"
proof (cases "\<not> being_deleted (pod_Meta pod) \<and> \<not> has_log_finalizer K pod")
  case True
  let ?q = "pod\<lparr>pod_Meta := AddFinalizer K (pod_Meta pod) logCollectorFinalizer\<rparr>"
  obtain a w where upd: "run_state (Update_Pod K ?q) (fst (world p)) = (a, w)" by fastforce
  with True assms(3) have "a = Inr pod'"
    by (simp add: pod_add_finalizer_def has_log_finalizer_def)
  with upd assms(2) have "key_of (pod_Meta pod') = key_of (pod_Meta ?q)"
    unfolding answers_key_def by blast
  then show ?thesis by (simp add: key_of_AddFinalizer [OF assms(1)])
next
  case False
  with assms(3) show ?thesis
    by (auto simp: pod_add_finalizer_def has_log_finalizer_def split: if_splits)
qed

text \<open>A runner that was found and whose finalizer is settled: the histories stay complete and
  every Investigation it leads to is explained by its pod's history.\<close>

lemma rest_explained:
  assumes complete: "histories_complete (own p)" and key: "key_of (pod_Meta pod) = key"
    and p3: "p3 = snd (run_state (pod_recordTransition (traced K) key pod) p)"
    and run: "run_state (if deletes K pod
          then pod_handle_deletion (traced K) (traced_collector collect) pod
          else pod_check_anomaly (traced K) pod) p3 = (r, p')"
  obtains new where "histories_complete (own p')" and "proc_calls p' = proc_calls p @ new"
    and "\<And>c iv. c \<in> set new \<Longrightarrow> c \<in> {CreateInvestigation iv, UpdateInvestigation iv} \<Longrightarrow>
           history_explains iv"
proof -
  obtain now where own3:
    "own p3 = (own p)(key \<mapsto> observe_pod (pod_Phase pod) now (pod_tracker_of (own p) key))"
    using record_own [of K key pod p] by (auto simp: p3)
  have calls3: "proc_calls p3 = proc_calls p" by (simp add: p3 record_calls)
  from run obtain new where new: "own p' = own p3" "proc_calls p' = proc_calls p3 @ new"
      "\<forall>c \<in> set new. pod_inv_call (own p3) pod c \<or>
         c \<in> {CollectLogsOf pod, UpdatePod (without_finalizer K pod)}"
    by (rule second_half_about)
  have "histories_complete (own p')"
    unfolding new(1) own3 using complete
    by (intro histories_complete_upd pod_log.complete_observe pod_tracker_complete)
  moreover have "history_explains iv"
    if "c \<in> set new" "c \<in> {CreateInvestigation iv, UpdateInvestigation iv}" for c iv
    using that history_explains_call [OF _ complete key own3] new(3) by blast
  ultimately show thesis using that new(2) calls3 by simp
qed

text \<open>C24: the phase histories are true: when the API server answers with the objects it is asked for,
  a Reconcile keeps every tracker's history a connected chain of changes from the unknown phase to the
  phase last seen, and every Investigation it creates or updates carries a history that ends in the
  very phase its pod snapshot reports.\<close>

theorem pod_histories_linked:
  assumes laws: "finalizer_laws K" "answers_key K" and complete: "histories_complete (own p)"
    and run: "run_state (pod_Reconcile (traced K) (traced_collector collect) key) p = (r, p')"
  shows "histories_complete (own p') \<and>
    (\<exists>new. proc_calls p' = proc_calls p @ new \<and>
       (\<forall>c \<in> set new. \<forall>iv. c \<in> {CreateInvestigation iv, UpdateInvestigation iv} \<longrightarrow> history_explains iv))"
proof -
  obtain g w where g: "run_state (Get_Pod K key) (fst (world p)) = (g, w)" by fastforce
  show ?thesis
  proof (cases "\<exists>pod. g = Inr pod \<and> label (pod_Meta pod) arcRunnerLabel = ''True''")
    case False
    with g run complete show ?thesis
      by (cases g) (auto simp: pod_Reconcile_def histories_complete_del split: if_splits)
  next
    case True
    then obtain pod where pod: "g = Inr pod" "label (pod_Meta pod) arcRunnerLabel = ''True''" by blast
    define p1 where "p1 = p\<lparr>world := (w, proc_calls p @ [GetPod key])\<rparr>"
    obtain a p2 where a: "run_state (pod_add_finalizer (traced K) pod) p1 = (a, p2)" by fastforce
    note add = add_finalizer_calls [OF a]
    note found = run_pod_Reconcile_found [OF g [unfolded pod(1)] pod(2), of "traced_collector collect",
        folded p1_def, unfolded a]
    show ?thesis
    proof (cases a)
      case (Inl e)
      with found run add complete show ?thesis by (force simp: p1_def)
    next
      case (Inr pod')
      have key: "key_of (pod_Meta pod') = key"
        using add_finalizer_key [OF laws a [unfolded Inr]] laws(2) g pod(1)
        by (auto simp: answers_key_def)
      have complete2: "histories_complete (own p2)" using add complete by (simp add: p1_def)
      have "run_state (if deletes K pod'
          then pod_handle_deletion (traced K) (traced_collector collect) pod'
          else pod_check_anomaly (traced K) pod')
          (snd (run_state (pod_recordTransition (traced K) key pod') p2)) = (r, p')"
        using found run Inr by (simp add: Let_def split: if_splits)
      from rest_explained [OF complete2 key refl this] obtain new where
        new: "histories_complete (own p')" "proc_calls p' = proc_calls p2 @ new"
          "\<And>c iv. c \<in> set new \<Longrightarrow> c \<in> {CreateInvestigation iv, UpdateInvestigation iv} \<Longrightarrow>
             history_explains iv" by blast
      from add obtain first where "proc_calls p2 = proc_calls p @ GetPod key # first"
          "\<forall>c \<in> set first. \<exists>q. c = UpdatePod q" by (auto simp: p1_def)
      with new show ?thesis by fastforce
    qed
  qed
qed

lemma sample_answers_key: "answers_key sample_kube"
  by (auto simp: answers_key_def find_pod_def update_pod_def find_Some_iff split: if_splits option.splits)

text \<open>The pod has been Pending; now its container has crashed.\<close>

definition crashed_pod :: Pod where
  "crashed_pod = (dying_pod ''Failed'')\<lparr>
     pod_Meta := (pod_Meta (dying_pod ''Failed''))\<lparr>om_DeletionTimestamp := None\<rparr>,
     pod_ContainerStatuses :=
       [\<lparr>cs_Name = ''main'', cs_RestartCount = 0, cs_Waiting = None, cs_Running = False,
         cs_Terminated = Some (''Error'', 1)\<rparr>]\<rparr>"

definition seen_pending :: "NamespacedName \<rightharpoonup> podTracker" where
  "seen_pending = [pod_key \<mapsto> observe_pod ''Pending'' 3 new_podTracker]"

theorem pod_histories_linked_witness:
  "let p = fresh_pw seen_pending (one_pod crashed_pod);
       p' = snd (run_state (pod_Reconcile (traced sample_kube)
              (traced_collector (logs_of [])) pod_key) p)
   in histories_complete (own p') \<and>
      (\<exists>new. proc_calls p' = proc_calls p @ new \<and>
         (\<forall>c \<in> set new. \<forall>iv. c \<in> {CreateInvestigation iv, UpdateInvestigation iv} \<longrightarrow>
            history_explains iv))"
proof -
  let ?p = "fresh_pw seen_pending (one_pod crashed_pod)"
  let ?m = "pod_Reconcile (traced sample_kube) (traced_collector (logs_of [])) pod_key"
  have "histories_complete (own ?p)"
    by (simp add: fresh_pw_def seen_pending_def histories_complete_def pod_log.complete_observe
        pod_log.complete_start)
  from pod_histories_linked [OF sample_finalizer_laws sample_answers_key this, of "logs_of []" pod_key
      "fst (run_state ?m ?p)" "snd (run_state ?m ?p)"]
  show ?thesis unfolding Let_def by simp
qed

text \<open>C25: when the logs of a deleted pod are collected and its Investigation exists already, the
  Investigation keeps its metadata, trigger, timeline, diagnosis and status and gets the new log
  paths after the old ones, and nothing is created; but its pod snapshot is replaced by one without
  events, so the Kubernetes events the correlator had collected in it are lost.\<close>

theorem deletion_appends_logs_and_drops_events:
  assumes "run_state (Get_Investigation K (pod_inv_key pod)) (fst (world p)) = (Inr iv, w)"
  shows "\<exists>iv'. let p' = snd (run_state (ensureInvestigation (traced K) pod paths) p) in
      proc_calls p' = proc_calls p @ [GetInvestigation (pod_inv_key pod), UpdateInvestigation iv'] \<and>
      counter p' = counter p \<and>
      inv_Meta iv' = inv_Meta iv \<and> inv_Status iv' = inv_Status iv \<and>
      sp_LogPaths (inv_Spec iv') = sp_LogPaths (inv_Spec iv) @ paths \<and>
      sp_Trigger (inv_Spec iv') = sp_Trigger (inv_Spec iv) \<and>
      sp_Timeline (inv_Spec iv') = sp_Timeline (inv_Spec iv) \<and>
      sp_Diagnosis (inv_Spec iv') = sp_Diagnosis (inv_Spec iv) \<and>
      (\<exists>info. sp_Pod (inv_Spec iv') = Some info \<and> pi_Events info = [])"
proof -
  let ?sp = "inv_Spec iv"
  let ?iv = "iv\<lparr>inv_Spec := ?sp\<lparr>sp_LogPaths := sp_LogPaths ?sp @ paths,
                                 sp_Pod := Some (buildPodInfo (own p) pod)\<rparr>\<rparr>"
  show ?thesis
    by (rule exI [of _ ?iv])
      (simp add: ensureInvestigation_def assms Let_def buildPodInfo_def buildPodInfoFromPod_def
        split: prod.split)
qed

definition events_investigation :: Investigation where
  "events_investigation =
     new_investigation (new_meta ''ns'' ''pod-runner'')
       ((new_spec ''pod-crash'' ''ns/runner'')\<lparr>sp_LogPaths := [''a.log''],
          sp_Pod := Some ((buildPodInfoFromPod crashed_pod)\<lparr>pi_Events :=
            [\<lparr>ev_Type = ''Warning'', ev_Reason = ''BackOff'', ev_Message = ''m'', ev_Count = 3,
              ev_Source = ''kubelet'', ev_FirstSeen = 1, ev_LastSeen = 2\<rparr>]\<rparr>)\<rparr>)"

theorem deletion_appends_logs_and_drops_events_witness:
  "\<exists>iv'. let p = fresh_pw Map.empty
          ((one_pod (dying_pod ''Failed''))\<lparr>cl_invs := [(pod_inv_key (dying_pod ''Failed''),
             events_investigation)]\<rparr>);
        p' = snd (run_state (ensureInvestigation (traced sample_kube) (dying_pod ''Failed'') [''b.log'']) p)
      in UpdateInvestigation iv' \<in> set (proc_calls p') \<and>
         sp_LogPaths (inv_Spec iv') = [''a.log'', ''b.log''] \<and>
         (\<exists>info. sp_Pod (inv_Spec events_investigation) = Some info \<and> pi_Events info \<noteq> []) \<and>
         (\<exists>info. sp_Pod (inv_Spec iv') = Some info \<and> pi_Events info = [])"
proof -
  let ?c = "(one_pod (dying_pod ''Failed''))\<lparr>cl_invs := [(pod_inv_key (dying_pod ''Failed''),
             events_investigation)]\<rparr>"
  have "run_state (Get_Investigation sample_kube (pod_inv_key (dying_pod ''Failed'')))
      (fst (world (fresh_pw Map.empty ?c))) = (Inr events_investigation, ?c)"
    by (simp add: fresh_pw_def one_pod_def empty_cluster_def find_in_def)
  from deletion_appends_logs_and_drops_events [OF this, of "[''b.log'']"]
  show ?thesis
    unfolding Let_def by (rule ex_forward) (auto simp: events_investigation_def)
qed

end
