(* ===== verification/ERWatcher.thy ===== *)
theory ERWatcher
  imports Submit Tracker Cluster
begin

text \<open>
  \<open>internal/controller/ephemeralrunner_watcher.go\<close>: the watcher of the EphemeralRunner objects. It
  opens an Investigation for a runner that is Failed and older than one threshold, or that has been
  seen Running without interruption for longer than another, and asks to be called again when the
  threshold will be reached.
\<close>

section \<open>State\<close>

record EphemeralRunnerWatcher =
  StuckThreshold :: duration
  RunningThreshold :: duration

record erTracker =
  et_lastPhase :: string
  et_runningSince :: "time option"
  et_transitions :: "StatusTransition list"

type_synonym 'w erw = "(InvestigationCounter, NamespacedName \<rightharpoonup> erTracker, 'w) proc"

text \<open>A new watcher: its thresholds, and no runner seen.\<close>

definition NewEphemeralRunnerWatcher ::
  "duration \<Rightarrow> duration \<Rightarrow> EphemeralRunnerWatcher \<times> (NamespacedName \<rightharpoonup> erTracker)" where
  "NewEphemeralRunnerWatcher stuckThreshold runningThreshold =
     (\<lparr>StuckThreshold = stuckThreshold, RunningThreshold = runningThreshold\<rparr>, Map.empty)"

definition new_erTracker :: erTracker where
  "new_erTracker = \<lparr>et_lastPhase = [], et_runningSince = None, et_transitions = []\<rparr>"

definition er_tracker_of :: "(NamespacedName \<rightharpoonup> erTracker) \<Rightarrow> NamespacedName \<Rightarrow> erTracker" where
  "er_tracker_of h key = (case h key of None \<Rightarrow> new_erTracker | Some t \<Rightarrow> t)"

section \<open>Operations\<close>

text \<open>
  The change of the tracker. The time stamp of the transition and the start of the run are two
  readings of the clock.
\<close>

definition observe_er :: "string \<Rightarrow> time \<Rightarrow> time \<Rightarrow> erTracker \<Rightarrow> erTracker" where
  "observe_er phase started now t =
     (if et_lastPhase t \<noteq> phase
      then t\<lparr>et_transitions := et_transitions t @
               [\<lparr>st_From = et_lastPhase t, st_To = phase, st_Timestamp = now\<rparr>],
             et_lastPhase := phase,
             et_runningSince := (if phase = ''Running'' then Some started else None)\<rparr>
      else t)"

interpretation er_log:
  transition_log "\<lambda>phase. True" "\<lambda>phase. observe_er phase started" et_lastPhase et_transitions
    new_erTracker
  for started
  by unfold_locales (auto simp: observe_er_def new_erTracker_def)

definition er_recordTransition :: "'w runtime \<Rightarrow> NamespacedName \<Rightarrow> string \<Rightarrow> ('w erw, unit) state" where
  "er_recordTransition K key phase = do {
     h \<leftarrow> gets own;
     (let t = er_tracker_of h key in
      if et_lastPhase t \<noteq> phase then do {
        now \<leftarrow> outside (Now K);
        started \<leftarrow> (if phase = ''Running'' then outside (Now K) else ret now);
        modify (\<lambda>p. p\<lparr>own := h(key \<mapsto> observe_er phase started now t)\<rparr>)
      }
      else modify (\<lambda>p. p\<lparr>own := h(key \<mapsto> t)\<rparr>))
   }"

definition er_inv_name :: "Unstructured \<Rightarrow> string" where
  "er_inv_name er = ''er-'' @ om_Name (un_Meta er)"

definition er_inv_key :: "Unstructured \<Rightarrow> NamespacedName" where
  "er_inv_key er = \<lparr>nn_Namespace = om_Namespace (un_Meta er), nn_Name = er_inv_name er\<rparr>"

definition er_new_investigation ::
  "(NamespacedName \<rightharpoonup> erTracker) \<Rightarrow> time \<Rightarrow> Unstructured \<Rightarrow> string \<Rightarrow> string \<Rightarrow> Investigation" where
  "er_new_investigation h now er triggerType phase =
     (let m = un_Meta er in
      new_investigation (new_meta (om_Namespace m) (er_inv_name er))
        ((new_spec triggerType (om_Namespace m @ ''/'' @ om_Name m))
           \<lparr>sp_EphemeralRunner := Some
              \<lparr>er_Name = om_Name m, er_Namespace = om_Namespace m, er_Phase = phase,
               er_StatusHistory =
                 (case h (key_of m) of None \<Rightarrow> [] | Some t \<Rightarrow> et_transitions t)\<rparr>,
            sp_Timeline :=
              [\<lparr>tl_Timestamp = now, tl_Source = ''ephemeralrunner'', tl_Type = triggerType,
                tl_Message = ''EphemeralRunner '' @ om_Name m @ '' in '' @ phase @ '' state''\<rparr>]\<rparr>))"

definition er_createInvestigation ::
  "'w runtime \<Rightarrow> Unstructured \<Rightarrow> string \<Rightarrow> string \<Rightarrow> ('w erw, go_error option) state" where
  "er_createInvestigation K er triggerType phase = do {
     r \<leftarrow> outside (Get_Investigation K (er_inv_key er));
     (case r of
        Inr iv \<Rightarrow> ret None
      | Inl e \<Rightarrow> do {
          granted \<leftarrow> counter_TryIncrement;
          if \<not> granted then ret None
          else do {
            h \<leftarrow> gets own;
            now \<leftarrow> outside (Now K);
            submit K (er_new_investigation h now er triggerType phase)
          }
        })
   }"

definition result_of :: "go_error option \<Rightarrow> go_error + Result" where
  "result_of err = (case err of Some e \<Rightarrow> Inl e | None \<Rightarrow> Inr no_requeue)"

definition handleFailed ::
  "'w runtime \<Rightarrow> EphemeralRunnerWatcher \<Rightarrow> Unstructured \<Rightarrow> string \<Rightarrow> ('w erw, go_error + Result) state"
where
  "handleFailed K r er phase = do {
     now \<leftarrow> outside (Now K);
     (let age = Sub now (om_CreationTimestamp (un_Meta er)) in
      if age < StuckThreshold r then
        ret (Inr \<lparr>RequeueAfter = wrap64 (StuckThreshold r - age)\<rparr>)
      else do {
        err \<leftarrow> er_createInvestigation K er ''runner-stuck'' phase;
        ret (result_of err)
      })
   }"

definition handleRunning ::
  "'w runtime \<Rightarrow> EphemeralRunnerWatcher \<Rightarrow> NamespacedName \<Rightarrow> Unstructured \<Rightarrow> string \<Rightarrow>
   ('w erw, go_error + Result) state"
where
  "handleRunning K r key er phase = do {
     h \<leftarrow> gets own;
     (case Option.bind (h key) et_runningSince of
        None \<Rightarrow> ret (Inr \<lparr>RequeueAfter = RunningThreshold r\<rparr>)
      | Some since \<Rightarrow> do {
          now \<leftarrow> outside (Now K);
          (let elapsed = Sub now since in
           if elapsed < RunningThreshold r then
             ret (Inr \<lparr>RequeueAfter = wrap64 (RunningThreshold r - elapsed)\<rparr>)
           else do {
             err \<leftarrow> er_createInvestigation K er ''runner-stuck'' phase;
             ret (result_of err)
           })
        })
   }"

definition er_Reconcile ::
  "'w runtime \<Rightarrow> EphemeralRunnerWatcher \<Rightarrow> NamespacedName \<Rightarrow> ('w erw, go_error + Result) state" where
  "er_Reconcile K r key = do {
     g \<leftarrow> outside (Get_ER K key);
     (case g of
        Inl e \<Rightarrow>
          if IsNotFound e then do {
            modify (\<lambda>p. p\<lparr>own := (own p)(key := None)\<rparr>);
            ret (Inr no_requeue)
          }
          else ret (Inl e)
      | Inr er \<Rightarrow>
          (let phase = getNestedString er [''status'', ''phase''] in
           if phase = [] then ret (Inr no_requeue)
           else do {
             er_recordTransition K key phase;
             if phase = ''Failed'' then handleFailed K r er phase
             else if phase = ''Running'' then handleRunning K r key er phase
             else ret (Inr no_requeue)
           }))
   }"

section \<open>What the operations call\<close>

lemma er_create_first:
  "\<exists>new. proc_calls (snd (run_state (er_createInvestigation (traced K) er ''runner-stuck'' phase) p)) =
      proc_calls p @ GetInvestigation (er_inv_key er) # new"
proof -
  obtain g w where g: "run_state (Get_Investigation K (er_inv_key er)) (fst (world p)) = (g, w)"
    by fastforce
  define q where "q = p\<lparr>world := (w, proc_calls p @ [GetInvestigation (er_inv_key er)])\<rparr>"
  define m where "m = (case g of
        Inr iv \<Rightarrow> ret None
      | Inl e \<Rightarrow> do {
          granted \<leftarrow> counter_TryIncrement;
          if \<not> granted then ret None
          else do {
            h \<leftarrow> gets own;
            now \<leftarrow> outside (Now (traced K));
            submit (traced K) (er_new_investigation h now er ''runner-stuck'' phase)
          }
        })"
  have "state_io_rel (steady (own q) (\<lambda>c. True)) m"
    unfolding m_def traced_simps by (intro steady_rules steady_submit) auto
  from state_io_rel_run [OF this, of q]
  obtain new where "proc_calls (snd (run_state m q)) = proc_calls q @ new"
    by (auto simp: steady_def)
  then show ?thesis
    by (auto simp: er_createInvestigation_def g m_def q_def cong: sum.case_cong)
qed

lemma er_record_own:
  assumes "reads_clock K clk"
  shows "run_state (er_recordTransition (traced K) key phase) p =
    ((), p\<lparr>own := (own p)(key \<mapsto> observe_er phase (clk (fst (world p))) (clk (fst (world p)))
       (er_tracker_of (own p) key))\<rparr>)"
  by (cases p) (auto simp: er_recordTransition_def observe_er_def Let_def reads_clockD [OF assms])

section \<open>Properties\<close>

definition er_phase :: "Unstructured \<Rightarrow> string" where
  "er_phase er = getNestedString er [''status'', ''phase'']"

text \<open>Since when the runner is in the state that is watched, and for how long that is tolerated.\<close>

definition er_since :: "Unstructured \<Rightarrow> erTracker \<Rightarrow> time option" where
  "er_since er t =
     (if er_phase er = ''Failed'' then Some (om_CreationTimestamp (un_Meta er))
      else if er_phase er = ''Running'' then et_runningSince t
      else None)"

definition er_tolerated :: "EphemeralRunnerWatcher \<Rightarrow> Unstructured \<Rightarrow> duration" where
  "er_tolerated r er = (if er_phase er = ''Failed'' then StuckThreshold r else RunningThreshold r)"

text \<open>The second half of a Reconcile: what is done with a runner that was found, once its phase is
  recorded. It creates the Investigation of an overdue runner and otherwise only asks to be woken.\<close>

abbreviation er_handle ::
  "'w runtime \<Rightarrow> EphemeralRunnerWatcher \<Rightarrow> NamespacedName \<Rightarrow> Unstructured \<Rightarrow>
   ('w erw, go_error + Result) state"
where
  "er_handle K r key er \<equiv>
     (if er_phase er = ''Failed'' then handleFailed K r er (er_phase er)
      else if er_phase er = ''Running'' then handleRunning K r key er (er_phase er)
      else ret (Inr no_requeue))"

abbreviation er_report ::
  "'w runtime \<Rightarrow> Unstructured \<Rightarrow> ('w erw, go_error + Result) state"
where
  "er_report K er \<equiv>
     State_Monad.bind (er_createInvestigation K er ''runner-stuck'' (er_phase er))
       (\<lambda>err. ret (result_of err))"

definition er_overdue :: "EphemeralRunnerWatcher \<Rightarrow> time \<Rightarrow> erTracker \<Rightarrow> Unstructured \<Rightarrow> bool" where
  "er_overdue r now t er \<longleftrightarrow> (\<exists>since. er_since er t = Some since \<and> er_tolerated r er \<le> Sub now since)"

lemma run_er_Reconcile_found:
  assumes "reads_clock K clk" and "run_state (Get_ER K key) (fst (world p)) = (Inr er, w)"
    and "er_phase er \<noteq> []"
  shows "run_state (er_Reconcile (traced K) r key) p = run_state (er_handle (traced K) r key er)
    (p\<lparr>own := (own p)(key \<mapsto> observe_er (er_phase er) (clk w) (clk w) (er_tracker_of (own p) key)),
       world := (w, proc_calls p @ [GetER key])\<rparr>)"
  using assms(2,3)
  by (auto simp: er_Reconcile_def er_record_own [OF assms(1)] Let_def er_phase_def [symmetric])

lemma run_er_handle_due:
  assumes "reads_clock K clk" and "own q key = Some t"
    and "er_overdue r (clk (fst (world q))) t er"
  shows "run_state (er_handle (traced K) r key er) q = run_state (er_report (traced K) er) q"
  using assms(2,3)
  by (auto simp: handleFailed_def handleRunning_def Let_def er_tolerated_def er_overdue_def
      er_since_def reads_clockD [OF assms(1)] split: if_splits)

lemma run_er_handle_early:
  assumes "reads_clock K clk" and "own q key = Some t"
    and "\<not> er_overdue r (clk (fst (world q))) t er"
  shows "snd (run_state (er_handle (traced K) r key er) q) = q"
    and "er_since er t = Some since \<Longrightarrow> fst (run_state (er_handle (traced K) r key er) q) =
      Inr \<lparr>RequeueAfter = wrap64 (er_tolerated r er - Sub (clk (fst (world q))) since)\<rparr>"
  using assms(2,3)
  by (auto simp: handleFailed_def handleRunning_def Let_def er_tolerated_def er_overdue_def
      er_since_def reads_clockD [OF assms(1)] split: if_splits option.splits)

lemma er_report_steady:
  assumes "\<And>now. P (CreateInvestigation (er_new_investigation h now er ''runner-stuck'' (er_phase er)))"
    and "\<And>iv. P (StatusUpdateInvestigation iv)" and "P (GetInvestigation (er_inv_key er))"
  shows "state_io_rel (steady h P) (er_report (traced K) er)"
  unfolding er_createInvestigation_def traced_simps
  using assms by (intro steady_rules steady_submit) auto

lemma requeue_exact:
  assumes "is_int64 d" and "since \<le> now" and "Sub now since < d"
  shows "0 < wrap64 (d - Sub now since)" and "wrap64 (d - Sub now since) \<le> d"
    and "Sub later since < d \<longleftrightarrow> later < now + wrap64 (d - Sub now since)"
proof -
  have nonneg: "0 \<le> Sub now since"
    using assms(2) by (simp add: Sub_def maxDuration_def minDuration_def)
  then have d: "minDuration < d" using assms(3) by (simp add: minDuration_def)
  then have "now - since < d" using assms(1,3) by (simp add: Sub_less_iff)
  then have sub: "Sub now since = now - since"
    using assms(1,2) by (intro Sub_exact) (simp add: is_int64_def)
  have wrap: "wrap64 (d - Sub now since) = d - Sub now since"
    using assms(1,3) nonneg by (intro wrap64_id) (simp add: is_int64_def)
  show "0 < wrap64 (d - Sub now since)" using wrap assms(3) by simp
  show "wrap64 (d - Sub now since) \<le> d" using wrap nonneg by simp
  show "Sub later since < d \<longleftrightarrow> later < now + wrap64 (d - Sub now since)"
    unfolding wrap unfolding sub Sub_less_iff [OF assms(1) d] by auto
qed

text \<open>C17: the wake-up of the runner watcher is exact. Let a runner be Failed since its creation, or
  Running since the start of its current run, and the clock stand still during the step. While the
  tolerated time has not passed, a Reconcile changes neither the cluster nor the counter and asks to be
  called again after a positive time, and it is at that moment, not earlier and not later, that the
  time will have passed; once it has passed, a Reconcile goes on to look for the runner's Investigation
  in order to create it.\<close>

theorem er_wakeup_exact:
  assumes clock: "reads_clock K clk"
    and get: "run_state (Get_ER K key) (fst (world p)) = (Inr er, w)"
    and t: "t = observe_er (er_phase er) (clk w) (clk w) (er_tracker_of (own p) key)"
    and since: "er_since er t = Some since" "since \<le> clk w"
    and d: "is_int64 (er_tolerated r er)"
  shows "let (a, p') = run_state (er_Reconcile (traced K) r key) p in
    own p' key = Some t \<and>
    (if Sub (clk w) since < er_tolerated r er then
       proc_calls p' = proc_calls p @ [GetER key] \<and> fst (world p') = w \<and> counter p' = counter p \<and>
       (\<exists>again. a = Inr \<lparr>RequeueAfter = again\<rparr> \<and> 0 < again \<and> again \<le> er_tolerated r er \<and>
          (\<forall>later. Sub later since < er_tolerated r er \<longleftrightarrow> later < clk w + again))
     else \<exists>new. proc_calls p' = proc_calls p @ [GetER key, GetInvestigation (er_inv_key er)] @ new)"
proof -
  define q where
    "q = p\<lparr>own := (own p)(key \<mapsto> t), world := (w, proc_calls p @ [GetER key])\<rparr>"
  have q: "own q key = Some t" "fst (world q) = w" by (simp_all add: q_def)
  have "er_phase er \<noteq> []" using since(1) by (auto simp: er_since_def split: if_splits)
  from run_er_Reconcile_found [OF clock get this, of r]
  have run: "run_state (er_Reconcile (traced K) r key) p = run_state (er_handle (traced K) r key er) q"
    by (simp add: q_def t)
  have due: "er_overdue r (clk w) t er \<longleftrightarrow> \<not> Sub (clk w) since < er_tolerated r er"
    by (auto simp: er_overdue_def since(1))
  show ?thesis
  proof (cases "Sub (clk w) since < er_tolerated r er")
    case True
    with due have "run_state (er_handle (traced K) r key er) q =
        (Inr \<lparr>RequeueAfter = wrap64 (er_tolerated r er - Sub (clk w) since)\<rparr>, q)"
      using run_er_handle_early [OF clock q(1)] since(1) by (intro prod_eqI) (simp_all add: q)
    with True show ?thesis
      unfolding run using requeue_exact [OF d since(2) True] by (simp add: q_def)
  next
    case False
    obtain a p' where m: "run_state (er_report (traced K) er) q = (a, p')" by fastforce
    have "own p' = own q"
      using state_io_rel_run [OF er_report_steady [where P = "\<lambda>c. True" and h = "own q" and K = K and
          er = er], of q] m
      by (simp add: steady_def)
    moreover have "\<exists>new. proc_calls p' = proc_calls q @ GetInvestigation (er_inv_key er) # new"
      using er_create_first [of K er "er_phase er" q] m by (auto split: prod.splits)
    ultimately show ?thesis
      unfolding run using run_er_handle_due [OF clock q(1), of r er] due False m by (auto simp: q_def)
  qed
qed

definition sample_er :: "time \<Rightarrow> string \<Rightarrow> Unstructured" where
  "sample_er born phase =
     \<lparr>un_Meta = (new_meta ''ns'' ''runner-1'')\<lparr>om_CreationTimestamp := born\<rparr>,
      un_NestedString = (\<lambda>path. if path = [''status'', ''phase''] then Some phase else None)\<rparr>"

definition er_key :: NamespacedName where
  "er_key = \<lparr>nn_Namespace = ''ns'', nn_Name = ''runner-1''\<rparr>"

lemma er_phase_sample [simp]: "er_phase (sample_er born phase) = phase"
  by (simp add: er_phase_def getNestedString_def sample_er_def)

definition one_er :: "time \<Rightarrow> Unstructured \<Rightarrow> cluster" where
  "one_er now er = empty_cluster\<lparr>cl_ers := [(er_key, er)], cl_time := now\<rparr>"

definition fresh_erw ::
  "(NamespacedName \<rightharpoonup> erTracker) \<Rightarrow> cluster \<Rightarrow> (cluster \<times> call list) erw" where
  "fresh_erw h c = \<lparr>counter = \<lparr>ic_count = 0, ic_max = 3\<rparr>, own = h, world = (c, [])\<rparr>"

definition five_thirty :: EphemeralRunnerWatcher where
  "five_thirty = \<lparr>StuckThreshold = 5 * Minute, RunningThreshold = 30 * Minute\<rparr>"

theorem er_wakeup_exact_witness:
  "let p = fresh_erw Map.empty (one_er (2 * Minute) (sample_er 1 ''Failed''));
       (a, p') = run_state (er_Reconcile (traced sample_kube) five_thirty er_key) p
   in proc_calls p' = [GetER er_key] \<and>
      (\<exists>again. a = Inr \<lparr>RequeueAfter = again\<rparr> \<and> 0 < again \<and> again \<le> 5 * Minute)"
proof -
  let ?er = "sample_er 1 ''Failed''"
  let ?c = "one_er (2 * Minute) ?er"
  let ?p = "fresh_erw Map.empty ?c"
  have get: "run_state (Get_ER sample_kube er_key) (fst (world ?p)) = (Inr ?er, ?c)"
    by (simp add: fresh_erw_def one_er_def empty_cluster_def find_in_def)
  have since: "er_since ?er t = Some 1" for t
    by (simp add: er_since_def) (simp add: sample_er_def)
  have tol: "er_tolerated five_thirty ?er = 5 * Minute"
    by (simp add: er_tolerated_def five_thirty_def)
  have less: "Sub (cl_time ?c) 1 < er_tolerated five_thirty ?er"
    by (simp add: tol one_er_def Sub_def maxDuration_def minDuration_def duration_units)
  have le: "1 \<le> cl_time ?c" "is_int64 (er_tolerated five_thirty ?er)"
    by (simp_all add: tol one_er_def duration_units is_int64_def)
  have none: "proc_calls ?p = []" by (simp add: fresh_erw_def)
  show ?thesis
    using er_wakeup_exact [where p = ?p, OF sample_clock get refl since le] less
    by (simp add: Let_def tol none split: prod.splits) blast
qed

subsection \<open>The start of the current run\<close>

text \<open>The tracker after a sequence of observed phases, each with its time.\<close>

definition er_seen :: "(string \<times> time) list \<Rightarrow> erTracker" where
  "er_seen obs = fold (\<lambda>(phase, now). observe_er phase now now) obs new_erTracker"

lemma er_seen_snoc: "er_seen (obs @ [(phase, now)]) = observe_er phase now now (er_seen obs)"
  by (simp add: er_seen_def)

lemma er_seen_last:
  "et_lastPhase (er_seen obs) = (if obs = [] then [] else fst (last obs))"
  by (induction obs rule: rev_induct)
    (auto simp: er_seen_def new_erTracker_def observe_er_def)

definition running_from :: "time \<Rightarrow> (string \<times> time) list \<Rightarrow> bool" where
  "running_from s obs \<longleftrightarrow>
     (\<exists>pre post. obs = pre @ (''Running'', s) # post \<and> (\<forall>ob \<in> set post. fst ob = ''Running'') \<and>
        (pre = [] \<or> fst (last pre) \<noteq> ''Running''))"

lemma running_from_last: "running_from s obs \<Longrightarrow> obs \<noteq> [] \<and> fst (last obs) = ''Running''"
proof -
  assume "running_from s obs"
  then obtain pre post where "obs = pre @ (''Running'', s) # post"
      "\<forall>ob \<in> set post. fst ob = ''Running''" by (auto simp: running_from_def)
  then show ?thesis by (cases post rule: rev_cases) auto
qed

lemma running_from_snoc:
  "running_from s (obs @ [(phase, now)]) \<longleftrightarrow>
     phase = ''Running'' \<and>
     (if obs = [] \<or> fst (last obs) \<noteq> ''Running'' then s = now else running_from s obs)"
proof
  assume "running_from s (obs @ [(phase, now)])"
  then obtain pre post where split: "obs @ [(phase, now)] = pre @ (''Running'', s) # post"
      "\<forall>ob \<in> set post. fst ob = ''Running''" "pre = [] \<or> fst (last pre) \<noteq> ''Running''"
    by (auto simp: running_from_def)
  show "phase = ''Running'' \<and>
     (if obs = [] \<or> fst (last obs) \<noteq> ''Running'' then s = now else running_from s obs)"
  proof (cases post rule: rev_cases)
    case Nil
    with split show ?thesis by auto
  next
    case (snoc ys y)
    with split have "obs = pre @ (''Running'', s) # ys" "phase = ''Running''"
      "\<forall>ob \<in> set ys. fst ob = ''Running''" by auto
    moreover from this have "running_from s obs" using split(3) by (auto simp: running_from_def)
    ultimately show ?thesis using running_from_last [of s obs] by simp
  qed
next
  assume a: "phase = ''Running'' \<and>
     (if obs = [] \<or> fst (last obs) \<noteq> ''Running'' then s = now else running_from s obs)"
  show "running_from s (obs @ [(phase, now)])"
  proof (cases "obs = [] \<or> fst (last obs) \<noteq> ''Running''")
    case True
    with a show ?thesis
      unfolding running_from_def by (intro exI [of _ obs] exI [of _ "[]"]) auto
  next
    case False
    with a obtain pre post where "obs = pre @ (''Running'', s) # post"
      "\<forall>ob \<in> set post. fst ob = ''Running''" "pre = [] \<or> fst (last pre) \<noteq> ''Running''"
      by (auto simp: running_from_def)
    with a show ?thesis
      unfolding running_from_def by (intro exI [of _ pre] exI [of _ "post @ [(phase, now)]"]) auto
  qed
qed

text \<open>C23: the running timer measures the current run only: after any sequence of observed phases the
  tracker's start is the time of the first observation of the last unbroken row of Running, and there
  is none when the last phase seen is another one; a runner that leaves Running and comes back starts
  anew.\<close>

theorem running_timer_is_current_run:
  "et_runningSince (er_seen obs) = Some s \<longleftrightarrow> running_from s obs"
proof (induction obs rule: rev_induct)
  case Nil
  then show ?case by (simp add: er_seen_def new_erTracker_def running_from_def)
next
  case (snoc ob obs)
  obtain phase now where ob: "ob = (phase, now)" by (cases ob)
  from snoc show ?case
    unfolding ob er_seen_snoc running_from_snoc observe_er_def
    using running_from_last [of s obs] by (auto simp: er_seen_last split: if_splits)
qed

subsection \<open>What an Investigation of a runner holds\<close>

definition er_histories_complete :: "(NamespacedName \<rightharpoonup> erTracker) \<Rightarrow> bool" where
  "er_histories_complete h \<longleftrightarrow> (\<forall>t \<in> ran h. er_log.complete t)"

lemma er_observe_complete:
  assumes "er_histories_complete h"
  shows "er_histories_complete (h(key \<mapsto> observe_er phase now now (er_tracker_of h key)))"
proof -
  have "er_log.complete (er_tracker_of h key)"
    using assms er_log.complete_start
    by (auto simp: er_tracker_of_def er_histories_complete_def ran_def split: option.split)
  from er_log.complete_observe [OF this, of phase now now] assms show ?thesis
    by (auto simp: er_histories_complete_def ran_def)
qed

text \<open>
  The Investigation of a runner is justified when the runner was overdue at the time \<open>now\<close> and the
  recorded history leads to the phase it reports.
\<close>

definition er_justified ::
  "EphemeralRunnerWatcher \<Rightarrow> time \<Rightarrow> erTracker \<Rightarrow> Unstructured \<Rightarrow> Investigation \<Rightarrow> bool" where
  "er_justified r now t er iv \<longleftrightarrow>
     tr_Type (sp_Trigger (inv_Spec iv)) = ''runner-stuck'' \<and>
     er_overdue r now t er \<and>
     (\<exists>info. sp_EphemeralRunner (inv_Spec iv) = Some info \<and> er_Phase info = er_phase er \<and>
        linked [] (er_StatusHistory info) (er_Phase info))"

lemma er_create_holds:
  assumes "h (key_of (un_Meta er)) = Some t" and "et_lastPhase t = phase" and "er_log.complete t"
  shows "tr_Type (sp_Trigger (inv_Spec (er_new_investigation h now er ''runner-stuck'' phase))) = ''runner-stuck'' \<and>
    (\<exists>info. sp_EphemeralRunner (inv_Spec (er_new_investigation h now er ''runner-stuck'' phase)) =
       Some info \<and> er_Phase info = phase \<and> linked [] (er_StatusHistory info) (er_Phase info))"
  using assms by (simp add: er_new_investigation_def Let_def new_spec_def er_log.complete_def)



end
