(* ===== verification/JobEvidence.thy ===== *)
theory JobEvidence
  imports GitHub
begin

text \<open>
  How a GitHub job becomes evidence: the conversion of the client's run and job into the fields of the
  Investigation, which the correlator's \<open>enrichFromGitHub\<close> and the poller's
  \<open>createJobInvestigation\<close> do with the same code.
\<close>

definition repo_full_name :: "string \<Rightarrow> string \<Rightarrow> string" where
  "repo_full_name owner repo = owner @ ''/'' @ repo"

definition run_info :: "WorkflowRun \<Rightarrow> string \<Rightarrow> WorkflowRunInfo" where
  "run_info run repoFullName =
     \<lparr>wr_ID = run_ID run, wr_Name = run_Name run, wr_Status = run_Status run,
      wr_Conclusion = run_Conclusion run, wr_HTMLURL = run_HTMLURL run,
      wr_Repository = repoFullName\<rparr>"

text \<open>A zero time becomes a nil pointer.\<close>

definition time_ptr :: "time \<Rightarrow> time option" where
  "time_ptr t = (if \<not> IsZero t then Some t else None)"

definition step_info :: "Step \<Rightarrow> JobStep" where
  "step_info s =
     \<lparr>js_Name = step_Name s, js_Status = step_Status s, js_Conclusion = step_Conclusion s\<rparr>"

definition job_info :: "Job \<Rightarrow> JobInfo" where
  "job_info job =
     \<lparr>ji_ID = job_ID job, ji_Name = job_Name job, ji_Status = job_Status job,
      ji_Conclusion = job_Conclusion job, ji_RunnerName = job_RunnerName job,
      ji_StartedAt = time_ptr (job_StartedAt job), ji_CompletedAt = time_ptr (job_CompletedAt job),
      ji_Steps = map step_info (job_Steps job)\<rparr>"

text \<open>A client that always answers the same, for evaluations on concrete inputs.\<close>

definition sample_gh :: "bool \<Rightarrow> WorkflowRun list \<Rightarrow> Job list \<Rightarrow> 'w GHClient" where
  "sample_gh limited runs jobs =
     \<lparr>gh_ListWorkflowRuns = (\<lambda>o' n opts. ret (Inr runs)),
      gh_ListJobsForRun = (\<lambda>o' n i. ret (Inr jobs)),
      gh_GetJob = (\<lambda>o' n i. ret (Inl NotFound)),
      gh_IsRateLimited = ret limited\<rparr>"

lemma sample_gh_simps [simp]:
  "gh_ListWorkflowRuns (sample_gh limited runs jobs) o' n opts = ret (Inr runs)"
  "gh_ListJobsForRun (sample_gh limited runs jobs) o' n i = ret (Inr jobs)"
  "gh_IsRateLimited (sample_gh limited runs jobs) = ret limited"
  by (simp_all add: sample_gh_def)

definition sample_run :: WorkflowRun where
  "sample_run =
     \<lparr>run_ID = 7, run_Name = ''ci'', run_Status = ''in_progress'', run_Conclusion = [],
      run_HTMLURL = ''u'', run_CreatedAt = 1, run_UpdatedAt = 2\<rparr>"

definition sample_job :: "string \<Rightarrow> string \<Rightarrow> time \<Rightarrow> Job" where
  "sample_job status runner started =
     \<lparr>job_ID = 42, job_Name = ''build'', job_Status = status, job_Conclusion = [],
      job_RunnerName = runner, job_StartedAt = started, job_CompletedAt = 0, job_Steps = []\<rparr>"

end
