(* ===== verification/GoSort.thy ===== *)
theory GoSort
  imports Prelude "HOL-Library.Multiset"
begin

text \<open>
  \<open>sort.Slice\<close> of Go's standard library. Up to twelve elements it is the insertion sort below; longer
  slices are sorted by a pattern-defeating quicksort whose result is documented only as sorted, not as
  stable, so it is the parameter \<open>big\<close> of \<open>SortSlice\<close> here. The locale \<open>slice_sorter\<close> is the
  documented contract.
\<close>

section \<open>The contract\<close>

text \<open>A strict weak order, given by a key: what the source passes as \<open>less\<close>.\<close>

definition less_by :: "('a \<Rightarrow> int) \<Rightarrow> 'a \<Rightarrow> 'a \<Rightarrow> bool" where
  "less_by key x y = (key x < key y)"

definition sorts :: "(('a \<Rightarrow> 'a \<Rightarrow> bool) \<Rightarrow> 'a list \<Rightarrow> 'a list) \<Rightarrow> bool" where
  "sorts srt \<longleftrightarrow>
     (\<forall>key xs. mset (srt (less_by key) xs) = mset xs \<and> sorted (map key (srt (less_by key) xs)))"

locale slice_sorter =
  fixes srt :: "('a \<Rightarrow> 'a \<Rightarrow> bool) \<Rightarrow> 'a list \<Rightarrow> 'a list"
  assumes mset_srt: "mset (srt (less_by key) xs) = mset xs"
    and sorted_srt: "sorted (map key (srt (less_by key) xs))"
begin

lemma sorts_srt: "sorts srt"
  by (simp add: sorts_def mset_srt sorted_srt)

lemma set_srt: "set (srt (less_by key) xs) = set xs"
  using mset_eq_setD [OF mset_srt] .

lemma length_srt: "length (srt (less_by key) xs) = length xs"
  using mset_eq_length [OF mset_srt] .

text \<open>The keys come out the same however they came in.\<close>

lemma keys_srt: "map key (srt (less_by key) xs) = sort (map key xs)"
  by (rule properties_for_sort [symmetric]) (simp_all add: mset_srt sorted_srt)

end

section \<open>Insertion sort\<close>

text \<open>
  The element at index \<open>i\<close> moves left while it is less than its neighbour: into the sorted part before
  it, read from its end.
\<close>

fun sift :: "('a \<Rightarrow> 'a \<Rightarrow> bool) \<Rightarrow> 'a \<Rightarrow> 'a list \<Rightarrow> 'a list" where
  "sift lt x [] = [x]"
| "sift lt x (y # ys) = (if lt x y then y # sift lt x ys else x # y # ys)"

text \<open>\<open>done_rev\<close> is the sorted part, reversed.\<close>

fun insertion_loop :: "('a \<Rightarrow> 'a \<Rightarrow> bool) \<Rightarrow> 'a list \<Rightarrow> 'a list \<Rightarrow> 'a list" where
  "insertion_loop lt done_rev [] = rev done_rev"
| "insertion_loop lt done_rev (x # xs) = insertion_loop lt (sift lt x done_rev) xs"

definition insertion_sort :: "('a \<Rightarrow> 'a \<Rightarrow> bool) \<Rightarrow> 'a list \<Rightarrow> 'a list" where
  "insertion_sort lt xs = insertion_loop lt [] xs"

definition SortSlice ::
  "(('a \<Rightarrow> 'a \<Rightarrow> bool) \<Rightarrow> 'a list \<Rightarrow> 'a list) \<Rightarrow> ('a \<Rightarrow> 'a \<Rightarrow> bool) \<Rightarrow> 'a list \<Rightarrow> 'a list" where
  "SortSlice big lt xs = (if length xs \<le> 12 then insertion_sort lt xs else big lt xs)"

lemma mset_sift: "mset (sift lt x ys) = add_mset x (mset ys)"
  by (induction ys) auto

lemma mset_insertion_loop: "mset (insertion_loop lt ds xs) = mset ds + mset xs"
  by (induction xs arbitrary: ds) (auto simp: mset_sift)

definition down :: "('a \<Rightarrow> int) \<Rightarrow> 'a list \<Rightarrow> bool" where
  "down key ds \<longleftrightarrow> sorted_wrt (\<ge>) (map key ds)"

lemma set_sift: "set (sift lt x ys) = insert x (set ys)"
  by (induction ys) auto

lemma down_sift: "down key ds \<Longrightarrow> down key (sift (less_by key) x ds)"
proof (induction ds)
  case Nil
  then show ?case by (simp add: down_def)
next
  case (Cons d ds)
  then show ?case by (force simp: down_def less_by_def set_sift)
qed

lemma sorted_insertion_loop: "down key ds \<Longrightarrow> sorted (map key (insertion_loop (less_by key) ds xs))"
proof (induction xs arbitrary: ds)
  case Nil
  then show ?case by (simp add: down_def rev_map [symmetric] sorted_wrt_rev)
next
  case (Cons x xs)
  then show ?case by (simp add: down_sift)
qed

text \<open>The insertion sort leaves a sorted slice as it is.\<close>

lemma sift_sorted: "down key (x # ds) \<Longrightarrow> sift (less_by key) x ds = x # ds"
  by (cases ds) (auto simp: down_def less_by_def)

lemma insertion_loop_sorted:
  "down key (rev xs @ ds) \<Longrightarrow> insertion_loop (less_by key) ds xs = rev ds @ xs"
proof (induction xs arbitrary: ds)
  case Nil
  then show ?case by simp
next
  case (Cons x xs)
  then have "down key (x # ds)" by (auto simp: down_def sorted_wrt_append)
  with Cons show ?case by (simp add: sift_sorted)
qed

lemma insertion_sort_sorted:
  "sorted (map key xs) \<Longrightarrow> insertion_sort (less_by key) xs = xs"
  using insertion_loop_sorted [of key xs "[]"]
  by (simp add: insertion_sort_def down_def rev_map [symmetric] sorted_wrt_rev)

interpretation insertion: slice_sorter insertion_sort
proof
  fix key :: "'a \<Rightarrow> int" and xs
  show "mset (insertion_sort (less_by key) xs) = mset xs"
    by (simp add: insertion_sort_def mset_insertion_loop)
  show "sorted (map key (insertion_sort (less_by key) xs))"
    by (simp add: insertion_sort_def sorted_insertion_loop down_def)
qed

lemma sorts_SortSlice: "sorts big \<Longrightarrow> sorts (SortSlice big)"
  by (simp add: sorts_def SortSlice_def insertion.mset_srt insertion.sorted_srt)

lemma sorts_locale: "sorts srt \<Longrightarrow> slice_sorter srt"
  by unfold_locales (simp_all add: sorts_def)

lemmas sorts_keys = slice_sorter.keys_srt [OF sorts_locale]
lemmas sorts_set = slice_sorter.set_srt [OF sorts_locale]
lemmas sorts_mset = slice_sorter.mset_srt [OF sorts_locale]

lemma sort_sort [simp]: "sort (sort xs) = sort (xs :: int list)"
  by (rule sorted_sort_id) simp

end
