(* ===== verification/Correlator.thy ===== *)
theory Correlator
  imports Trace PodInfo PodWatcher JobEvidence GoSort
begin

text \<open>
  \<open>internal/controller/correlator.go\<close>: the reconciler of the Investigations themselves. One that is in
  phase Collecting gets the evidence that can still be found in the cluster and on GitHub, a sorted
  timeline and a diagnosis, and becomes Complete. The GitHub client may be nil (\<open>None\<close>);
  \<open>srt\<close> is \<open>sort.Slice\<close>.
\<close>

section \<open>Evidence from the cluster\<close>

definition map_spec :: "(InvestigationSpec \<Rightarrow> InvestigationSpec) \<Rightarrow> Investigation \<Rightarrow> Investigation" where
  "map_spec f iv = iv\<lparr>inv_Spec := f (inv_Spec iv)\<rparr>"

lemma map_spec_simps [simp]:
  "inv_Meta (map_spec f iv) = inv_Meta iv"
  "inv_Spec (map_spec f iv) = f (inv_Spec iv)"
  "inv_Status (map_spec f iv) = inv_Status iv"
  "phase_of (map_spec f iv) = phase_of iv"
  by (simp_all add: map_spec_def phase_of_def)

definition hasOwnerRef :: "Pod \<Rightarrow> string \<Rightarrow> bool" where
  "hasOwnerRef pod ownerName = list_ex (\<lambda>n. n = ownerName) (om_OwnerReferences (pod_Meta pod))"

definition er_info :: "Unstructured \<Rightarrow> EphemeralRunnerInfo" where
  "er_info er =
     \<lparr>er_Name = om_Name (un_Meta er), er_Namespace = om_Namespace (un_Meta er),
      er_Phase = getNestedString er [''status'', ''phase''], er_StatusHistory = []\<rparr>"

text \<open>The runner of the job: the first EphemeralRunner whose status names the job's runner.\<close>

definition find_er :: "'w runtime \<Rightarrow> Investigation \<Rightarrow> ('w, Investigation) state" where
  "find_er K iv =
     (case sp_Job (inv_Spec iv) of
        Some job \<Rightarrow>
          if ji_RunnerName job \<noteq> [] \<and> sp_EphemeralRunner (inv_Spec iv) = None then do {
            r \<leftarrow> List_ERs K (om_Namespace (inv_Meta iv));
            ret (case r of
                Inl e \<Rightarrow> iv
              | Inr ers \<Rightarrow>
                  (case find (\<lambda>er. getNestedString er [''status'', ''runnerName''] = ji_RunnerName job) ers of
                     None \<Rightarrow> iv
                   | Some er \<Rightarrow> map_spec (\<lambda>sp. sp\<lparr>sp_EphemeralRunner := Some (er_info er)\<rparr>) iv))
          }
          else ret iv
      | None \<Rightarrow> ret iv)"

definition pod_belongs :: "EphemeralRunnerInfo \<Rightarrow> Pod \<Rightarrow> bool" where
  "pod_belongs er pod \<longleftrightarrow> om_Name (pod_Meta pod) = er_Name er \<or> hasOwnerRef pod (er_Name er)"

text \<open>The pod of the runner: by its name, or by an owner reference.\<close>

definition find_runner_pod :: "'w runtime \<Rightarrow> Investigation \<Rightarrow> ('w, Investigation) state" where
  "find_runner_pod K iv =
     (case sp_EphemeralRunner (inv_Spec iv) of
        Some er \<Rightarrow>
          if sp_Pod (inv_Spec iv) = None then do {
            r \<leftarrow> List_Pods K (er_Namespace er) (arcRunnerLabel, ''True'');
            ret (case r of
                Inl e \<Rightarrow> iv
              | Inr pods \<Rightarrow>
                  (case find (pod_belongs er) pods of
                     None \<Rightarrow> iv
                   | Some pod \<Rightarrow> map_spec (\<lambda>sp. sp\<lparr>sp_Pod := Some (buildPodInfoFromPod pod)\<rparr>) iv))
          }
          else ret iv
      | None \<Rightarrow> ret iv)"

definition enrichFromK8s :: "'w runtime \<Rightarrow> Investigation \<Rightarrow> ('w, Investigation) state" where
  "enrichFromK8s K iv = do { iv1 \<leftarrow> find_er K iv; find_runner_pod K iv1 }"

section \<open>Evidence from GitHub\<close>

text \<open>The loops leave the function at the first job that ran on the runner.\<close>

definition search_run ::
  "'w GHClient \<Rightarrow> string \<Rightarrow> RepositoryRef \<Rightarrow> WorkflowRun \<Rightarrow>
   ('w, (WorkflowRunInfo \<times> JobInfo) option) state" where
  "search_run g runner repo run = do {
     r \<leftarrow> gh_ListJobsForRun g (rr_Owner repo) (rr_Name repo) (run_ID run);
     ret (case r of
         Inl err \<Rightarrow> None
       | Inr jobs \<Rightarrow>
           (case find (\<lambda>job. job_RunnerName job = runner) jobs of
              None \<Rightarrow> None
            | Some job \<Rightarrow>
                Some (run_info run (repo_full_name (rr_Owner repo) (rr_Name repo)), job_info job)))
   }"

definition search_repo ::
  "'w GHClient \<Rightarrow> string \<Rightarrow> RepositoryRef \<Rightarrow> ('w, (WorkflowRunInfo \<times> JobInfo) option) state" where
  "search_repo g runner repo = do {
     r \<leftarrow> gh_ListWorkflowRuns g (rr_Owner repo) (rr_Name repo) \<lparr>lo_Status = []\<rparr>;
     (case r of
        Inl err \<Rightarrow> ret None
      | Inr runs \<Rightarrow> for_first (search_run g runner repo) runs)
   }"

definition enrichFromGitHub ::
  "'w runtime \<Rightarrow> 'w GHClient \<Rightarrow> Investigation \<Rightarrow> ('w, Investigation \<times> go_error option) state" where
  "enrichFromGitHub K g iv =
     (case sp_EphemeralRunner (inv_Spec iv) of
        None \<Rightarrow> ret (iv, None)
      | Some er \<Rightarrow> do {
          r \<leftarrow> List_Configs K;
          (case r of
             Inl err \<Rightarrow> ret (iv, Some err)
           | Inr configs \<Rightarrow>
               if configs = [] then ret (iv, None)
               else do {
                 hit \<leftarrow> for_first (\<lambda>config.
                   for_first (search_repo g (er_Name er)) (dc_Repositories (cfg_Spec config))) configs;
                 ret (case hit of
                     None \<Rightarrow> iv
                   | Some (run, job) \<Rightarrow>
                       map_spec (\<lambda>sp. sp\<lparr>sp_WorkflowRun := Some run, sp_Job := Some job\<rparr>) iv,
                   None)
               })
        })"

section \<open>Events and the timeline\<close>

definition event_snapshot :: "Event \<Rightarrow> EventSnapshot" where
  "event_snapshot evt =
     \<lparr>ev_Type = evt_Type evt, ev_Reason = evt_Reason evt, ev_Message = evt_Message evt,
      ev_Count = evt_Count evt, ev_Source = evt_Component evt, ev_FirstSeen = evt_FirstTimestamp evt,
      ev_LastSeen = evt_LastTimestamp evt\<rparr>"

definition event_entry :: "Event \<Rightarrow> TimelineEvent" where
  "event_entry evt =
     \<lparr>tl_Timestamp = evt_LastTimestamp evt, tl_Source = ''event'', tl_Type = evt_Reason evt,
      tl_Message = ''['' @ evt_Component evt @ ''] '' @ evt_Message evt\<rparr>"

text \<open>The loop appends one event at a time to the snapshot and to the timeline.\<close>

fun add_events :: "Event list \<Rightarrow> InvestigationSpec \<Rightarrow> InvestigationSpec" where
  "add_events [] sp = sp"
| "add_events (evt # evts) sp = add_events evts
     (sp\<lparr>sp_Pod := map_option (\<lambda>pod. pod\<lparr>pi_Events := pi_Events pod @ [event_snapshot evt]\<rparr>) (sp_Pod sp),
         sp_Timeline := sp_Timeline sp @ [event_entry evt]\<rparr>)"

definition collectPodEvents :: "'w runtime \<Rightarrow> Investigation \<Rightarrow> ('w, Investigation) state" where
  "collectPodEvents K iv =
     (case sp_Pod (inv_Spec iv) of
        None \<Rightarrow> ret iv
      | Some pod \<Rightarrow> do {
          r \<leftarrow> List_Events K (pi_Namespace pod) (pi_Name pod);
          ret (case r of Inl err \<Rightarrow> iv | Inr evts \<Rightarrow> map_spec (add_events evts) iv)
        })"

definition BuildTimeline ::
  "((TimelineEvent \<Rightarrow> TimelineEvent \<Rightarrow> bool) \<Rightarrow> TimelineEvent list \<Rightarrow> TimelineEvent list) \<Rightarrow>
   TimelineEvent list list \<Rightarrow> TimelineEvent list" where
  "BuildTimeline srt events =
     srt (\<lambda>a b. Before (tl_Timestamp a) (tl_Timestamp b)) (concat events)"

section \<open>Reconcile\<close>

type_synonym timeline_sort =
  "(TimelineEvent \<Rightarrow> TimelineEvent \<Rightarrow> bool) \<Rightarrow> TimelineEvent list \<Rightarrow> TimelineEvent list"

definition gather ::
  "'w runtime \<Rightarrow> 'w GHClient option \<Rightarrow> Investigation \<Rightarrow> ('w, Investigation) state" where
  "gather K ghClient iv = do {
     iv1 \<leftarrow> (if sp_EphemeralRunner (inv_Spec iv) = None \<or> sp_Pod (inv_Spec iv) = None
             then enrichFromK8s K iv else ret iv);
     iv2 \<leftarrow> (case ghClient of
               Some g \<Rightarrow>
                 if sp_Job (inv_Spec iv1) = None
                 then do { (iv', err) \<leftarrow> enrichFromGitHub K g iv1; ret iv' }
                 else ret iv1
             | None \<Rightarrow> ret iv1);
     (case sp_Pod (inv_Spec iv2) of
        Some pod \<Rightarrow> if pi_Events pod = [] then collectPodEvents K iv2 else ret iv2
      | None \<Rightarrow> ret iv2)
   }"

definition unknown_diagnosis :: Diagnosis where
  "unknown_diagnosis =
     \<lparr>dg_FailureType = ''unknown'',
      dg_Summary = ''No known failure pattern matched the collected evidence.'',
      dg_Remediation = []\<rparr>"

definition conclude :: "timeline_sort \<Rightarrow> Investigation \<Rightarrow> Investigation" where
  "conclude srt iv =
     (let iv1 = map_spec (\<lambda>sp. sp\<lparr>sp_Timeline := BuildTimeline srt [sp_Timeline sp]\<rparr>) iv;
          iv2 = (if sp_Diagnosis (inv_Spec iv1) = None
                 then map_spec (\<lambda>sp. sp\<lparr>sp_Diagnosis := Classify sp\<rparr>) iv1 else iv1);
          iv3 = set_phase phaseComplete iv2
      in if sp_Diagnosis (inv_Spec iv3) = None
         then map_spec (\<lambda>sp. sp\<lparr>sp_Diagnosis := Some unknown_diagnosis\<rparr>) iv3 else iv3)"

text \<open>
  The last log message reads the diagnosis of the object the server answered with, so the code panics
  when that one has none.
\<close>

definition save :: "'w runtime \<Rightarrow> NamespacedName \<Rightarrow> Investigation \<Rightarrow> ('w, fault + Result) state" where
  "save K key iv = do {
     u \<leftarrow> Update_Investigation K iv;
     (case u of
        Inl err \<Rightarrow> ret (Inl (Failed err))
      | Inr _ \<Rightarrow> do {
          g \<leftarrow> Get_Investigation K key;
          (case g of
             Inl err \<Rightarrow> ret (Inl (Failed err))
           | Inr iv' \<Rightarrow> do {
               s \<leftarrow> StatusUpdate_Investigation K (set_phase phaseComplete iv');
               ret (case s of
                   Inl err \<Rightarrow> Inl (Failed err)
                 | Inr iv'' \<Rightarrow>
                     (case sp_Diagnosis (inv_Spec iv'') of
                        None \<Rightarrow> Inl (Panic ''invalid memory address or nil pointer dereference'')
                      | Some d \<Rightarrow> Inr no_requeue))
             })
        })
   }"

definition corr_Reconcile ::
  "'w runtime \<Rightarrow> 'w GHClient option \<Rightarrow> timeline_sort \<Rightarrow> NamespacedName \<Rightarrow> ('w, fault + Result) state"
where
  "corr_Reconcile K ghClient srt key = do {
     g \<leftarrow> Get_Investigation K key;
     (case g of
        Inl err \<Rightarrow> ret (if IsNotFound err then Inr no_requeue else Inl (Failed err))
      | Inr iv \<Rightarrow>
          if phase_of iv \<noteq> phaseCollecting then ret (Inr no_requeue)
          else do {
            iv' \<leftarrow> gather K ghClient iv;
            save K key (conclude srt iv')
          })
   }"

text \<open>The filter of the events the correlator is run for.\<close>

definition corr_event_filter :: "Investigation \<Rightarrow> bool" where
  "corr_event_filter iv = (phase_of iv = phaseCollecting)"

section \<open>What gathering adds\<close>

text \<open>The snapshot of a pod with more events.\<close>

definition with_events :: "PodInfo \<Rightarrow> EventSnapshot list \<Rightarrow> PodInfo" where
  "with_events pod evs = pod\<lparr>pi_Events := pi_Events pod @ evs\<rparr>"

lemma with_events_simps [simp]:
  "with_events pod [] = pod"
  "with_events (with_events pod as) bs = with_events pod (as @ bs)"
  "pi_Events (with_events pod evs) = pi_Events pod @ evs"
  "pi_Phase (with_events pod evs) = pi_Phase pod"
  "pi_ContainerStatuses (with_events pod evs) = pi_ContainerStatuses pod"
  by (simp_all add: with_events_def)

text \<open>
  The evidence a spec already holds stays; the snapshot of the pod may get more events, the timeline more
  entries.
\<close>

definition richer :: "InvestigationSpec \<Rightarrow> InvestigationSpec \<Rightarrow> bool" where
  "richer sp sp' \<longleftrightarrow>
     sp_Trigger sp' = sp_Trigger sp \<and> sp_Diagnosis sp' = sp_Diagnosis sp \<and>
     sp_LogPaths sp' = sp_LogPaths sp \<and>
     (sp_EphemeralRunner sp \<noteq> None \<longrightarrow> sp_EphemeralRunner sp' = sp_EphemeralRunner sp) \<and>
     (sp_Job sp \<noteq> None \<longrightarrow> sp_Job sp' = sp_Job sp \<and> sp_WorkflowRun sp' = sp_WorkflowRun sp) \<and>
     (\<forall>pod. sp_Pod sp = Some pod \<longrightarrow> (\<exists>evs. sp_Pod sp' = Some (with_events pod evs))) \<and>
     (\<exists>more. sp_Timeline sp' = sp_Timeline sp @ more)"

lemma pod_kept: "\<exists>evs. pod = with_events pod evs"
  by (rule exI [of _ "[]"]) simp

lemma richer_refl: "richer sp sp"
  by (auto simp: richer_def pod_kept)

lemma richer_trans:
  assumes "richer a b" and "richer b c"
  shows "richer a c"
proof -
  have "\<exists>evs. sp_Pod c = Some (with_events pod evs)" if "sp_Pod a = Some pod" for pod
    using assms that unfolding richer_def by (metis with_events_simps(2))
  then show ?thesis using assms by (auto simp: richer_def)
qed

lemma richer_add_event:
  "richer sp (sp\<lparr>sp_Pod := map_option (\<lambda>pod. pod\<lparr>pi_Events := pi_Events pod @ [s]\<rparr>) (sp_Pod sp),
                 sp_Timeline := sp_Timeline sp @ [t]\<rparr>)"
  by (auto simp: richer_def with_events_def)

lemma richer_add_events: "richer sp (add_events evts sp)"
proof (induction evts arbitrary: sp)
  case Nil
  then show ?case by (simp add: richer_refl)
next
  case (Cons evt evts)
  show ?case
    unfolding add_events.simps by (rule richer_trans [OF richer_add_event Cons.IH])
qed

text \<open>An Investigation with more evidence is otherwise the same.\<close>

definition enriched :: "Investigation \<Rightarrow> Investigation \<Rightarrow> bool" where
  "enriched iv iv' \<longleftrightarrow>
     inv_Meta iv' = inv_Meta iv \<and> inv_Status iv' = inv_Status iv \<and> richer (inv_Spec iv) (inv_Spec iv')"

lemma enriched_refl: "enriched iv iv"
  by (simp add: enriched_def richer_refl)

lemma enriched_trans: "enriched a b \<Longrightarrow> enriched b c \<Longrightarrow> enriched a c"
  by (auto simp: enriched_def intro: richer_trans)

lemma enriched_map_spec: "richer (inv_Spec iv) (f (inv_Spec iv)) \<Longrightarrow> enriched iv (map_spec f iv)"
  by (simp add: enriched_def)

lemma richer_fill:
  "sp_EphemeralRunner sp = None \<Longrightarrow> richer sp (sp\<lparr>sp_EphemeralRunner := Some er\<rparr>)"
  "sp_Pod sp = None \<Longrightarrow> richer sp (sp\<lparr>sp_Pod := Some pod\<rparr>)"
  "sp_Job sp = None \<Longrightarrow> richer sp (sp\<lparr>sp_WorkflowRun := Some run, sp_Job := Some job\<rparr>)"
  by (auto simp: richer_def pod_kept)

lemma find_er_enriches: "returns (find_er K iv) (enriched iv)"
  by (auto simp: find_er_def enriched_refl intro!: returns_return returns_bind_any enriched_map_spec
      richer_fill split: option.split sum.split)

lemma find_runner_pod_enriches: "returns (find_runner_pod K iv) (enriched iv)"
  by (auto simp: find_runner_pod_def enriched_refl intro!: returns_return returns_bind_any
      enriched_map_spec richer_fill split: option.split sum.split)

lemma enrichFromK8s_enriches: "returns (enrichFromK8s K iv) (enriched iv)"
  unfolding enrichFromK8s_def
  by (rule returns_bind [OF find_er_enriches])
    (blast intro: returns_weaken [OF find_runner_pod_enriches] enriched_trans)

lemma enrichFromGitHub_enriches:
  "sp_Job (inv_Spec iv) = None \<Longrightarrow> returns (enrichFromGitHub K g iv) (\<lambda>(iv', err). enriched iv iv')"
  by (auto simp: enrichFromGitHub_def enriched_refl intro!: returns_return returns_bind_any
      enriched_map_spec richer_fill split: option.split sum.split)

lemma collectPodEvents_enriches: "returns (collectPodEvents K iv) (enriched iv)"
  by (auto simp: collectPodEvents_def enriched_refl intro!: returns_return returns_bind_any
      enriched_map_spec richer_add_events split: option.split sum.split)

lemma gather_enriches: "returns (gather K ghClient iv) (enriched iv)"
proof -
  have github: "returns (case ghClient of
               Some g \<Rightarrow>
                 if sp_Job (inv_Spec iv1) = None
                 then do { (iv', err) \<leftarrow> enrichFromGitHub K g iv1; ret iv' }
                 else ret iv1
             | None \<Rightarrow> ret iv1) (enriched iv1)" for iv1
    by (auto simp: enriched_refl intro!: returns_return returns_bind [OF enrichFromGitHub_enriches]
        split: option.split)
  have events: "returns (case sp_Pod (inv_Spec iv2) of
        Some pod \<Rightarrow> if pi_Events pod = [] then collectPodEvents K iv2 else ret iv2
      | None \<Rightarrow> ret iv2) (enriched iv2)" for iv2
    by (auto simp: enriched_refl intro!: returns_return collectPodEvents_enriches split: option.split)
  have k8s: "returns (if sp_EphemeralRunner (inv_Spec iv) = None \<or> sp_Pod (inv_Spec iv) = None
             then enrichFromK8s K iv else ret iv) (enriched iv)"
    by (auto simp: enriched_refl intro!: returns_return enrichFromK8s_enriches)
  show ?thesis
    unfolding gather_def
    by (rule returns_bind [OF k8s], rule returns_bind [OF returns_weaken [OF github]], erule (1) enriched_trans,
        rule returns_weaken [OF events], erule (1) enriched_trans)
qed

section \<open>What is written\<close>

text \<open>The timeline's order is a key, so the contract of \<open>sort.Slice\<close> applies.\<close>

lemma timeline_less:
  "(\<lambda>a b. Before (tl_Timestamp a) (tl_Timestamp b)) = less_by tl_Timestamp"
  by (simp add: less_by_def Before_def fun_eq_iff)

lemma BuildTimeline_sort: "BuildTimeline srt es = srt (less_by tl_Timestamp) (concat es)"
  by (simp add: BuildTimeline_def timeline_less)

text \<open>The diagnosis that is stored: the one the Investigation has, or what \<open>Classify\<close> says.\<close>

definition settled :: "InvestigationSpec \<Rightarrow> Diagnosis" where
  "settled sp =
     (case sp_Diagnosis sp of
        Some d \<Rightarrow> d
      | None \<Rightarrow> (case Classify sp of Some d \<Rightarrow> d | None \<Rightarrow> unknown_diagnosis))"

lemma conclude_parts:
  "inv_Meta (conclude srt iv) = inv_Meta iv"
  "phase_of (conclude srt iv) = phaseComplete"
  "inv_Spec (conclude srt iv) =
     (inv_Spec iv)\<lparr>sp_Timeline := srt (less_by tl_Timestamp) (sp_Timeline (inv_Spec iv)),
                    sp_Diagnosis := Some (settled (inv_Spec iv))\<rparr>"
proof -
  have cong: "Classify (sp\<lparr>sp_Timeline := ts\<rparr>) = Classify sp" for sp ts
    by (rule Classify_cong) simp_all
  show "inv_Meta (conclude srt iv) = inv_Meta iv" "phase_of (conclude srt iv) = phaseComplete"
    by (simp_all add: conclude_def Let_def)
  show "inv_Spec (conclude srt iv) =
     (inv_Spec iv)\<lparr>sp_Timeline := srt (less_by tl_Timestamp) (sp_Timeline (inv_Spec iv)),
                    sp_Diagnosis := Some (settled (inv_Spec iv))\<rparr>"
    by (cases "sp_Diagnosis (inv_Spec iv)"; cases "Classify (inv_Spec iv)")
      (auto simp: conclude_def Let_def settled_def BuildTimeline_sort cong)
qed

text \<open>Gathering evidence only reads.\<close>

fun is_write :: "call \<Rightarrow> bool" where
  "is_write (CreateInvestigation iv) = True"
| "is_write (UpdateInvestigation iv) = True"
| "is_write (StatusUpdateInvestigation iv) = True"
| "is_write (DeleteInvestigation iv) = True"
| "is_write (UpdatePod pod) = True"
| "is_write c = False"

lemma gather_reads:
  "state_io_rel (appends snd (\<lambda>c. \<not> is_write c)) (gather (traced K) (map_option traced_client g) iv)"
proof -
  have k8s: "state_io_rel (appends snd (\<lambda>c. \<not> is_write c)) (enrichFromK8s (traced K) iv)" for iv
    by (auto simp: enrichFromK8s_def find_er_def find_runner_pod_def intro!: call_rules
        split: option.split)
  have gh: "state_io_rel (appends snd (\<lambda>c. \<not> is_write c))
      (enrichFromGitHub (traced K) (traced_client h) iv)" for h iv
    by (auto simp: enrichFromGitHub_def search_repo_def search_run_def intro!: call_rules
        split: option.split sum.split)
  show ?thesis
    by (auto simp: gather_def collectPodEvents_def intro!: call_rules k8s gh split: option.split)
qed

text \<open>The ways \<open>save\<close> ends, with the calls they make.\<close>

lemma save_calls:
  "\<exists>post. snd (snd (run_state (save (traced K) key iv) wc)) = snd wc @ UpdateInvestigation iv # post \<and>
     (post = [] \<or> post = [GetInvestigation key] \<or>
      (\<exists>iv'. post = [GetInvestigation key, StatusUpdateInvestigation iv'] \<and> phase_of iv' = phaseComplete))"
  by (auto simp: save_def split: sum.split prod.split)

text \<open>The calls of a whole Reconcile.\<close>

lemma corr_run:
  assumes get: "run_state (Get_Investigation K key) (fst wc) = (Inr iv, w)"
    and phase: "phase_of iv = phaseCollecting"
  obtains iv1 wc1 reads post where
    "run_state (gather (traced K) (map_option traced_client g) iv) (w, snd wc @ [GetInvestigation key]) =
     (iv1, wc1)"
    and "snd (snd (run_state (corr_Reconcile (traced K) (map_option traced_client g) srt key) wc)) =
      snd wc @ GetInvestigation key # reads @ UpdateInvestigation (conclude srt iv1) # post"
    and "\<forall>c \<in> set reads. \<not> is_write c"
    and "post = [] \<or> post = [GetInvestigation key] \<or>
      (\<exists>iv''. post = [GetInvestigation key, StatusUpdateInvestigation iv''] \<and>
              phase_of iv'' = phaseComplete)"
proof -
  let ?wc = "(w, snd wc @ [GetInvestigation key])"
  obtain iv1 wc1 where gather:
    "run_state (gather (traced K) (map_option traced_client g) iv) ?wc = (iv1, wc1)"
    by (meson surj_pair)
  obtain reads where reads: "snd wc1 = snd ?wc @ reads" "\<forall>c \<in> set reads. \<not> is_write c"
    by (rule appendsD [OF gather_reads gather])
  have run: "run_state (corr_Reconcile (traced K) (map_option traced_client g) srt key) wc =
      run_state (save (traced K) key (conclude srt iv1)) wc1"
    using get phase gather by (simp add: corr_Reconcile_def)
  show ?thesis
    using save_calls [of K key "conclude srt iv1" wc1] reads gather
    by (auto simp: run intro!: that [OF gather])
qed

lemma settled_timeline: "settled (sp\<lparr>sp_Timeline := ts\<rparr>) = settled sp"
proof -
  have "Classify (sp\<lparr>sp_Timeline := ts\<rparr>) = Classify sp" by (rule Classify_cong) simp_all
  then show ?thesis by (simp add: settled_def split: option.split)
qed

text \<open>Where the snapshot holds events already, neither it nor the timeline is changed.\<close>

definition pod_and_timeline_kept :: "Investigation \<Rightarrow> Investigation \<Rightarrow> bool" where
  "pod_and_timeline_kept iv iv' \<longleftrightarrow>
     sp_Pod (inv_Spec iv') = sp_Pod (inv_Spec iv) \<and>
     sp_Timeline (inv_Spec iv') = sp_Timeline (inv_Spec iv)"

lemma find_er_keeps: "returns (find_er K iv) (pod_and_timeline_kept iv)"
  by (auto simp: find_er_def pod_and_timeline_kept_def intro!: returns_return returns_bind_any
      split: option.split sum.split)

lemma enrichFromK8s_keeps:
  assumes "sp_Pod (inv_Spec iv) \<noteq> None"
  shows "returns (enrichFromK8s K iv) (pod_and_timeline_kept iv)"
  unfolding enrichFromK8s_def
  by (rule returns_bind [OF find_er_keeps])
    (use assms in \<open>auto simp: find_runner_pod_def pod_and_timeline_kept_def intro!: returns_return
      split: option.split\<close>)

lemma enrichFromGitHub_keeps:
  "returns (enrichFromGitHub K g iv) (\<lambda>(iv', err). pod_and_timeline_kept iv iv')"
  by (auto simp: enrichFromGitHub_def pod_and_timeline_kept_def intro!: returns_return
      returns_bind_any split: option.split sum.split)

lemma gather_keeps:
  assumes "sp_Pod (inv_Spec iv) = Some pod" and "pi_Events pod \<noteq> []"
  shows "returns (gather K ghClient iv) (pod_and_timeline_kept iv)"
proof -
  have github: "returns (case ghClient of
               Some g \<Rightarrow>
                 if sp_Job (inv_Spec iv1) = None
                 then do { (iv', err) \<leftarrow> enrichFromGitHub K g iv1; ret iv' }
                 else ret iv1
             | None \<Rightarrow> ret iv1) (pod_and_timeline_kept iv)"
    if "pod_and_timeline_kept iv iv1" for iv1
    using that
    by (auto simp: pod_and_timeline_kept_def intro!: returns_return
        returns_bind [OF enrichFromGitHub_keeps] split: option.split)
  have k8s: "returns (if sp_EphemeralRunner (inv_Spec iv) = None \<or> sp_Pod (inv_Spec iv) = None
             then enrichFromK8s K iv else ret iv) (pod_and_timeline_kept iv)"
    using assms by (auto intro!: enrichFromK8s_keeps returns_return simp: pod_and_timeline_kept_def)
  show ?thesis
    unfolding gather_def
    by (rule returns_bind [OF k8s], rule returns_bind [OF github], assumption)
      (use assms in \<open>auto simp: pod_and_timeline_kept_def intro: returns_return\<close>)
qed

section \<open>Properties\<close>

text \<open>C7: a Reconcile of an Investigation that is Collecting sends exactly one update of its spec, after
  nothing but reads, and the status only after that, whatever the cluster and GitHub answer. What it
  sends has the same metadata, log paths and trigger and all the evidence of before, a timeline that is
  a permutation in time order of the old entries and new ones, and a diagnosis: the one it had, or
  else what Classify says about the very spec that is sent, or unknown.\<close>

theorem correlator_updates_once:
  assumes get: "run_state (Get_Investigation K key) (fst wc) = (Inr iv, w)"
    and phase: "phase_of iv = phaseCollecting" and srt: "sorts srt"
  shows "\<exists>reads iv' post. snd (snd (run_state (corr_Reconcile (traced K) (map_option traced_client g) srt key) wc)) =
      snd wc @ GetInvestigation key # reads @ UpdateInvestigation iv' # post \<and>
    (\<forall>c \<in> set reads. \<not> is_write c) \<and>
    (post = [] \<or> post = [GetInvestigation key] \<or>
      (\<exists>iv''. post = [GetInvestigation key, StatusUpdateInvestigation iv''] \<and>
              phase_of iv'' = phaseComplete)) \<and>
    inv_Meta iv' = inv_Meta iv \<and>
    (\<exists>sp. richer (inv_Spec iv) sp \<and> sorted (map tl_Timestamp (sp_Timeline (inv_Spec iv'))) \<and>
       mset (sp_Timeline (inv_Spec iv')) = mset (sp_Timeline sp) \<and>
       inv_Spec iv' = sp\<lparr>sp_Timeline := sp_Timeline (inv_Spec iv'),
                         sp_Diagnosis := Some (settled (sp\<lparr>sp_Timeline := sp_Timeline (inv_Spec iv')\<rparr>))\<rparr>)"
proof -
  obtain iv1 wc1 reads post where gather:
    "run_state (gather (traced K) (map_option traced_client g) iv) (w, snd wc @ [GetInvestigation key]) =
     (iv1, wc1)"
    and run: "snd (snd (run_state (corr_Reconcile (traced K) (map_option traced_client g) srt key) wc)) =
      snd wc @ GetInvestigation key # reads @ UpdateInvestigation (conclude srt iv1) # post"
    "\<forall>c \<in> set reads. \<not> is_write c"
    "post = [] \<or> post = [GetInvestigation key] \<or>
      (\<exists>iv''. post = [GetInvestigation key, StatusUpdateInvestigation iv''] \<and>
              phase_of iv'' = phaseComplete)"
    by (rule corr_run [OF get phase])
  let ?iv' = "conclude srt iv1"
  let ?sp = "inv_Spec iv1"
  have rich: "enriched iv iv1" by (rule returnsD [OF gather_enriches gather])
  have timeline: "sorted (map tl_Timestamp (sp_Timeline (inv_Spec ?iv')))"
    "mset (sp_Timeline (inv_Spec ?iv')) = mset (sp_Timeline ?sp)"
    using srt by (simp_all add: conclude_parts sorts_def)
  have spec: "inv_Spec ?iv' = ?sp\<lparr>sp_Timeline := sp_Timeline (inv_Spec ?iv'),
      sp_Diagnosis := Some (settled (?sp\<lparr>sp_Timeline := sp_Timeline (inv_Spec ?iv')\<rparr>))\<rparr>"
    by (simp add: conclude_parts settled_timeline)
  have meta: "inv_Meta ?iv' = inv_Meta iv" "richer (inv_Spec iv) ?sp"
    using rich by (simp_all add: enriched_def conclude_parts)
  show ?thesis
    by (intro exI [of _ reads] exI [of _ ?iv'] exI [of _ post] conjI exI [of _ ?sp])
      (fact run meta timeline spec)+
qed

definition collecting_investigation :: Investigation where
  "collecting_investigation = set_phase phaseCollecting events_investigation"

definition one_investigation :: "Investigation \<Rightarrow> cluster" where
  "one_investigation iv = empty_cluster\<lparr>cl_invs := [(key_of (inv_Meta iv), iv)]\<rparr>"

definition inv_key :: NamespacedName where
  "inv_key = \<lparr>nn_Namespace = ''ns'', nn_Name = ''pod-runner''\<rparr>"

lemma get_collecting:
  "run_state (Get_Investigation sample_kube inv_key) (one_investigation collecting_investigation) =
   (Inr collecting_investigation, one_investigation collecting_investigation)"
  by (simp add: one_investigation_def collecting_investigation_def events_investigation_def
      empty_cluster_def find_in_def inv_key_def)

theorem correlator_updates_once_witness:
  "\<exists>reads iv' post. snd (snd (run_state
        (corr_Reconcile (traced sample_kube) (map_option traced_client None) insertion_sort inv_key)
        (one_investigation collecting_investigation, []))) =
      GetInvestigation inv_key # reads @ UpdateInvestigation iv' # post \<and>
    (\<forall>c \<in> set reads. \<not> is_write c) \<and> inv_Meta iv' = inv_Meta collecting_investigation"
proof -
  have get: "run_state (Get_Investigation sample_kube inv_key)
      (fst (one_investigation collecting_investigation, [])) =
      (Inr collecting_investigation, one_investigation collecting_investigation)"
    unfolding fst_conv by (rule get_collecting)
  have phase: "phase_of collecting_investigation = phaseCollecting"
    by (simp add: collecting_investigation_def)
  show ?thesis
    using correlator_updates_once [OF get phase insertion.sorts_srt, of None] by auto
qed

text \<open>Only Investigations that are Collecting are touched: for any other phase, a finished or a
  failed one or one whose phase was never written, a Reconcile makes no call but the read and asks for
  no other; the same holds for one that is gone.\<close>

lemma only_collecting_is_correlated:
  assumes "run_state (Get_Investigation K key) (fst wc) = (r, w)"
    and "(\<exists>iv. r = Inr iv \<and> phase_of iv \<noteq> phaseCollecting) \<or> (\<exists>e. r = Inl e \<and> IsNotFound e)"
  shows "run_state (corr_Reconcile (traced K) g srt key) wc =
    (Inr no_requeue, (w, snd wc @ [GetInvestigation key]))"
  using assms by (auto simp: corr_Reconcile_def)

subsection \<open>The timeline\<close>

text \<open>BuildTimeline, given any sort that meets the documented contract of sort.Slice, returns every
  entry of every source exactly as often as it came, in time order; how the entries were grouped
  does not change the sequence of times, and sorting the result again keeps it in order with the same
  entries.\<close>

lemma BuildTimeline_sorted_permutation:
  assumes "sorts srt"
  shows "mset (BuildTimeline srt es) = sum_list (map mset es) \<and>
    map tl_Timestamp (BuildTimeline srt es) = sort (map tl_Timestamp (concat es)) \<and>
    mset (BuildTimeline srt [BuildTimeline srt es]) = mset (BuildTimeline srt es) \<and>
    map tl_Timestamp (BuildTimeline srt [BuildTimeline srt es]) = map tl_Timestamp (BuildTimeline srt es)"
  using assms by (simp add: BuildTimeline_sort sorts_keys sorts_mset mset_concat)

definition entry_at :: "time \<Rightarrow> TimelineEvent" where
  "entry_at t = \<lparr>tl_Timestamp = t, tl_Source = ''pod'', tl_Type = ''x'', tl_Message = []\<rparr>"

text \<open>C30: a retry does not record the events twice: when the pod snapshot of a Collecting Investigation
  holds events already, as after an attempt whose status update failed, what the next Reconcile sends
  has the same snapshot, and its timeline is a permutation of the one that is stored.\<close>

theorem retry_keeps_timeline:
  assumes get: "run_state (Get_Investigation K key) (fst wc) = (Inr iv, w)"
    and phase: "phase_of iv = phaseCollecting" and srt: "sorts srt"
    and pod: "sp_Pod (inv_Spec iv) = Some pod" "pi_Events pod \<noteq> []"
    and sent: "UpdateInvestigation iv' \<in> set (drop (length (snd wc)) (snd (snd (run_state
        (corr_Reconcile (traced K) (map_option traced_client g) srt key) wc))))"
  shows "sp_Pod (inv_Spec iv') = Some pod \<and>
    mset (sp_Timeline (inv_Spec iv')) = mset (sp_Timeline (inv_Spec iv))"
proof -
  obtain iv1 wc1 reads post where gather:
    "run_state (gather (traced K) (map_option traced_client g) iv) (w, snd wc @ [GetInvestigation key]) =
     (iv1, wc1)"
    and run: "snd (snd (run_state (corr_Reconcile (traced K) (map_option traced_client g) srt key) wc)) =
      snd wc @ GetInvestigation key # reads @ UpdateInvestigation (conclude srt iv1) # post"
    "\<forall>c \<in> set reads. \<not> is_write c"
    "post = [] \<or> post = [GetInvestigation key] \<or>
      (\<exists>iv''. post = [GetInvestigation key, StatusUpdateInvestigation iv''] \<and>
              phase_of iv'' = phaseComplete)"
    by (rule corr_run [OF get phase])
  have "iv' = conclude srt iv1"
    using sent run(2,3) unfolding run(1) by auto
  moreover have "pod_and_timeline_kept iv iv1" by (rule returnsD [OF gather_keeps [OF pod] gather])
  ultimately show ?thesis
    using srt pod(1) by (simp add: pod_and_timeline_kept_def conclude_parts sorts_mset)
qed

theorem retry_keeps_timeline_witness:
  "\<not> (\<exists>iv'. UpdateInvestigation iv' \<in> set (snd (snd (run_state
        (corr_Reconcile (traced sample_kube) (map_option traced_client None) insertion_sort inv_key)
        (one_investigation collecting_investigation, [])))) \<and>
     sp_Pod (inv_Spec iv') \<noteq> sp_Pod (inv_Spec collecting_investigation))"
proof -
  have get: "run_state (Get_Investigation sample_kube inv_key)
      (fst (one_investigation collecting_investigation, [])) =
      (Inr collecting_investigation, one_investigation collecting_investigation)"
    unfolding fst_conv by (rule get_collecting)
  have phase: "phase_of collecting_investigation = phaseCollecting"
    by (simp add: collecting_investigation_def)
  obtain pod where pod: "sp_Pod (inv_Spec collecting_investigation) = Some pod" "pi_Events pod \<noteq> []"
    by (simp add: collecting_investigation_def events_investigation_def)
  show ?thesis
    using retry_keeps_timeline [OF get phase insertion.sorts_srt pod, of _ None] pod(1) by simp
qed

subsection \<open>Evidence from both sides\<close>

text \<open>An Investigation that a pod triggered is never enriched: with neither a runner nor a job in its
  spec nothing is asked of GitHub (the result and the state are the same with and without a client),
  and after all evidence is gathered it still has neither runner nor job nor workflow run, so only
  the four failures of the pod can be diagnosed. The evidence of the other side is looked for only when
  the runner or the job is known already.\<close>

lemma pod_triggered_never_enriched:
  assumes er: "sp_EphemeralRunner (inv_Spec iv) = None" and job: "sp_Job (inv_Spec iv) = None"
  shows "run_state (gather K ghClient iv) w = run_state (gather K None iv) w \<and>
    (let sp' = inv_Spec (fst (run_state (gather K ghClient iv) w)) in
       sp_EphemeralRunner sp' = None \<and> sp_Job sp' = None \<and>
       sp_WorkflowRun sp' = sp_WorkflowRun (inv_Spec iv) \<and>
       diagnose sp' \<in> {None, Some PodOOMKilled, Some PodCrashed, Some PodStuckTerminating,
                       Some PodInitTimeout})"
proof -
  have k8s: "enrichFromK8s K iv = ret iv"
    by (simp add: enrichFromK8s_def find_er_def find_runner_pod_def er job)
  have gh: "enrichFromGitHub K g iv = ret (iv, None)" for g
    by (simp add: enrichFromGitHub_def er)
  let ?ev = "case sp_Pod (inv_Spec iv) of
        Some pod \<Rightarrow> if pi_Events pod = [] then collectPodEvents K iv else ret iv
      | None \<Rightarrow> ret iv"
  have all: "gather K c iv = ?ev" for c
    by (auto simp: gather_def er job k8s gh split: option.split)
  have added: "sp_EphemeralRunner (add_events evts sp) = sp_EphemeralRunner sp \<and>
      sp_Job (add_events evts sp) = sp_Job sp \<and> sp_WorkflowRun (add_events evts sp) = sp_WorkflowRun sp"
    for evts sp
    by (induction evts arbitrary: sp) simp_all
  define Q where "Q = (\<lambda>iv' :: Investigation. sp_EphemeralRunner (inv_Spec iv') = None \<and> sp_Job (inv_Spec iv') = None \<and>
      sp_WorkflowRun (inv_Spec iv') = sp_WorkflowRun (inv_Spec iv))"
  have "returns ?ev Q"
    using added er job
    by (auto simp: Q_def collectPodEvents_def intro!: returns_return returns_bind_any
        split: option.split sum.split)
  then have "Q (fst (run_state (gather K ghClient iv) w))"
    unfolding all by (simp add: returns_def)
  then show ?thesis
    unfolding all by (auto simp: Q_def Let_def diagnose_def runner_phase_is_def job_status_is_def)
qed

text \<open>C31: a job that is found on GitHub is the runner's: when the search adds a job to an Investigation
  without one, the Investigation names a runner, the job ran on a runner of that very name, and the
  workflow run that is stored beside it belongs to a repository of some DetectiveConfig.\<close>

theorem github_match_sound:
  assumes run: "run_state (enrichFromGitHub K g iv) w = ((iv', err), w')"
    and none: "sp_Job (inv_Spec iv) = None" and some: "sp_Job (inv_Spec iv') = Some job"
  shows "\<exists>er. sp_EphemeralRunner (inv_Spec iv) = Some er \<and> ji_RunnerName job = er_Name er \<and>
    (\<exists>configs w1. run_state (List_Configs K) w = (Inr configs, w1) \<and>
       (\<exists>config \<in> set configs. \<exists>repo \<in> set (dc_Repositories (cfg_Spec config)). \<exists>wr.
          sp_WorkflowRun (inv_Spec iv') = Some wr \<and>
          wr_Repository wr = repo_full_name (rr_Owner repo) (rr_Name repo)))"
proof (cases "sp_EphemeralRunner (inv_Spec iv)")
  case None
  with run none some show ?thesis by (simp add: enrichFromGitHub_def)
next
  case (Some er)
  obtain r w1 where configs: "run_state (List_Configs K) w = (r, w1)" by (meson surj_pair)
  show ?thesis
  proof (cases r)
    case (Inl e)
    with run none some Some configs show ?thesis by (simp add: enrichFromGitHub_def)
  next
    case (Inr cs)
    define fits where "fits = (\<lambda>hit :: WorkflowRunInfo \<times> JobInfo. case hit of (wr, j) \<Rightarrow> ji_RunnerName j = er_Name er \<and>
      (\<exists>config \<in> set cs. \<exists>repo \<in> set (dc_Repositories (cfg_Spec config)).
         wr_Repository wr = repo_full_name (rr_Owner repo) (rr_Name repo)))"
    have one: "returns (search_run g (er_Name er) repo wr) (\<lambda>r. case r of None \<Rightarrow> True | Some v \<Rightarrow> fits v)"
      if "config \<in> set cs" "repo \<in> set (dc_Repositories (cfg_Spec config))" for config repo wr
    proof -
      have "fits (run_info wr (repo_full_name (rr_Owner repo) (rr_Name repo)), job_info job)"
        if "job_RunnerName job = er_Name er" for job
        using that \<open>config \<in> set cs\<close> \<open>repo \<in> _\<close>
        by (auto simp: fits_def job_info_def run_info_def)
      then show ?thesis
        unfolding search_run_def
        by (intro returns_bind_any returns_return)
          (auto simp: find_Some_iff split: sum.split option.split)
    qed
    have repo: "returns (search_repo g (er_Name er) repo) (\<lambda>r. case r of None \<Rightarrow> True | Some v \<Rightarrow> fits v)"
      if "config \<in> set cs" "repo \<in> set (dc_Repositories (cfg_Spec config))" for config repo
    proof -
      have "returns (case x of Inl err \<Rightarrow> ret None
            | Inr runs \<Rightarrow> for_first (search_run g (er_Name er) repo) runs)
          (\<lambda>r. case r of None \<Rightarrow> True | Some v \<Rightarrow> fits v)" for x :: "go_error + WorkflowRun list"
        by (cases x) (simp_all add: returns_return returns_for_first one [OF that])
      then show ?thesis unfolding search_repo_def by (rule returns_bind_any)
    qed
    have "returns (for_first (\<lambda>config. for_first (search_repo g (er_Name er))
        (dc_Repositories (cfg_Spec config))) cs) (\<lambda>r. case r of None \<Rightarrow> True | Some v \<Rightarrow> fits v)"
      by (intro returns_for_first repo)
    moreover obtain hit w2 where hit: "run_state (for_first (\<lambda>config. for_first (search_repo g (er_Name er))
        (dc_Repositories (cfg_Spec config))) cs) w1 = (hit, w2)" by (meson surj_pair)
    ultimately have "case hit of None \<Rightarrow> True | Some v \<Rightarrow> fits v" by (rule returnsD)
    with run none some Some configs hit Inr show ?thesis
      by (auto simp: enrichFromGitHub_def fits_def split: if_splits option.splits) blast
  qed
qed

definition runner_investigation :: Investigation where
  "runner_investigation =
     map_spec (\<lambda>sp. sp\<lparr>sp_EphemeralRunner := Some
       \<lparr>er_Name = ''runner-1'', er_Namespace = ''ns'', er_Phase = ''Running'', er_StatusHistory = []\<rparr>\<rparr>)
       (new_investigation (new_meta ''ns'' ''er-runner-1'') (new_spec ''runner-stuck'' ''ns/runner-1''))"

definition sample_config :: DetectiveConfig where
  "sample_config =
     \<lparr>cfg_Meta = new_meta ''ns'' ''config'',
      cfg_Spec = \<lparr>dc_Repositories = [\<lparr>rr_Owner = ''o'', rr_Name = ''r''\<rparr>], dc_PollInterval = None,
                  dc_LogStorage = \<lparr>ls_PVCName = ''pvc'', ls_MaxSizeMB = None\<rparr>,
                  dc_RetentionPeriod = None, dc_MaxInvestigations = None\<rparr>,
      cfg_Status = \<lparr>ds_Phase = [], ds_Message = []\<rparr>\<rparr>"

lemma sample_search:
  "run_state (enrichFromGitHub sample_kube (sample_gh False [sample_run]
      [sample_job ''completed'' ''runner-1'' 5]) runner_investigation)
     (empty_cluster\<lparr>cl_configs := [sample_config]\<rparr>) =
   ((map_spec (\<lambda>sp. sp\<lparr>sp_WorkflowRun := Some (run_info sample_run ''o/r''),
                        sp_Job := Some (job_info (sample_job ''completed'' ''runner-1'' 5))\<rparr>)
       runner_investigation, None), empty_cluster\<lparr>cl_configs := [sample_config]\<rparr>)"
  by (simp add: enrichFromGitHub_def runner_investigation_def list_of_def empty_cluster_def
      sample_config_def search_repo_def search_run_def sample_job_def repo_full_name_def)

theorem github_match_sound_witness:
  "\<exists>er. sp_EphemeralRunner (inv_Spec runner_investigation) = Some er \<and>
     ji_RunnerName (job_info (sample_job ''completed'' ''runner-1'' 5)) = er_Name er"
proof -
  have "sp_Job (inv_Spec runner_investigation) = None"
    by (simp add: runner_investigation_def new_spec_def)
  from github_match_sound [OF sample_search this,
      of "job_info (sample_job ''completed'' ''runner-1'' 5)"]
  show ?thesis unfolding map_spec_simps by auto
qed

end
