(* ===== verification/Poller.thy ===== *)
theory Poller
  imports Submit JobEvidence Correlator
begin

text \<open>
  \<open>internal/controller/github_poller.go\<close>: the runnable that asks GitHub, at every tick, for the runs that
  are queued or in progress and opens an Investigation for a job that waits too long. It keeps no state
  of its own. \<open>Start\<close> is the run of its loop over the ticks and the end of the context.
\<close>

section \<open>Operations\<close>

record GitHubPoller =
  pollInterval :: duration
  queuedThresh :: duration

definition defaultQueuedThreshold :: duration where
  "defaultQueuedThreshold = 10 * Minute"

definition NewGitHubPoller :: "duration \<Rightarrow> GitHubPoller" where
  "NewGitHubPoller interval = \<lparr>pollInterval = interval, queuedThresh = defaultQueuedThreshold\<rparr>"

type_synonym 'w ghp = "(InvestigationCounter, unit, 'w) proc"

definition gh_inv_name :: "Job \<Rightarrow> string" where
  "gh_inv_name job = ''gh-'' @ fmt_id (job_ID job)"

definition gh_inv_key :: "string \<Rightarrow> Job \<Rightarrow> NamespacedName" where
  "gh_inv_key namespace job = \<lparr>nn_Namespace = namespace, nn_Name = gh_inv_name job\<rparr>"

definition gh_new_investigation ::
  "string \<Rightarrow> string \<Rightarrow> string \<Rightarrow> time \<Rightarrow> WorkflowRun \<Rightarrow> Job \<Rightarrow> string \<Rightarrow> Investigation" where
  "gh_new_investigation owner repo namespace now run job triggerType =
     (let repoFullName = repo_full_name owner repo in
      new_investigation (new_meta namespace (gh_inv_name job))
        ((new_spec triggerType (''github/'' @ repoFullName @ ''/jobs/'' @ fmt_id (job_ID job)))
           \<lparr>sp_WorkflowRun := Some (run_info run repoFullName),
            sp_Job := Some (job_info job),
            sp_Timeline :=
              [\<lparr>tl_Timestamp = now, tl_Source = ''github'', tl_Type = triggerType,
                tl_Message = ''Job '' @ job_Name job @ '' ('' @ triggerType @ '') in repo '' @
                             repoFullName\<rparr>]\<rparr>))"

definition createJobInvestigation ::
  "'w runtime \<Rightarrow> string \<Rightarrow> string \<Rightarrow> string \<Rightarrow> WorkflowRun \<Rightarrow> Job \<Rightarrow> string \<Rightarrow>
   ('w ghp, go_error option) state"
where
  "createJobInvestigation K owner repo namespace run job triggerType = do {
     r \<leftarrow> outside (Get_Investigation K (gh_inv_key namespace job));
     (case r of
        Inr iv \<Rightarrow> ret None
      | Inl e \<Rightarrow>
          if \<not> IsNotFound e then ret (Some e)
          else do {
            granted \<leftarrow> counter_TryIncrement;
            if \<not> granted then ret None
            else do {
              now \<leftarrow> outside (Now K);
              submit K (gh_new_investigation owner repo namespace now run job triggerType)
            }
          })
   }"

definition checkJob ::
  "'w runtime \<Rightarrow> GitHubPoller \<Rightarrow> string \<Rightarrow> string \<Rightarrow> string \<Rightarrow> WorkflowRun \<Rightarrow> Job \<Rightarrow> ('w ghp, unit) state"
where
  "checkJob K p owner repo namespace run job =
     (if job_Status job = ''queued'' \<and> \<not> IsZero (job_StartedAt job) then do {
        now \<leftarrow> outside (Now K);
        if Sub now (job_StartedAt job) > queuedThresh p then do {
          _ \<leftarrow> createJobInvestigation K owner repo namespace run job ''job-stuck-queued'';
          ret ()
        }
        else ret ()
      }
      else ret ())"

definition pollRun ::
  "'w runtime \<Rightarrow> 'w GHClient \<Rightarrow> GitHubPoller \<Rightarrow> string \<Rightarrow> string \<Rightarrow> string \<Rightarrow> WorkflowRun \<Rightarrow>
   ('w ghp, unit) state"
where
  "pollRun K g p owner repo namespace run = do {
     r \<leftarrow> outside (gh_ListJobsForRun g owner repo (run_ID run));
     (case r of
        Inl err \<Rightarrow> ret ()
      | Inr jobs \<Rightarrow> for_each (checkJob K p owner repo namespace run) jobs)
   }"

definition pollRepo ::
  "'w runtime \<Rightarrow> 'w GHClient \<Rightarrow> GitHubPoller \<Rightarrow> string \<Rightarrow> string \<Rightarrow> string \<Rightarrow> ('w ghp, unit) state"
where
  "pollRepo K g p owner repo namespace =
     for_each (\<lambda>status. do {
       r \<leftarrow> outside (gh_ListWorkflowRuns g owner repo \<lparr>lo_Status = status\<rparr>);
       (case r of
          Inl err \<Rightarrow> ret ()
        | Inr runs \<Rightarrow> for_each (pollRun K g p owner repo namespace) runs)
     }) [''in_progress'', ''queued'']"

definition poll ::
  "'w runtime \<Rightarrow> 'w GHClient \<Rightarrow> GitHubPoller \<Rightarrow> ('w ghp, go_error option) state" where
  "poll K g p = do {
     limited \<leftarrow> outside (gh_IsRateLimited g);
     if limited then ret None
     else do {
       r \<leftarrow> outside (List_Configs K);
       (case r of
          Inl err \<Rightarrow> ret (Some (Wrapped ''listing DetectiveConfigs'' err))
        | Inr configs \<Rightarrow> do {
            for_each (\<lambda>config. for_each (\<lambda>repo.
                pollRepo K g p (rr_Owner repo) (rr_Name repo) (om_Namespace (cfg_Meta config)))
              (dc_Repositories (cfg_Spec config))) configs;
            ret None
          })
     }
   }"

text \<open>
  The loop of \<open>Start\<close>: \<open>True\<close> is the return at the end of the context, \<open>False\<close> a loop that still
  waits. A ticker cannot be made for an interval that is not positive: \<open>time.NewTicker\<close> panics.
\<close>

fun poller_loop ::
  "'w runtime \<Rightarrow> 'w GHClient \<Rightarrow> GitHubPoller \<Rightarrow> signal list \<Rightarrow> ('w ghp, bool) state" where
  "poller_loop K g p [] = ret False"
| "poller_loop K g p (Done # sigs) = ret True"
| "poller_loop K g p (Tick # sigs) = do { _ \<leftarrow> poll K g p; poller_loop K g p sigs }"

definition poller_Start ::
  "'w runtime \<Rightarrow> 'w GHClient \<Rightarrow> GitHubPoller \<Rightarrow> signal list \<Rightarrow> ('w ghp, string + bool) state" where
  "poller_Start K g p sigs =
     (if pollInterval p \<le> 0 then ret (Inl ''non-positive interval for NewTicker'')
      else do { finished \<leftarrow> poller_loop K g p sigs; ret (Inr finished) })"

section \<open>What the operations call\<close>

lemma counter_grows:
  "state_io_rel (appends proc_calls P) counter_TryIncrement"
  "state_io_rel (appends proc_calls P) (counter_Decrement n)"
  by (auto simp: state_io_rel_def appends_def split: prod.split)

text \<open>
  An Investigation the poller creates: for a job that was queued and had started to wait, with nothing
  but the job and its run as evidence.
\<close>

definition gh_justified :: "Investigation \<Rightarrow> bool" where
  "gh_justified iv \<longleftrightarrow>
     (\<exists>owner repo namespace now run job.
        iv = gh_new_investigation owner repo namespace now run job ''job-stuck-queued'' \<and>
        job_Status job = ''queued'' \<and> \<not> IsZero (job_StartedAt job))"

lemma gh_justified_new:
  "job_Status job = ''queued'' \<Longrightarrow> \<not> IsZero (job_StartedAt job) \<Longrightarrow>
   gh_justified (gh_new_investigation owner repo ns now run job ''job-stuck-queued'')"
  unfolding gh_justified_def by blast

fun poller_call :: "call \<Rightarrow> bool" where
  "poller_call (CreateInvestigation iv) = gh_justified iv"
| "poller_call (StatusUpdateInvestigation iv) = (phase_of iv = phaseCollecting)"
| "poller_call (GetInvestigation k) = True"
| "poller_call ListConfigs = True"
| "poller_call (GHListRuns owner repo opts) = (lo_Status opts \<in> {''in_progress'', ''queued''})"
| "poller_call (GHListJobs owner repo i) = True"
| "poller_call GHIsRateLimited = True"
| "poller_call c = False"

lemmas poller_rules = call_rules counter_grows

lemma submit_appends:
  assumes "P (CreateInvestigation iv)"
    and "\<And>iv'. phase_of iv' = phaseCollecting \<Longrightarrow> P (StatusUpdateInvestigation iv')"
  shows "state_io_rel (appends proc_calls P) (submit (traced K) iv)"
  using assms unfolding submit_def traced_simps by (intro poller_rules) auto

lemma checkJob_calls:
  "state_io_rel (appends proc_calls poller_call) (checkJob (traced K) p owner repo ns run job)"
  unfolding checkJob_def createJobInvestigation_def traced_simps
  by (intro poller_rules submit_appends) (auto intro: gh_justified_new)

lemma pollRepo_calls:
  "state_io_rel (appends proc_calls poller_call)
     (pollRepo (traced K) (traced_client g) p owner repo ns)"
  unfolding pollRepo_def pollRun_def traced_client_simps
  by (simp only: for_each.simps, intro poller_rules checkJob_calls) auto

lemma poll_calls:
  "state_io_rel (appends proc_calls poller_call) (poll (traced K) (traced_client g) p)"
  unfolding poll_def traced_client_simps traced_simps
  by (intro poller_rules pollRepo_calls) auto

section \<open>Properties\<close>

subsection \<open>Rate limits\<close>

text \<open>
  What the poller uses of the client when it decides whether to poll: the answer depends on the state
  and does not change it.
\<close>

locale backoff =
  fixes g :: "'w GHClient" and limited :: "'w \<Rightarrow> bool"
  assumes asks_only: "run_state (gh_IsRateLimited g) w = (limited w, w)"
begin

lemma poll_limited: "limited (world p) \<Longrightarrow> run_state (poll K g c) p = (None, p)"
  by (simp add: poll_def asks_only)

lemma poll_unlimited: "\<not> limited (world p) \<Longrightarrow>
    run_state (poll K g c) p = run_state (do {
       r \<leftarrow> outside (List_Configs K);
       (case r of
          Inl err \<Rightarrow> ret (Some (Wrapped ''listing DetectiveConfigs'' err))
        | Inr configs \<Rightarrow> do {
            for_each (\<lambda>config. for_each (\<lambda>repo.
                pollRepo K g c (rr_Owner repo) (rr_Name repo) (om_Namespace (cfg_Meta config)))
              (dc_Repositories (cfg_Spec config))) configs;
            ret None
          })
     }) p"
  by (simp add: poll_def asks_only)

lemma loop_limited: "limited (world p) \<Longrightarrow> snd (run_state (poller_loop K g c sigs) p) = p"
proof (induction sigs)
  case Nil
  then show ?case by simp
next
  case (Cons s sigs)
  then show ?case by (cases s) (simp_all add: poll_limited)
qed

lemma Start_limited: "limited (world p) \<Longrightarrow> snd (run_state (poller_Start K g c sigs) p) = p"
  using loop_limited [of p K c sigs] by (auto simp: poller_Start_def split: prod.splits)

end

interpretation client_backoff:
  backoff "client_methods env decRuns decJobs decJob c" "\<lambda>s. ShouldBackoff (gs_rateLimit s)"
  for env decRuns decJobs decJob c
  by unfold_locales (simp add: client_methods_def IsRateLimited_def)

text \<open>C32: a poller that is rate limited never polls again by itself: with the client of the repository,
  once the last quota that was read is at or below the threshold, any number of ticks leaves the whole
  state as it is, so the tracker is not refreshed either, whatever time the reset was announced for and
  whatever the clock says.\<close>

theorem rate_limited_poller_is_stuck:
  assumes "ShouldBackoff (gs_rateLimit (world p))"
  shows "snd (run_state (poller_Start K (client_methods env decRuns decJobs decJob c) q sigs) p) = p"
  using assms by (rule client_backoff.Start_limited)

theorem rate_limited_poller_is_stuck_witness:
  "\<forall>K decRuns decJobs decJob c.
     let p = \<lparr>counter = \<lparr>ic_count = 0, ic_max = 3\<rparr>, own = (),
            world = \<lparr>gs_rateLimit = \<lparr>rl_remaining = 5, rl_resetAt = 1, rl_threshold = 10\<rparr>,
                     gs_net = ()\<rparr>\<rparr>
     in snd (run_state (poller_Start (K :: unit gh_state runtime)
        (client_methods (answer_env limited_response) decRuns decJobs decJob c)
        (NewGitHubPoller (30 * Second)) [Tick, Tick, Tick]) p) = p"
  unfolding Let_def by (intro allI rate_limited_poller_is_stuck) (simp add: ShouldBackoff_def)

subsection \<open>Which jobs are reported\<close>

text \<open>C16: the age of a queued job decides alone, strictly above ten minutes: with the clock standing still
  during the step, checkJob looks for the Investigation of the job (to create it where there is none)
  exactly when the job is queued, has a start time and has waited longer than the threshold; in every
  other case it changes nothing at all.\<close>

theorem job_reported_iff_overdue:
  assumes "reads_clock K clk" and "now = clk (fst (world p))"
  shows "if job_Status job = ''queued'' \<and> \<not> IsZero (job_StartedAt job) \<and>
            10 * Minute < now - job_StartedAt job
    then \<exists>new. proc_calls (snd (run_state
           (checkJob (traced K) (NewGitHubPoller interval) owner repo ns run job) p)) =
         proc_calls p @ GetInvestigation (gh_inv_key ns job) # new
    else run_state (checkJob (traced K) (NewGitHubPoller interval) owner repo ns run job) p = ((), p)"
proof -
  have lim: "queuedThresh (NewGitHubPoller interval) < Sub now t \<longleftrightarrow> 10 * Minute < now - t" for t
    by (simp add: NewGitHubPoller_def defaultQueuedThreshold_def)
      (rule less_Sub_iff, simp_all add: duration_units is_int64_def maxDuration_def)
  have first: "\<exists>new. proc_calls (snd (run_state
      (createJobInvestigation (traced K) owner repo ns run job trigger) p)) =
      proc_calls p @ GetInvestigation (gh_inv_key ns job) # new" for trigger p
  proof -
    obtain r w where r: "run_state (Get_Investigation K (gh_inv_key ns job)) (fst (world p)) = (r, w)"
      by (meson surj_pair)
    define q where "q = p\<lparr>world := (w, proc_calls p @ [GetInvestigation (gh_inv_key ns job)])\<rparr>"
    define m :: "(_ ghp, _) state" where "m = (case r of
        Inr iv \<Rightarrow> ret None
      | Inl e \<Rightarrow>
          if \<not> IsNotFound e then ret (Some e)
          else do {
            granted \<leftarrow> counter_TryIncrement;
            if \<not> granted then ret None
            else do {
              now \<leftarrow> outside (Now (traced K));
              submit (traced K) (gh_new_investigation owner repo ns now run job trigger)
            }
          })"
    have "grows proc_calls m"
      unfolding m_def traced_simps by (intro poller_rules submit_appends) auto
    from state_io_rel_run [OF this, of q] show ?thesis
      by (auto simp: appends_def createJobInvestigation_def r m_def q_def cong: sum.case_cong)
  qed
  show ?thesis
    using first [of "''job-stuck-queued''" p] lim [of "job_StartedAt job"] assms
    by (cases p) (auto simp: checkJob_def reads_clockD [OF assms(1)] split: prod.splits)
qed

definition fresh_ghp :: "cluster \<Rightarrow> (cluster \<times> call list) ghp" where
  "fresh_ghp c = \<lparr>counter = \<lparr>ic_count = 0, ic_max = 3\<rparr>, own = (), world = (c, [])\<rparr>"

definition waiting_cluster :: "time \<Rightarrow> cluster" where
  "waiting_cluster now = empty_cluster\<lparr>cl_time := now, cl_configs := [sample_config]\<rparr>"

theorem job_reported_iff_overdue_witness:
  "run_state (checkJob (traced sample_kube) (NewGitHubPoller 0) ''o'' ''r'' ''ns'' sample_run
      (sample_job ''queued'' [] 5)) (fresh_ghp (waiting_cluster (10 * Minute + 5))) =
    ((), fresh_ghp (waiting_cluster (10 * Minute + 5)))"
proof -
  have "cl_time (fst (world (fresh_ghp (waiting_cluster (10 * Minute + 5))))) = 10 * Minute + 5"
    by (simp add: fresh_ghp_def waiting_cluster_def)
  from job_reported_iff_overdue [OF sample_clock this [symmetric], of "sample_job ''queued'' [] 5" 0
      "''o''" "''r''" "''ns''" sample_run]
  show ?thesis by (simp add: sample_job_def)
qed

lemma gh_justified_evidence:
  assumes "gh_justified iv"
  shows "diagnose (inv_Spec iv) = Some JobStuckQueued \<and>
    (\<exists>job run. sp_Job (inv_Spec iv) = Some job \<and> sp_WorkflowRun (inv_Spec iv) = Some run \<and>
       om_Name (inv_Meta iv) = ''gh-'' @ fmt_id (ji_ID job))"
proof -
  obtain owner repo namespace now run job where iv:
    "iv = gh_new_investigation owner repo namespace now run job ''job-stuck-queued''"
    and queued: "job_Status job = ''queued''"
    using assms unfolding gh_justified_def by blast
  have sp: "sp_Pod (inv_Spec iv) = None" "sp_EphemeralRunner (inv_Spec iv) = None"
    "sp_Job (inv_Spec iv) = Some (job_info job)"
    "sp_WorkflowRun (inv_Spec iv) = Some (run_info run (repo_full_name owner repo))"
    "om_Name (inv_Meta iv) = ''gh-'' @ fmt_id (job_ID job)"
    by (simp_all add: iv gh_new_investigation_def Let_def new_spec_def new_meta_def gh_inv_name_def)
  have "diagnose (inv_Spec iv) = Some JobStuckQueued"
    by (simp add: diagnose_def evidence_defs sp) (simp add: job_info_def queued)
  with sp show ?thesis by (simp add: job_info_def)
qed

text \<open>C33: a poll never writes anything but Investigations of jobs that are stuck in the queue: it makes
  no call beside its reads, and each Investigation it creates is named after the job's id, holds the
  job and its run, and is complete as evidence: it is diagnosed job-stuck-queued as it stands.\<close>

theorem poller_investigations_diagnosable:
  "\<exists>new. proc_calls (snd (run_state (poll (traced K) (traced_client g) q) p)) = proc_calls p @ new \<and>
     (\<forall>c \<in> set new. poller_call c) \<and>
     (\<forall>iv. CreateInvestigation iv \<in> set new \<longrightarrow>
        diagnose (inv_Spec iv) = Some JobStuckQueued \<and>
        (\<exists>job run. sp_Job (inv_Spec iv) = Some job \<and> sp_WorkflowRun (inv_Spec iv) = Some run \<and>
           om_Name (inv_Meta iv) = ''gh-'' @ fmt_id (ji_ID job)))"
proof -
  obtain new where new:
    "proc_calls (snd (run_state (poll (traced K) (traced_client g) q) p)) = proc_calls p @ new"
    "\<forall>c \<in> set new. poller_call c"
    using state_io_rel_run [OF poll_calls [of K g q], of p] by (auto simp: appends_def)
  with gh_justified_evidence show ?thesis by (intro exI [of _ new]) force
qed

theorem poller_investigations_diagnosable_witness:
  "\<exists>new. proc_calls (snd (run_state (poll (traced sample_kube)
        (traced_client (sample_gh False [sample_run] [sample_job ''queued'' [] 5])) (NewGitHubPoller 0))
        (fresh_ghp (waiting_cluster (11 * Minute))))) = [] @ new \<and>
     (\<forall>c \<in> set new. poller_call c)"
proof -
  have "proc_calls (fresh_ghp (waiting_cluster (11 * Minute))) = []" by (simp add: fresh_ghp_def)
  then show ?thesis
    using poller_investigations_diagnosable [of sample_kube
        "sample_gh False [sample_run] [sample_job ''queued'' [] 5]" "NewGitHubPoller 0"
        "fresh_ghp (waiting_cluster (11 * Minute))"] by auto
qed

text \<open>Every part of a poll only adds to the trace, and the visit of a repository asks GitHub for the
  runs of both statuses whatever becomes of the first.\<close>

lemma checkJob_grows: "grows proc_calls (checkJob (traced K) q owner name ns run job)"
  unfolding checkJob_def createJobInvestigation_def traced_simps
  by (intro poller_rules submit_appends) auto

lemma pollRun_grows: "grows proc_calls (pollRun (traced K) (traced_client g) q owner name ns run)"
  unfolding pollRun_def traced_client_simps by (intro poller_rules checkJob_grows) auto

lemma pollRepo_grows: "grows proc_calls (pollRepo (traced K) (traced_client g) q owner name ns)"
  unfolding pollRepo_def traced_client_simps by (intro poller_rules pollRun_grows) auto

lemma pollRepo_lists_runs:
  assumes "status \<in> {''in_progress'', ''queued''}"
  shows "makes proc_calls (GHListRuns owner name \<lparr>lo_Status = status\<rparr>)
    (pollRepo (traced K) (traced_client g) q owner name ns)"
proof -
  let ?status = "\<lambda>st. do {
       r \<leftarrow> outside (gh_ListWorkflowRuns (traced_client g) owner name \<lparr>lo_Status = st\<rparr>);
       (case r of
          Inl err \<Rightarrow> ret ()
        | Inr runs \<Rightarrow> for_each (pollRun (traced K) (traced_client g) q owner name ns) runs)
     }"
  have "grows proc_calls (?status st)" for st
    unfolding traced_client_simps by (intro poller_rules pollRun_grows) auto
  moreover have "makes proc_calls (GHListRuns owner name \<lparr>lo_Status = status\<rparr>) (?status status)"
    unfolding traced_client_simps
    by (rule makes_bind_left [OF makes_outside]) (intro poller_rules pollRun_grows)
  ultimately show ?thesis
    unfolding pollRepo_def using assms by (intro makes_for_each [where x = status]) auto
qed

text \<open>No failure keeps a repository from being polled: when the client is not rate limited and the
  configs can be listed, a poll asks for the runs in progress and for the queued runs of every
  repository of every config, whatever GitHub and the API server answer to the calls in between.\<close>

lemma poll_visits_every_repository:
  assumes free: "run_state (gh_IsRateLimited g) (fst (world p)) = (False, w1)"
    and configs: "run_state (List_Configs K) w1 = (Inr configs, w2)"
    and config: "config \<in> set configs" and repo: "repo \<in> set (dc_Repositories (cfg_Spec config))"
    and status: "status \<in> {''in_progress'', ''queued''}"
  shows "GHListRuns (rr_Owner repo) (rr_Name repo) \<lparr>lo_Status = status\<rparr> \<in>
    set (proc_calls (snd (run_state (poll (traced K) (traced_client g) q) p)))"
proof -
  let ?c = "GHListRuns (rr_Owner repo) (rr_Name repo) \<lparr>lo_Status = status\<rparr>"
  let ?repo = "\<lambda>cfg r. pollRepo (traced K) (traced_client g) q (rr_Owner r) (rr_Name r)
      (om_Namespace (cfg_Meta cfg))"
  have "makes proc_calls ?c (for_each (?repo config) (dc_Repositories (cfg_Spec config)))"
    using repo status
    by (intro makes_for_each [where x = repo] pollRepo_lists_runs pollRepo_grows)
  then have all: "makes proc_calls ?c
      (for_each (\<lambda>cfg. for_each (?repo cfg) (dc_Repositories (cfg_Spec cfg))) configs)"
    using config by (intro makes_for_each [where x = config] calls.io_for_each pollRepo_grows) auto
  show ?thesis
    using all [unfolded makes_def, rule_format,
        of "p\<lparr>world := (w2, proc_calls p @ [GHIsRateLimited, ListConfigs])\<rparr>"] free configs
    by (auto simp: poll_def split: prod.split)
qed

end
