(* ===== verification/GoPath.thy ===== *)
theory GoPath
  imports Main
begin

text \<open>
  \<open>path/filepath\<close> of Go's standard library on Unix, as far as the log storage uses it: \<open>Clean\<close>,
  \<open>Join\<close>, \<open>Dir\<close> and \<open>Rel\<close> are lexical, so they are given by the components between the slashes.
  \<open>resolve\<close> is what the operating system makes of a cleaned path: the names from the root directory
  on. The image runs with the root as its working directory, so a relative path starts there too.
\<close>

section \<open>Components\<close>

fun split_slash :: "string \<Rightarrow> string list" where
  "split_slash [] = [[]]"
| "split_slash (c # s) =
     (if c = CHR ''/'' then [] # split_slash s
      else (case split_slash s of [] \<Rightarrow> [[c]] | x # xs \<Rightarrow> (c # x) # xs))"

fun join_slash :: "string list \<Rightarrow> string" where
  "join_slash [] = []"
| "join_slash [x] = x"
| "join_slash (x # y # ys) = x @ ''/'' @ join_slash (y # ys)"

lemma split_slash_ne [simp]: "split_slash s \<noteq> []"
  by (induction s) (auto split: list.split)

lemma split_slash_no_slash: "CHR ''/'' \<notin> set s \<Longrightarrow> split_slash s = [s]"
  by (induction s) auto

lemma split_slash_append:
  "CHR ''/'' \<notin> set x \<Longrightarrow> split_slash (x @ CHR ''/'' # s) = x # split_slash s"
  by (induction x) auto

definition no_slash :: "string list \<Rightarrow> bool" where
  "no_slash cs \<longleftrightarrow> (\<forall>c \<in> set cs. CHR ''/'' \<notin> set c)"

lemma split_join: "cs \<noteq> [] \<Longrightarrow> no_slash cs \<Longrightarrow> split_slash (join_slash cs) = cs"
  by (induction cs rule: join_slash.induct)
    (auto simp: no_slash_def split_slash_no_slash split_slash_append)

lemma no_slash_split: "no_slash (split_slash s)"
  by (induction s) (auto simp: no_slash_def split: list.split if_splits)

lemma split_append:
  "split_slash (s @ CHR ''/'' # t) = split_slash s @ split_slash t"
  by (induction s) (auto split: list.split)

section \<open>Clean\<close>

text \<open>
  Empty components and \<open>.\<close> are dropped; \<open>..\<close> drops the component before it, is dropped at the start of a
  rooted path, and stays at the start of a relative one. \<open>stack\<close> is reversed.
\<close>

fun clean_step :: "bool \<Rightarrow> string list \<Rightarrow> string \<Rightarrow> string list" where
  "clean_step rooted stack c =
     (if c = [] \<or> c = ''.'' then stack
      else if c = ''..'' then
        (case stack of
           [] \<Rightarrow> if rooted then [] else [''..'']
         | x # xs \<Rightarrow> if x = ''..'' then ''..'' # x # xs else xs)
      else c # stack)"

definition clean_comps :: "bool \<Rightarrow> string list \<Rightarrow> string list" where
  "clean_comps rooted cs = rev (foldl (clean_step rooted) [] cs)"

definition is_rooted :: "string \<Rightarrow> bool" where
  "is_rooted p = (case p of [] \<Rightarrow> False | c # s \<Rightarrow> c = CHR ''/'')"

definition Clean :: "string \<Rightarrow> string" where
  "Clean p =
     (let cs = clean_comps (is_rooted p) (split_slash p) in
      if is_rooted p then CHR ''/'' # join_slash cs
      else if cs = [] then ''.'' else join_slash cs)"

text \<open>\<open>filepath.Join\<close>: leading empty elements are skipped.\<close>

definition Join :: "string list \<Rightarrow> string" where
  "Join elem =
     (case dropWhile (\<lambda>e. e = []) elem of [] \<Rightarrow> [] | es \<Rightarrow> Clean (join_slash es))"

text \<open>\<open>filepath.Dir\<close> of a cleaned path: everything up to the last slash, cleaned.\<close>

definition Path_Dir :: "string \<Rightarrow> string" where
  "Path_Dir p =
     (let cs = split_slash p in
      Clean (if length cs = 1 then [] else join_slash (butlast cs @ [[]])))"

text \<open>\<open>filepath.Rel\<close> of two cleaned paths that are both rooted or both relative.\<close>

fun rel_comps :: "string list \<Rightarrow> string list \<Rightarrow> string list" where
  "rel_comps (b # bs) (t # ts) =
     (if b = t then rel_comps bs ts else map (\<lambda>_. ''..'') (b # bs) @ t # ts)"
| "rel_comps bs ts = map (\<lambda>_. ''..'') bs @ ts"

definition resolve :: "string \<Rightarrow> string list" where
  "resolve p = filter (\<lambda>c. c \<noteq> [] \<and> c \<noteq> ''.'' \<and> c \<noteq> ''..'') (split_slash p)"

definition Rel :: "string \<Rightarrow> string \<Rightarrow> string" where
  "Rel base targ =
     (let r = rel_comps (resolve (Clean base)) (resolve (Clean targ))
      in if r = [] then ''.'' else join_slash r)"

section \<open>Names\<close>

text \<open>A component that stands for itself.\<close>

definition proper :: "string \<Rightarrow> bool" where
  "proper c \<longleftrightarrow> c \<noteq> [] \<and> c \<noteq> ''.'' \<and> c \<noteq> ''..'' \<and> CHR ''/'' \<notin> set c"

definition propers :: "string list \<Rightarrow> bool" where
  "propers cs \<longleftrightarrow> (\<forall>c \<in> set cs. proper c)"

lemma propers_simps [simp]:
  "propers []" "propers (c # cs) \<longleftrightarrow> proper c \<and> propers cs"
  "propers (xs @ ys) \<longleftrightarrow> propers xs \<and> propers ys" "propers (rev xs) = propers xs"
  by (auto simp: propers_def)

lemma propers_no_slash: "propers cs \<Longrightarrow> no_slash cs"
  by (auto simp: propers_def proper_def no_slash_def)

lemma foldl_clean_propers:
  "propers cs \<Longrightarrow> foldl (clean_step rooted) stack cs = rev cs @ stack"
  by (induction cs arbitrary: stack) (auto simp: proper_def)

lemma clean_comps_propers: "propers cs \<Longrightarrow> clean_comps rooted cs = cs"
  by (simp add: clean_comps_def foldl_clean_propers)

lemma foldl_clean_app:
  "clean_comps rooted (xs @ ys) = rev (foldl (clean_step rooted) (rev (clean_comps rooted xs)) ys)"
  by (simp add: clean_comps_def)

text \<open>What \<open>Clean\<close> leaves of a rooted path are proper components.\<close>

lemma clean_rooted_propers: "no_slash cs \<Longrightarrow> propers (clean_comps True cs)"
proof -
  have "propers stack \<Longrightarrow> no_slash cs \<Longrightarrow> propers (foldl (clean_step True) stack cs)" for stack
  proof (induction cs arbitrary: stack)
    case Nil
    then show ?case by simp
  next
    case (Cons c cs)
    have "propers (clean_step True stack c)"
      using Cons.prems by (cases stack) (auto simp: proper_def no_slash_def)
    then show ?case using Cons by (simp add: no_slash_def del: clean_step.simps)
  qed
  then show "no_slash cs \<Longrightarrow> propers (clean_comps True cs)" by (simp add: clean_comps_def)
qed

lemma resolve_join: "propers cs \<Longrightarrow> resolve (join_slash cs) = cs"
proof (cases "cs = []")
  case False
  moreover assume "propers cs"
  ultimately show ?thesis
    by (auto simp: resolve_def split_join propers_no_slash propers_def proper_def filter_id_conv)
qed (simp add: resolve_def)

lemma resolve_rooted_join: "propers cs \<Longrightarrow> resolve (CHR ''/'' # join_slash cs) = cs"
  using resolve_join [of cs] by (simp add: resolve_def)

lemma is_rooted_join: "propers cs \<Longrightarrow> \<not> is_rooted (join_slash cs)"
  by (cases cs rule: join_slash.cases; cases "hd cs")
    (auto simp: is_rooted_def proper_def split: list.split)

lemma Clean_join: "propers cs \<Longrightarrow> cs \<noteq> [] \<Longrightarrow> Clean (join_slash cs) = join_slash cs"
  by (simp add: Clean_def is_rooted_join split_join propers_no_slash clean_comps_propers Let_def)

text \<open>A path beneath a rooted directory.\<close>

lemma resolve_Join_rooted:
  assumes "is_rooted root"
  shows "resolve (Join [root, p]) = clean_comps True (split_slash root @ split_slash p)"
proof -
  have "Join [root, p] = CHR ''/'' # join_slash (clean_comps True (split_slash root @ split_slash p))"
    using assms
    by (cases root) (auto simp: Join_def is_rooted_def Clean_def split_append Let_def)
  moreover have "propers (clean_comps True (split_slash root @ split_slash p))"
    by (rule clean_rooted_propers) (use no_slash_split in \<open>auto simp: no_slash_def\<close>)
  ultimately show ?thesis by (simp add: resolve_rooted_join)
qed

lemma resolve_Clean_rooted:
  assumes "is_rooted root"
  shows "resolve (Clean root) = clean_comps True (split_slash root)"
  using assms clean_rooted_propers [OF no_slash_split, of root]
  by (simp add: Clean_def Let_def resolve_rooted_join)

lemma resolve_beneath:
  assumes "is_rooted root" and "propers cs" and "cs \<noteq> []"
  shows "resolve (Join [root, Clean (join_slash cs)]) = resolve (Clean root) @ cs"
  using assms
  by (simp add: resolve_Join_rooted resolve_Clean_rooted Clean_join split_join propers_no_slash
      foldl_clean_app foldl_clean_propers)

lemma rel_comps_beneath: "rel_comps bs (bs @ ts) = ts"
  by (induction bs) (cases ts, simp_all)

text \<open>The directory of a rooted path.\<close>

lemma join_slash_Cons: "cs \<noteq> [] \<Longrightarrow> join_slash (c # cs) = c @ CHR ''/'' # join_slash cs"
  by (cases cs) simp_all

lemma resolve_Path_Dir:
  assumes "propers ds" and "ds \<noteq> []"
  shows "resolve (Path_Dir (CHR ''/'' # join_slash ds)) = butlast ds"
proof -
  have front: "propers (butlast ds)" using assms(1) by (auto simp: propers_def dest: in_set_butlastD)
  have split: "split_slash (CHR ''/'' # join_slash ds) = [] # ds"
    using assms by (simp add: split_join propers_no_slash)
  let ?s = "join_slash (butlast ds @ [[]])"
  have dir: "Path_Dir (CHR ''/'' # join_slash ds) = Clean (CHR ''/'' # ?s)"
    using assms(2)
    by (simp only: Path_Dir_def split Let_def) (simp add: join_slash_Cons)
  have "no_slash (butlast ds @ [[]])"
    using propers_no_slash [OF front] by (auto simp: no_slash_def)
  then have "split_slash ?s = butlast ds @ [[]]" by (intro split_join) simp_all
  then have "Clean (CHR ''/'' # ?s) = CHR ''/'' # join_slash (butlast ds)"
    using front
    by (simp add: Clean_def is_rooted_def clean_comps_def foldl_clean_propers)
  then show ?thesis unfolding dir using resolve_rooted_join [OF front] by simp
qed

lemma Join_rooted_string:
  assumes "is_rooted root"
  shows "Join [root, p] = CHR ''/'' # join_slash (resolve (Join [root, p]))"
proof -
  have "Join [root, p] = CHR ''/'' # join_slash (clean_comps True (split_slash root @ split_slash p))"
    using assms
    by (cases root) (auto simp: Join_def is_rooted_def Clean_def split_append Let_def)
  with resolve_Join_rooted [OF assms, of p] show ?thesis by simp
qed

end
