(* ===== verification/Disk.thy ===== *)
theory Disk
  imports GoPath GoTime GoSort Storage "HOL-Library.AList" "HOL-Library.Sublist"
    "HOL-Library.List_Lexorder" "HOL-Library.Char_ord"
begin

text \<open>
  \<open>internal/logcollector/storage.go\<close>: \<open>DiskStorage\<close>, and the file system under it as far as Go's \<open>os\<close>
  and \<open>filepath.Walk\<close> see it: nodes by their path from the root directory, the directories the process
  may not enter, and the clock that stamps a file. File sizes are added as integers: a total beyond
  \<open>2^63\<close> bytes is out of reach of a disk.
\<close>

section \<open>The file system\<close>

datatype node = DirNode | FileNode string time

record disk =
  ds_nodes :: "(string list \<times> node) list"
  ds_denied :: "string list list"
  ds_clock :: time

definition node_at :: "disk \<Rightarrow> string list \<Rightarrow> node option" where
  "node_at d p = (if p = [] then Some DirNode else map_of (ds_nodes d) p)"

definition is_file :: "disk \<Rightarrow> string list \<Rightarrow> bool" where
  "is_file d p = (case node_at d p of Some (FileNode c t) \<Rightarrow> True | _ \<Rightarrow> False)"

definition denied :: "disk \<Rightarrow> string list \<Rightarrow> bool" where
  "denied d p = list_ex (\<lambda>r. strict_prefix r p) (ds_denied d)"

definition put_node :: "string list \<Rightarrow> node \<Rightarrow> disk \<Rightarrow> disk" where
  "put_node p n d = d\<lparr>ds_nodes := AList.update p n (ds_nodes d)\<rparr>"

definition eacces :: go_error where "eacces = Errorf ''permission denied''"
definition enotdir :: go_error where "enotdir = Errorf ''not a directory''"
definition eisdir :: go_error where "eisdir = Errorf ''is a directory''"

text \<open>\<open>os.MkdirAll\<close>: \<open>pre\<close> exists; what it has created before a failure stays.\<close>

fun MkdirAll :: "string list \<Rightarrow> string list \<Rightarrow> disk \<Rightarrow> go_error option \<times> disk" where
  "MkdirAll pre [] d = (None, d)"
| "MkdirAll pre (c # cs) d =
     (let p = pre @ [c] in
      case node_at d p of
        Some DirNode \<Rightarrow> MkdirAll p cs d
      | Some (FileNode b t) \<Rightarrow> (Some enotdir, d)
      | None \<Rightarrow> if denied d p then (Some eacces, d) else MkdirAll p cs (put_node p DirNode d))"

text \<open>\<open>os.Create\<close> in an existing directory.\<close>

definition Create_file :: "string list \<Rightarrow> disk \<Rightarrow> go_error option \<times> disk" where
  "Create_file p d =
     (if node_at d p = Some DirNode then (Some eisdir, d)
      else if denied d p then (Some eacces, d)
      else (None, put_node p (FileNode [] (ds_clock d)) d))"

text \<open>\<open>os.Open\<close>\<close>

definition Open_file :: "string list \<Rightarrow> disk \<Rightarrow> go_error + string option" where
  "Open_file p d =
     (if denied d p then Inl eacces
      else (case node_at d p of
              None \<Rightarrow> Inl (Errorf ''no such file or directory'')
            | Some DirNode \<Rightarrow> Inr None
            | Some (FileNode b t) \<Rightarrow> Inr (Some b)))"

text \<open>
  \<open>os.RemoveAll\<close>: what is beneath a directory that may not be entered stays, and so do the directories
  above it; a file in the place of a parent directory is an error, a missing path is none.
\<close>

definition stays :: "disk \<Rightarrow> string list \<Rightarrow> string list \<Rightarrow> bool" where
  "stays d p q \<longleftrightarrow>
     \<not> prefix p q \<or> list_ex (\<lambda>(q', n). prefix q q' \<and> denied d q') (ds_nodes d)"

definition RemoveAll :: "string list \<Rightarrow> disk \<Rightarrow> go_error option \<times> disk" where
  "RemoveAll p d =
     (if list_ex (\<lambda>r. is_file d r) (butlast (prefixes p)) then (Some enotdir, d)
      else
        (let d' = d\<lparr>ds_nodes := filter (\<lambda>(q, n). stays d p q) (ds_nodes d)\<rparr> in
         if p = [] then (Some eisdir, d')
         else if list_ex (\<lambda>(q, n). prefix p q) (ds_nodes d') then (Some eacces, d')
         else (None, d')))"

text \<open>
  \<open>filepath.Walk\<close> with a function that skips errors and directories: the files in lexical order, as
  path, content and time.
\<close>

definition walk_files :: "string list \<Rightarrow> disk \<Rightarrow> (string list \<times> string \<times> time) list" where
  "walk_files p d =
     List.map_filter (\<lambda>(q, n). case n of DirNode \<Rightarrow> None | FileNode b t \<Rightarrow> Some (q, b, t))
       (sort_key fst (filter (\<lambda>(q, n). prefix p q \<and> \<not> denied d q) (ds_nodes d)))"

section \<open>DiskStorage\<close>

record DiskStorage =
  ds_root :: string

definition NewDiskStorage :: "string \<Rightarrow> DiskStorage" where
  "NewDiskStorage root = \<lparr>ds_root = root\<rparr>"

definition full_path :: "DiskStorage \<Rightarrow> string \<Rightarrow> string" where
  "full_path s path = Join [ds_root s, Clean path]"

text \<open>The string \<open>Walk\<close> passes for a path: rooted as the root it started from.\<close>

definition path_string :: "DiskStorage \<Rightarrow> string list \<Rightarrow> string" where
  "path_string s q =
     (if is_rooted (ds_root s) then CHR ''/'' # join_slash q
      else if q = [] then ''.'' else join_slash q)"

definition disk_Write :: "DiskStorage \<Rightarrow> string \<Rightarrow> stream \<Rightarrow> (disk, go_error option) state" where
  "disk_Write s path data = State (\<lambda>d.
     let full = full_path s path in
     case MkdirAll [] (resolve (Path_Dir full)) d of
       (Some err, d1) \<Rightarrow> (Some (Wrapped ''creating directory'' err), d1)
     | (None, d1) \<Rightarrow>
         (case Create_file (resolve full) d1 of
            (Some err, d2) \<Rightarrow> (Some (Wrapped ''creating file'' err), d2)
          | (None, d2) \<Rightarrow>
              (map_option (Wrapped ''writing file'') (snd data),
               put_node (resolve full) (FileNode (fst data) (ds_clock d2)) d2)))"

definition disk_Read :: "DiskStorage \<Rightarrow> string \<Rightarrow> (disk, go_error + string option) state" where
  "disk_Read s path = gets (Open_file (resolve (full_path s path)))"

text \<open>\<open>RemoveAll\<close> refuses a path that ends in a dot.\<close>

definition disk_Delete :: "DiskStorage \<Rightarrow> string \<Rightarrow> (disk, go_error option) state" where
  "disk_Delete s path = State (\<lambda>d.
     let full = full_path s path in
     if full = ''.'' then (Some (Errorf ''invalid argument''), d)
     else RemoveAll (resolve full) d)"

definition disk_ListPrefix :: "DiskStorage \<Rightarrow> string \<Rightarrow> (disk, string list) state" where
  "disk_ListPrefix s pre = gets (\<lambda>d.
     sort (map (\<lambda>(q, b, t). Rel (ds_root s) (path_string s q)) (walk_files (resolve (full_path s pre)) d)))"

definition disk_UsageBytes :: "DiskStorage \<Rightarrow> (disk, int \<times> go_error option) state" where
  "disk_UsageBytes s = gets (\<lambda>d.
     (sum_list (map (\<lambda>(q, b, t). int (length b)) (walk_files (resolve (Clean (ds_root s))) d)), None))"

text \<open>\<open>ModTime().Unix()\<close>\<close>

definition unix_seconds :: "time \<Rightarrow> int" where
  "unix_seconds t = t div Second - 62135596800"

type_synonym entry_sort =
  "(string \<times> int \<Rightarrow> string \<times> int \<Rightarrow> bool) \<Rightarrow> (string \<times> int) list \<Rightarrow> (string \<times> int) list"

definition file_entries :: "DiskStorage \<Rightarrow> disk \<Rightarrow> (string \<times> int) list" where
  "file_entries s d =
     filter (\<lambda>(rel, m). HasSuffix rel ''.log'')
       (map (\<lambda>(q, b, t). (Rel (ds_root s) (path_string s q), unix_seconds t))
         (walk_files (resolve (Clean (ds_root s))) d))"

definition disk_OldestFiles ::
  "entry_sort \<Rightarrow> DiskStorage \<Rightarrow> (disk, go_error + string list) state" where
  "disk_OldestFiles srt s = gets (\<lambda>d.
     Inr (map fst (srt (\<lambda>a b. snd a < snd b) (file_entries s d))))"

definition disk_storage :: "entry_sort \<Rightarrow> DiskStorage \<Rightarrow> disk Storage" where
  "disk_storage srt s =
     \<lparr>st_Write = disk_Write s, st_Read = disk_Read s, st_Delete = disk_Delete s,
      st_ListPrefix = disk_ListPrefix s, st_UsageBytes = disk_UsageBytes s,
      st_disk = Some (disk_OldestFiles srt s)\<rparr>"

section \<open>Well-formed disks\<close>

text \<open>Every node is in a directory, no path occurs twice, and the names are proper ones.\<close>

definition wf_disk :: "disk \<Rightarrow> bool" where
  "wf_disk d \<longleftrightarrow>
     distinct (map fst (ds_nodes d)) \<and> [] \<notin> set (map fst (ds_nodes d)) \<and>
     (\<forall>q. node_at d q \<noteq> None \<longrightarrow> propers q) \<and>
     (\<forall>q r. node_at d q \<noteq> None \<longrightarrow> strict_prefix r q \<longrightarrow> node_at d r = Some DirNode)"

definition file_at :: "disk \<Rightarrow> string list \<Rightarrow> string option" where
  "file_at d p = (case node_at d p of Some (FileNode b t) \<Rightarrow> Some b | _ \<Rightarrow> None)"

lemma node_at_root [simp]: "node_at d [] = Some DirNode"
  by (simp add: node_at_def)

lemma node_at_put [simp]:
  "p \<noteq> [] \<Longrightarrow> node_at (put_node p n d) q = (if q = p then Some n else node_at d q)"
  by (auto simp: node_at_def put_node_def update_conv')

lemma put_node_simps [simp]:
  "ds_clock (put_node p n d) = ds_clock d" "ds_denied (put_node p n d) = ds_denied d"
  "denied (put_node p n d) = denied d"
  by (simp_all add: put_node_def denied_def fun_eq_iff)

lemma wf_put_node:
  assumes "wf_disk d" and "p \<noteq> []" and "node_at d (butlast p) = Some DirNode"
    and "node_at d p = Some DirNode \<longrightarrow> n = DirNode" and "propers p"
  shows "wf_disk (put_node p n d)"
proof -
  have above: "node_at d r = Some DirNode" if "strict_prefix r p" for r
  proof (cases "r = butlast p")
    case False
    from that assms(2) have "prefix r (butlast p)"
      by (metis append_butlast_last_id prefix_order.less_le prefix_snoc)
    with False have "strict_prefix r (butlast p)" by (simp add: strict_prefix_def)
    with assms(1,3) show ?thesis by (auto simp: wf_disk_def)
  qed (simp add: assms(3))
  have "node_at (put_node p n d) r = Some DirNode"
    if "node_at (put_node p n d) q \<noteq> None" "strict_prefix r q" for q r
  proof (cases "q = p")
    case True
    with that(2) have "r \<noteq> p" by (auto simp: strict_prefix_def)
    with True that(2) above assms(2) show ?thesis by simp
  next
    case False
    with that assms(1,2) have "node_at d r = Some DirNode" by (auto simp: wf_disk_def)
    with assms(2,4) show ?thesis by auto
  qed
  then show ?thesis
    using assms(1,2,5)
    by (auto simp: wf_disk_def put_node_def distinct_update dom_update node_at_put [unfolded put_node_def])
qed

lemma MkdirAll_effect:
  assumes "wf_disk d" and "node_at d pre = Some DirNode" and "propers (pre @ cs)"
    and "MkdirAll pre cs d = (r, d')"
  shows "wf_disk d' \<and> ds_clock d' = ds_clock d \<and> denied d' = denied d \<and>
    (\<forall>q. file_at d' q = file_at d q) \<and> (\<forall>q. node_at d q \<noteq> None \<longrightarrow> node_at d' q = node_at d q) \<and>
    (r = None \<longrightarrow> node_at d' (pre @ cs) = Some DirNode)"
  using assms
proof (induction pre cs d rule: MkdirAll.induct)
  case (1 pre d)
  then show ?case by simp
next
  case (2 pre c cs d)
  show ?case
  proof (cases "node_at d (pre @ [c])")
    case None
    show ?thesis
    proof (cases "denied d (pre @ [c])")
      case True
      with None 2 show ?thesis by auto
    next
      case False
      let ?d = "put_node (pre @ [c]) DirNode d"
      have wf: "wf_disk ?d"
        using 2 None by (intro wf_put_node) simp_all
      have mk: "MkdirAll (pre @ [c]) cs ?d = (r, d')"
        using 2(6) None False by (simp add: Let_def)
      have files: "file_at ?d q = file_at d q" for q
        using None by (simp add: file_at_def)
      have nodes: "node_at d q \<noteq> None \<Longrightarrow> node_at ?d q = node_at d q" for q
        using None by auto
      have ih: "wf_disk d' \<and> ds_clock d' = ds_clock ?d \<and> denied d' = denied ?d \<and>
        (\<forall>q. file_at d' q = file_at ?d q) \<and> (\<forall>q. node_at ?d q \<noteq> None \<longrightarrow> node_at d' q = node_at ?d q) \<and>
        (r = None \<longrightarrow> node_at d' ((pre @ [c]) @ cs) = Some DirNode)"
        by (rule 2(1) [OF refl None False wf _ _ mk]) (use 2(5) in simp_all)
      have "node_at d' q = node_at d q" if "node_at d q \<noteq> None" for q
        using ih nodes [OF that] that by simp
      with ih show ?thesis by (simp add: files)
    qed
  next
    case (Some n)
    then show ?thesis using 2 by (cases n) auto
  qed
qed

lemma Create_effect:
  assumes "wf_disk d" and "p \<noteq> []" and "node_at d (butlast p) = Some DirNode" and "propers p"
    and "Create_file p d = (r, d')"
  shows "wf_disk d' \<and> ds_clock d' = ds_clock d \<and> denied d' = denied d \<and>
    (\<forall>q. q \<noteq> p \<longrightarrow> node_at d' q = node_at d q) \<and>
    (r = None \<longrightarrow> \<not> denied d p \<and> (\<exists>b t. node_at d' p = Some (FileNode b t))) \<and>
    (r \<noteq> None \<longrightarrow> d' = d)"
  using assms wf_put_node [OF assms(1-3) _ assms(4), of "FileNode [] (ds_clock d)"]
  by (auto simp: Create_file_def split: if_splits)

section \<open>Paths of the storage\<close>

text \<open>Storage paths that stand for themselves: proper components joined by slashes.\<close>

definition valid_path :: "string \<Rightarrow> bool" where
  "valid_path p \<longleftrightarrow> p = join_slash (split_slash p) \<and> propers (split_slash p)"

lemma valid_path_join: "cs \<noteq> [] \<Longrightarrow> propers cs \<Longrightarrow> valid_path (join_slash cs)"
  by (simp add: valid_path_def split_join propers_no_slash)

lemma full_path_valid:
  assumes "is_rooted (ds_root s)" and "valid_path p"
  shows "resolve (full_path s p) = resolve (Clean (ds_root s)) @ split_slash p"
  using resolve_beneath [OF assms(1), of "split_slash p"] assms(2)
  by (simp add: full_path_def valid_path_def)

lemma root_propers: "is_rooted (ds_root s) \<Longrightarrow> propers (resolve (Clean (ds_root s)))"
  by (simp add: resolve_Clean_rooted clean_rooted_propers no_slash_split)

lemma full_path_inject:
  assumes "is_rooted (ds_root s)" and "valid_path p" and "valid_path q"
  shows "resolve (full_path s p) = resolve (full_path s q) \<longleftrightarrow> p = q"
  using assms by (auto simp: full_path_valid) (metis valid_path_def)

lemma full_path_dir:
  assumes "is_rooted (ds_root s)" and "valid_path p"
  shows "resolve (Path_Dir (full_path s p)) = butlast (resolve (full_path s p))"
proof -
  have "propers (resolve (full_path s p))" "resolve (full_path s p) \<noteq> []"
    using assms root_propers [OF assms(1)] by (simp_all add: full_path_valid valid_path_def)
  from resolve_Path_Dir [OF this] show ?thesis
    using Join_rooted_string [OF assms(1), of "Clean p"] by (simp add: full_path_def)
qed

text \<open>The content of the log at a path.\<close>

definition log_at :: "DiskStorage \<Rightarrow> disk \<Rightarrow> string \<Rightarrow> string option" where
  "log_at s d p =
     (let q = resolve (full_path s p) in if denied d q then None else file_at d q)"

definition disk_ok :: "DiskStorage \<Rightarrow> disk \<Rightarrow> bool" where
  "disk_ok s d \<longleftrightarrow> is_rooted (ds_root s) \<and> wf_disk d"

lemma disk_Write_effect:
  assumes ok: "disk_ok s d" and p: "valid_path p"
    and run: "run_state (disk_Write s p (data, err)) d = (r, d')"
  shows "disk_ok s d' \<and> ds_clock d' = ds_clock d \<and> denied d' = denied d \<and>
    (r = None \<longrightarrow> err = None \<and> log_at s d' p = Some data) \<and>
    (\<forall>q. q \<noteq> resolve (full_path s p) \<longrightarrow> file_at d' q = file_at d q)"
proof -
  have root: "is_rooted (ds_root s)" and wf: "wf_disk d" using ok by (simp_all add: disk_ok_def)
  let ?q = "resolve (full_path s p)"
  have q: "?q \<noteq> []" using p by (simp add: full_path_valid [OF root p])
  have names: "propers ?q"
    using root_propers [OF root] p by (simp add: full_path_valid [OF root p] valid_path_def)
  then have front: "propers ([] @ butlast ?q)" by (auto simp: propers_def dest: in_set_butlastD)
  obtain r1 d1 where mk: "MkdirAll [] (butlast ?q) d = (r1, d1)" by (meson surj_pair)
  note e1 = MkdirAll_effect [OF wf node_at_root front mk]
  show ?thesis
  proof (cases r1)
    case (Some e)
    with run mk e1 root show ?thesis
      by (auto simp: disk_Write_def full_path_dir [OF root p] disk_ok_def)
  next
    case None
    then have dir: "node_at d1 (butlast ?q) = Some DirNode" using e1 by simp
    obtain r2 d2 where cr: "Create_file ?q d1 = (r2, d2)" by (meson surj_pair)
    note e2 = Create_effect [OF _ q dir names cr]
    show ?thesis
    proof (cases r2)
      case (Some e)
      with run mk None cr e1 e2 root show ?thesis
        by (auto simp: disk_Write_def full_path_dir [OF root p] disk_ok_def)
    next
      case None
      have "butlast ?q \<noteq> ?q" using q by (metis append_butlast_last_id append_self_conv not_Cons_self2)
      then have "node_at d2 (butlast ?q) = Some DirNode" using e1 e2 dir by auto
      then have "wf_disk (put_node ?q (FileNode data (ds_clock d2)) d2)"
        using e1 e2 None names by (intro wf_put_node q) auto
      moreover have "d' = put_node ?q (FileNode data (ds_clock d2)) d2" "r = map_option (Wrapped ''writing file'') err"
        using run mk \<open>r1 = None\<close> cr None by (simp_all add: disk_Write_def full_path_dir [OF root p])
      ultimately show ?thesis
        using e1 e2 None root q
        by (auto simp: disk_ok_def log_at_def Let_def file_at_def)
    qed
  qed
qed

text \<open>The write contract speaks of paths, so two valid paths must not name the same file.\<close>

lemma holds_frame:
  assumes "is_rooted (ds_root s)" and "valid_path p" and "valid_path q" and "q \<noteq> p"
    and "\<forall>x. x \<noteq> resolve (full_path s p) \<longrightarrow> file_at d' x = file_at d x" and "denied d' = denied d"
  shows "log_at s d' q = log_at s d q"
  using assms by (simp add: log_at_def full_path_inject Let_def)

lemma disk_Read_holds:
  "run_state (disk_Read s p) d = (Inr (Some data), d') \<longleftrightarrow> log_at s d p = Some data \<and> d' = d"
  by (auto simp: disk_Read_def Open_file_def log_at_def file_at_def Let_def
      split: option.splits node.splits)

section \<open>Deletion\<close>

lemma stays_antimono: "stays d p q \<Longrightarrow> prefix r q \<Longrightarrow> stays d p r"
  by (auto simp: stays_def list_ex_iff dest: prefix_order.trans)

lemma RemoveAll_nodes:
  assumes "RemoveAll p d = (r, d')"
  shows "denied d' = denied d \<and>
    (d' = d \<or> d' = d\<lparr>ds_nodes := filter (\<lambda>(q, n). stays d p q) (ds_nodes d)\<rparr>)"
  using assms by (auto simp: RemoveAll_def Let_def denied_def split: if_splits)

definition pruned :: "(string list \<Rightarrow> bool) \<Rightarrow> disk \<Rightarrow> disk" where
  "pruned P d = d\<lparr>ds_nodes := filter (\<lambda>(q, n). P q) (ds_nodes d)\<rparr>"

lemma node_at_pruned:
  "node_at (pruned P d) q = (if q = [] \<or> P q then node_at d q else None)"
proof -
  have "(\<lambda>(q, n). P q) = (\<lambda>x :: string list \<times> node. P (fst x))" by auto
  then show ?thesis by (auto simp: node_at_def pruned_def map_of_filter restrict_map_def)
qed

lemma wf_pruned:
  assumes "wf_disk d" and "\<And>q r. P q \<Longrightarrow> prefix r q \<Longrightarrow> P r"
  shows "wf_disk (pruned P d)"
proof -
  have "distinct (map fst (filter (\<lambda>(q, n). P q) xs))" if "distinct (map fst xs)" for xs :: "(string list \<times> node) list"
    using that by (induction xs) auto
  moreover have "[] \<notin> set (map fst (filter (\<lambda>(q, n). P q) (ds_nodes d)))"
    using assms(1) by (auto simp: wf_disk_def)
  moreover have "node_at (pruned P d) r = Some DirNode"
    if "node_at (pruned P d) q \<noteq> None" "strict_prefix r q" for q r
  proof -
    have "q \<noteq> []" using that(2) by auto
    with that(1) have "P q" "node_at d q \<noteq> None" by (auto simp: node_at_pruned split: if_splits)
    with that(2) assms show ?thesis
      by (auto simp: node_at_pruned wf_disk_def strict_prefix_def)
  qed
  moreover have "propers q" if "node_at (pruned P d) q \<noteq> None" for q
    using that assms(1) by (auto simp: wf_disk_def node_at_pruned split: if_splits)
  ultimately show ?thesis using assms(1) by (auto simp: wf_disk_def pruned_def)
qed

lemma RemoveAll_effect:
  assumes wf: "wf_disk d" and run: "RemoveAll p d = (r, d')"
  shows "wf_disk d' \<and> denied d' = denied d \<and> ds_clock d' = ds_clock d \<and>
    (\<forall>q. node_at d' q = node_at d q \<or> (prefix p q \<and> node_at d' q = None)) \<and>
    (r = None \<longrightarrow> (\<forall>q. prefix p q \<longrightarrow> node_at d' q = None))"
proof -
  have "wf_disk (pruned (stays d p) d)"
    by (rule wf_pruned [OF wf stays_antimono])
  moreover have "node_at (pruned (stays d p) d) q = node_at d q \<or>
      (prefix p q \<and> node_at (pruned (stays d p) d) q = None)" for q
    by (auto simp: node_at_pruned stays_def)
  moreover have "r = None \<longrightarrow> d' = pruned (stays d p) d \<and> p \<noteq> [] \<and>
      \<not> list_ex (\<lambda>(q, n). prefix p q) (ds_nodes d')"
    using run by (auto simp: RemoveAll_def pruned_def Let_def split: if_splits)
  moreover have "node_at d' q = None"
    if "\<not> list_ex (\<lambda>(q, n). prefix p q) (ds_nodes d')" "p \<noteq> []" "prefix p q" for q
    using that by (auto simp: node_at_def list_ex_iff map_of_eq_None_iff)
  moreover have "d' = d \<or> d' = pruned (stays d p) d" "denied d' = denied d"
    using RemoveAll_nodes [OF run] by (auto simp: pruned_def)
  ultimately show ?thesis using wf by (auto simp: pruned_def)
qed

text \<open>A file has nothing beneath it.\<close>

lemma beneath_file: "wf_disk d \<Longrightarrow> file_at d p \<noteq> None \<Longrightarrow> node_at d q \<noteq> None \<Longrightarrow> prefix p q \<Longrightarrow> q = p"
  unfolding wf_disk_def file_at_def strict_prefix_def
  by (cases "q = p") (force split: option.splits node.splits)+

lemma disk_Delete_effect:
  assumes ok: "disk_ok s d" and p: "valid_path p" and run: "run_state (disk_Delete s p) d = (r, d')"
  shows "disk_ok s d' \<and> (r = None \<longrightarrow> log_at s d' p = None) \<and>
    (\<forall>q. valid_path q \<longrightarrow> log_at s d p \<noteq> None \<longrightarrow> q \<noteq> p \<longrightarrow> log_at s d' q = log_at s d q)"
proof -
  have root: "is_rooted (ds_root s)" and wf: "wf_disk d" using ok by (simp_all add: disk_ok_def)
  let ?p = "resolve (full_path s p)"
  have "full_path s p \<noteq> ''.''"
    using Join_rooted_string [OF root, of "Clean p"] by (auto simp: full_path_def)
  with run have rem: "RemoveAll ?p d = (r, d')" by (simp add: disk_Delete_def Let_def)
  note eff = RemoveAll_effect [OF wf rem]
  have "log_at s d' q = log_at s d q"
    if "valid_path q" "log_at s d p \<noteq> None" "q \<noteq> p" for q
  proof -
    let ?q = "resolve (full_path s q)"
    have neq: "?q \<noteq> ?p" using that(3) full_path_inject [OF root that(1) p] by simp
    have "file_at d ?p \<noteq> None" using that(2) by (auto simp: log_at_def Let_def split: if_splits)
    then have "\<not> prefix ?p ?q \<or> node_at d ?q = None"
      using beneath_file [OF wf, of ?p ?q] neq by blast
    then have "node_at d' ?q = node_at d ?q" using eff by metis
    then show ?thesis using eff by (simp add: log_at_def file_at_def Let_def)
  qed
  moreover have "r = None \<longrightarrow> log_at s d' p = None"
    using eff by (auto simp: log_at_def Let_def file_at_def split: option.split)
  ultimately show ?thesis using eff root by (simp add: disk_ok_def)
qed

section \<open>The contract of the storage\<close>

interpretation disk: log_storage "disk_storage srt s" "disk_ok s" valid_path "log_at s" for srt s
proof
  fix w w' p data err r
  assume "disk_ok s w" "valid_path p" "run_state (st_Write (disk_storage srt s) p (data, err)) w = (r, w')"
  then show "disk_ok s w' \<and> (r = None \<longrightarrow> err = None \<and> log_at s w' p = Some data) \<and>
      (\<forall>q. valid_path q \<longrightarrow> q \<noteq> p \<longrightarrow> log_at s w' q = log_at s w q)"
    using disk_Write_effect [of s w p data err r w'] holds_frame [of s p _ w' w]
    by (auto simp: disk_storage_def disk_ok_def)
next
  fix w w' p data
  show "run_state (st_Read (disk_storage srt s) p) w = (Inr (Some data), w') \<longleftrightarrow>
      log_at s w p = Some data \<and> w' = w"
    by (simp add: disk_storage_def disk_Read_holds)
next
  fix w w' p r
  assume "disk_ok s w" "valid_path p" "run_state (st_Delete (disk_storage srt s) p) w = (r, w')"
  then show "disk_ok s w' \<and> (r = None \<longrightarrow> log_at s w' p = None) \<and>
      (\<forall>q. valid_path q \<longrightarrow> log_at s w p \<noteq> None \<longrightarrow> q \<noteq> p \<longrightarrow> log_at s w' q = log_at s w q)"
    using disk_Delete_effect [of s w p r w'] by (simp add: disk_storage_def)
qed

section \<open>Walking\<close>

lemma set_map_filter: "set (List.map_filter f xs) = {y. \<exists>x \<in> set xs. f x = Some y}"
  by (induction xs) (auto split: option.splits)

lemma distinct_map_filter_fst:
  assumes "distinct (map fst xs)" and "\<And>x y. f x = Some y \<Longrightarrow> fst y = fst x"
  shows "distinct (map fst (List.map_filter f xs))"
  using assms(1)
proof (induction xs)
  case Nil
  then show ?case by simp
next
  case (Cons x xs)
  have "fst ` set (List.map_filter f xs) \<subseteq> fst ` set xs"
    using assms(2) by (force simp: set_map_filter)
  then show ?case using Cons assms(2) [of x] by (cases "f x") auto
qed

lemma sort_key_distinct_fst: "distinct (map fst xs) \<Longrightarrow> distinct (map fst (sort_key f xs))"
  by (metis distinct_map distinct_sort set_sort)

lemma walk_files_distinct: "wf_disk d \<Longrightarrow> distinct (map fst (walk_files p d))"
  unfolding walk_files_def
  by (intro distinct_map_filter_fst sort_key_distinct_fst)
    (auto simp: wf_disk_def distinct_map inj_on_def split: node.splits)

lemma walk_files_set:
  assumes "wf_disk d"
  shows "(q, b, t) \<in> set (walk_files p d) \<longleftrightarrow>
    node_at d q = Some (FileNode b t) \<and> prefix p q \<and> \<not> denied d q"
proof -
  have keys: "distinct (map fst (ds_nodes d))" "[] \<notin> fst ` set (ds_nodes d)"
    using assms by (auto simp: wf_disk_def)
  then have "(q, FileNode b t) \<in> set (ds_nodes d) \<longleftrightarrow> node_at d q = Some (FileNode b t)"
    by (auto simp: node_at_def image_iff)
  moreover have "(case (x, n) of (q, n) \<Rightarrow>
      (case n of DirNode \<Rightarrow> None | FileNode b t \<Rightarrow> Some (q, b, t))) = Some (q, b, t) \<longleftrightarrow>
      n = FileNode b t \<and> x = q" for x n
    by (cases n) auto
  ultimately show ?thesis
    by (auto simp: walk_files_def set_map_filter)
qed

text \<open>A file beneath the root is named by its path relative to it.\<close>

lemma resolve_path_string:
  assumes "propers q"
  shows "resolve (Clean (path_string s q)) = q"
proof (cases "q = []")
  case True
  then show ?thesis
    by (simp add: path_string_def Clean_def is_rooted_def clean_comps_def resolve_def)
next
  case False
  then have split: "split_slash (join_slash q) = q"
    using assms by (simp add: split_join propers_no_slash)
  have "Clean (CHR ''/'' # join_slash q) = CHR ''/'' # join_slash q"
    using assms by (simp add: Clean_def is_rooted_def split clean_comps_def foldl_clean_propers)
  then show ?thesis
    using assms False
    by (simp add: path_string_def Clean_join resolve_join resolve_rooted_join)
qed

lemma rel_beneath:
  assumes "is_rooted (ds_root s)" and "propers ds"
  shows "Rel (ds_root s) (path_string s (resolve (Clean (ds_root s)) @ ds)) =
    (if ds = [] then ''.'' else join_slash ds)"
  using assms root_propers [OF assms(1)]
  by (simp add: Rel_def resolve_path_string rel_comps_beneath)

text \<open>The files of the walk and what the storage holds at valid paths are the same.\<close>

lemma holds_walk:
  assumes ok: "disk_ok s d" and p: "valid_path p"
  shows "log_at s d p = Some b \<longleftrightarrow>
    (\<exists>t. (resolve (full_path s p), b, t) \<in> set (walk_files (resolve (Clean (ds_root s))) d))"
proof -
  have "prefix (resolve (Clean (ds_root s))) (resolve (full_path s p))"
    using ok by (simp add: disk_ok_def full_path_valid [OF _ p])
  then show ?thesis
    using ok by (auto simp: walk_files_set disk_ok_def log_at_def Let_def file_at_def
        split: option.splits node.splits)
qed

lemma file_entries_set:
  assumes ok: "disk_ok s d"
  shows "p \<in> fst ` set (file_entries s d) \<longleftrightarrow>
    valid_path p \<and> HasSuffix p ''.log'' \<and> log_at s d p \<noteq> None"
proof -
  let ?r = "resolve (Clean (ds_root s))"
  have root: "is_rooted (ds_root s)" and wf: "wf_disk d" using ok by (simp_all add: disk_ok_def)
  show ?thesis
  proof
    assume "p \<in> fst ` set (file_entries s d)"
    then obtain q b t where q: "(q, b, t) \<in> set (walk_files ?r d)"
      and p: "p = Rel (ds_root s) (path_string s q)" "HasSuffix p ''.log''"
      by (auto simp: file_entries_def)
    then obtain ds where ds: "q = ?r @ ds" "propers ds"
      using wf by (auto simp: walk_files_set wf_disk_def prefix_def)
    have "p = (if ds = [] then ''.'' else join_slash ds)"
      unfolding p(1) ds(1) by (rule rel_beneath [OF root ds(2)])
    with p(2) have pds: "p = join_slash ds" "ds \<noteq> []"
      by (auto simp: HasSuffix_def split: if_splits)
    then have v: "valid_path p" using ds(2) by (simp add: valid_path_join)
    then have "resolve (full_path s p) = q"
      unfolding full_path_valid [OF root v] using ds pds by (simp add: split_join propers_no_slash)
    with q v p(2) holds_walk [OF ok v, of b] show "valid_path p \<and> HasSuffix p ''.log'' \<and> log_at s d p \<noteq> None"
      by auto
  next
    assume a: "valid_path p \<and> HasSuffix p ''.log'' \<and> log_at s d p \<noteq> None"
    then obtain b t where w: "(resolve (full_path s p), b, t) \<in> set (walk_files ?r d)"
      using holds_walk [OF ok] by blast
    have ds: "propers (split_slash p)" "join_slash (split_slash p) = p" using a by (auto simp: valid_path_def)
    have "Rel (ds_root s) (path_string s (resolve (full_path s p))) = p"
      using rel_beneath [OF root ds(1)] a ds(2) by (simp add: full_path_valid [OF root])
    with a w show "p \<in> fst ` set (file_entries s d)"
      by (force simp: file_entries_def image_iff)
  qed
qed

section \<open>Usage\<close>

definition usage :: "DiskStorage \<Rightarrow> disk \<Rightarrow> int" where
  "usage s d = fst (fst (run_state (disk_UsageBytes s) d))"

definition size_at :: "disk \<Rightarrow> string list \<Rightarrow> int" where
  "size_at d q = (case file_at d q of None \<Rightarrow> 0 | Some b \<Rightarrow> int (length b))"

definition walked :: "DiskStorage \<Rightarrow> disk \<Rightarrow> string list set" where
  "walked s d = {q. file_at d q \<noteq> None \<and> prefix (resolve (Clean (ds_root s))) q \<and> \<not> denied d q}"

lemma walked_walk:
  assumes "wf_disk d"
  shows "walked s d = fst ` set (walk_files (resolve (Clean (ds_root s))) d)"
proof (rule set_eqI)
  fix q
  let ?r = "resolve (Clean (ds_root s))"
  have "file_at d q \<noteq> None \<longleftrightarrow> (\<exists>b t. node_at d q = Some (FileNode b t))"
    by (auto simp: file_at_def split: option.split node.split)
  then have "q \<in> walked s d \<longleftrightarrow> (\<exists>b t. (q, b, t) \<in> set (walk_files ?r d))"
    by (simp add: walked_def walk_files_set [OF assms])
  also have "\<dots> \<longleftrightarrow> q \<in> fst ` set (walk_files ?r d)" by force
  finally show "q \<in> walked s d \<longleftrightarrow> q \<in> fst ` set (walk_files ?r d)" .
qed

lemma usage_sum:
  assumes "wf_disk d"
  shows "usage s d = (\<Sum>q \<in> walked s d. size_at d q)"
proof -
  let ?w = "walk_files (resolve (Clean (ds_root s))) d"
  have "(case x of (q, b, t) \<Rightarrow> int (length b)) = size_at d (fst x)" if x: "x \<in> set ?w" for x
  proof -
    obtain q b t where qbt: "x = (q, b, t)" by (cases x)
    with x have "node_at d q = Some (FileNode b t)" using walk_files_set [OF assms] by blast
    with qbt show ?thesis by (simp add: size_at_def file_at_def)
  qed
  then have "usage s d = sum_list (map (\<lambda>x. size_at d (fst x)) ?w)"
    unfolding usage_def disk_UsageBytes_def
    by (simp cong: map_cong)
  also have "\<dots> = sum_list (map (size_at d) (map fst ?w))" by (simp add: comp_def)
  also have "\<dots> = (\<Sum>q \<in> fst ` set ?w. size_at d q)"
    using sum_list_distinct_conv_sum_set [OF walk_files_distinct [OF assms]] by simp
  finally show ?thesis by (simp add: walked_walk [OF assms])
qed

lemma finite_walked: "wf_disk d \<Longrightarrow> finite (walked s d)"
  by (simp add: walked_walk)

lemma disk_Delete_RemoveAll:
  assumes "is_rooted (ds_root s)"
  shows "run_state (disk_Delete s p) d = RemoveAll (resolve (full_path s p)) d"
proof -
  have "full_path s p \<noteq> ''.''"
    using Join_rooted_string [OF assms, of "Clean p"] by (auto simp: full_path_def)
  then show ?thesis by (simp add: disk_Delete_def Let_def)
qed

lemma delete_usage:
  assumes ok: "disk_ok s d" and p: "valid_path p" and b: "log_at s d p = Some b"
    and run: "run_state (disk_Delete s p) d = (None, d')"
  shows "usage s d' = usage s d - int (length b)"
proof -
  have root: "is_rooted (ds_root s)" and wf: "wf_disk d" using ok by (simp_all add: disk_ok_def)
  let ?p = "resolve (full_path s p)"
  have rem: "RemoveAll ?p d = (None, d')" using run by (simp add: disk_Delete_RemoveAll [OF root])
  note eff = RemoveAll_effect [OF wf rem]
  have content: "file_at d ?p = Some b" "\<not> denied d ?p"
    using b by (auto simp: log_at_def Let_def split: if_splits)
  have gone: "file_at d' ?p = None" using eff by (simp add: file_at_def)
  have others: "file_at d' q = file_at d q" if "q \<noteq> ?p" for q
  proof -
    have "node_at d' q = node_at d q" using eff beneath_file [OF wf, of ?p q] content(1) that by force
    then show ?thesis by (simp add: file_at_def)
  qed
  have walk: "walked s d' = walked s d - {?p}"
  proof (rule set_eqI)
    fix q
    have "denied d' q = denied d q" using eff by simp
    then show "q \<in> walked s d' \<longleftrightarrow> q \<in> walked s d - {?p}"
      using others [of q] gone by (cases "q = ?p") (simp_all add: walked_def)
  qed
  have mem: "?p \<in> walked s d"
    using content by (simp add: walked_def full_path_valid [OF root p])
  have "usage s d' = (\<Sum>q \<in> walked s d - {?p}. size_at d q)"
  proof -
    have "usage s d' = (\<Sum>q \<in> walked s d - {?p}. size_at d' q)" using eff by (simp add: usage_sum walk)
    also have "\<dots> = (\<Sum>q \<in> walked s d - {?p}. size_at d q)"
      by (rule sum.cong [OF refl]) (simp add: size_at_def others)
    finally show ?thesis .
  qed
  also have "\<dots> = usage s d - size_at d ?p"
    using mem by (simp add: usage_sum [OF wf] sum_diff1 finite_walked [OF wf])
  finally show ?thesis using content(1) by (simp add: size_at_def)
qed

section \<open>Properties\<close>

text \<open>C34: a log that was written can be read back: after a Write that reports no error, under a rooted
  storage and a path of proper names, the stream had no error, a Read of the path yields exactly the
  bytes of the stream, and a Read of any other path yields what it did before.\<close>

theorem log_write_then_read:
  assumes "disk_ok s d" and "valid_path p" and "run_state (disk_Write s p (data, err)) d = (None, d')"
  shows "err = None \<and> run_state (disk_Read s p) d' = (Inr (Some data), d') \<and>
    (\<forall>q b. valid_path q \<longrightarrow> q \<noteq> p \<longrightarrow>
       run_state (disk_Read s q) d' = (Inr (Some b), d') \<longleftrightarrow>
       run_state (disk_Read s q) d = (Inr (Some b), d))"
  using disk.write_ok [of s d p insertion_sort data err None d'] assms
  by (auto simp: disk_storage_def disk_Read_holds)

definition sample_storage :: DiskStorage where
  "sample_storage = \<lparr>ds_root = ''/logs''\<rparr>"

definition empty_disk :: disk where
  "empty_disk = \<lparr>ds_nodes = [], ds_denied = [], ds_clock = 0\<rparr>"

lemma empty_disk_ok: "disk_ok sample_storage empty_disk"
  by (simp add: disk_ok_def sample_storage_def is_rooted_def wf_disk_def empty_disk_def node_at_def)

lemma valid_sample: "valid_path ''ns/a.log''"
  by (simp add: valid_path_def proper_def)

text \<open>The disk after one log was written.\<close>

definition one_log :: disk where
  "one_log = snd (run_state (disk_Write sample_storage ''ns/a.log'' (''xyz'', None)) empty_disk)"

lemma write_one_log:
  "run_state (disk_Write sample_storage ''ns/a.log'' (''xyz'', None)) empty_disk = (None, one_log)"
proof -
  have "full_path sample_storage ''ns/a.log'' = ''/logs/ns/a.log''"
    by (simp add: full_path_def sample_storage_def Join_def Clean_def clean_comps_def is_rooted_def)
  then have "fst (run_state (disk_Write sample_storage ''ns/a.log'' (''xyz'', None)) empty_disk) = None"
    by (simp add: disk_Write_def Path_Dir_def Clean_def clean_comps_def is_rooted_def resolve_def
        Create_file_def empty_disk_def node_at_def put_node_def denied_def)
  then show ?thesis by (simp add: one_log_def prod_eq_iff)
qed

theorem log_write_then_read_witness:
  "run_state (disk_Read sample_storage ''ns/a.log'') one_log = (Inr (Some ''xyz''), one_log)"
  using log_write_then_read [OF empty_disk_ok valid_sample write_one_log] by blast

lemma one_log_ok: "disk_ok sample_storage one_log \<and> log_at sample_storage one_log ''ns/a.log'' = Some ''xyz''"
  using disk_Write_effect [OF empty_disk_ok valid_sample write_one_log] by simp



text \<open>Deleting a log frees its bytes and nothing else: a Delete that succeeds on the path of a log
  lowers the usage by the length of the log, the log is gone, and every other log is as before.\<close>

lemma delete_frees_one_log:
  assumes "disk_ok s d" and "valid_path p" and "log_at s d p = Some b"
    and "run_state (disk_Delete s p) d = (None, d')"
  shows "usage s d' = usage s d - int (length b) \<and> log_at s d' p = None \<and>
    (\<forall>q. valid_path q \<longrightarrow> q \<noteq> p \<longrightarrow> log_at s d' q = log_at s d q)"
  using delete_usage [OF assms] disk.delete_ok [of s d p insertion_sort None d'] assms
  by (simp add: disk_storage_def)

text \<open>C36: a path of proper names stays beneath the root, but the storage does not enforce it: the empty
  path is the root itself, so deleting it deletes every log, and a path that starts with two dots is
  beside the root.\<close>

theorem storage_paths_not_confined:
  assumes "is_rooted (ds_root s)"
  shows "(valid_path p \<longrightarrow> strict_prefix (resolve (Clean (ds_root s))) (resolve (full_path s p))) \<and>
    resolve (full_path s []) = resolve (Clean (ds_root s)) \<and>
    (valid_path p \<longrightarrow>
       resolve (full_path s (''../'' @ p)) = butlast (resolve (Clean (ds_root s))) @ split_slash p)"
proof -
  let ?r = "resolve (Clean (ds_root s))"
  have "Clean [] = ''.''" by (simp add: Clean_def is_rooted_def clean_comps_def)
  then have empty: "resolve (full_path s []) = ?r"
    by (simp add: full_path_def resolve_Join_rooted [OF assms] resolve_Clean_rooted [OF assms]
        foldl_clean_app)
  have up: "resolve (full_path s (''../'' @ p)) = butlast ?r @ split_slash p" if p: "valid_path p"
  proof -
    have names: "propers (split_slash p)" "split_slash p \<noteq> []" "join_slash (split_slash p) = p"
      using p by (simp_all add: valid_path_def)
    have "foldl (clean_step False) [''..''] (split_slash p) = rev (split_slash p) @ [''..'']"
      by (rule foldl_clean_propers [OF names(1)])
    then have "Clean (''../'' @ p) = ''../'' @ p"
      using names
      by (simp add: Clean_def is_rooted_def clean_comps_def join_slash_Cons)
    then have comps: "split_slash (Clean (''../'' @ p)) = ''..'' # split_slash p" by simp
    have r: "?r = clean_comps True (split_slash (ds_root s))"
      by (rule resolve_Clean_rooted [OF assms])
    have step: "clean_step True (rev ?r) ''..'' = rev (butlast ?r)"
      using root_propers [OF assms] by (cases ?r rule: rev_cases) (auto simp: proper_def)
    show ?thesis
      unfolding full_path_def resolve_Join_rooted [OF assms] comps foldl_clean_app r [symmetric]
      by (simp only: foldl_Cons step) (simp add: foldl_clean_propers names(1))
  qed
  have "strict_prefix ?r (resolve (full_path s p))" if "valid_path p"
    using that by (simp add: full_path_valid [OF assms that] strict_prefix_def)
  with empty up show ?thesis by blast
qed

theorem storage_paths_not_confined_witness:
  "resolve (full_path sample_storage (''../'' @ ''etc'')) = [''etc'']"
proof -
  have "is_rooted (ds_root sample_storage)" "valid_path ''etc''"
    by (simp_all add: sample_storage_def is_rooted_def valid_path_def proper_def)
  with storage_paths_not_confined [of sample_storage "''etc''"]
  show ?thesis
    by (simp add: sample_storage_def Clean_def is_rooted_def clean_comps_def resolve_def)
qed

end
