(* ===== verification/LogCollector.thy ===== *)
theory LogCollector
  imports Kube Disk
begin

text \<open>
  \<open>internal/logcollector/collector.go\<close>: \<open>PodLogCollector\<close>, the implementation of \<open>Collector\<close> that the
  pod watcher is given. The kubelet's log stream is the parameter \<open>GetLogs\<close> (namespace, pod and
  container), the storage the interface of theory Storage.
\<close>

section \<open>Operations\<close>

type_synonym 'w log_source = "string \<Rightarrow> string \<Rightarrow> string \<Rightarrow> ('w, go_error + stream) state"

definition allContainerNames :: "Pod \<Rightarrow> string list" where
  "allContainerNames pod = pod_InitContainers pod @ pod_Containers pod"

definition log_path :: "Pod \<Rightarrow> string \<Rightarrow> string \<Rightarrow> string" where
  "log_path pod container timestamp =
     om_Namespace (pod_Meta pod) @ ''/'' @ om_Name (pod_Meta pod) @ ''/'' @ container @ ''/'' @
     timestamp @ ''.log''"

text \<open>One turn of the loop; a container whose stream or write fails is skipped.\<close>

definition collect_one ::
  "'w log_source \<Rightarrow> 'w Storage \<Rightarrow> Pod \<Rightarrow> string \<Rightarrow> string \<Rightarrow> string list \<Rightarrow> ('w, string list) state"
where
  "collect_one GetLogs st pod timestamp container logPaths = do {
     r \<leftarrow> GetLogs (om_Namespace (pod_Meta pod)) (om_Name (pod_Meta pod)) container;
     (case r of
        Inl err \<Rightarrow> ret logPaths
      | Inr str \<Rightarrow> do {
          e \<leftarrow> st_Write st (log_path pod container timestamp) str;
          ret (case e of
              Some err \<Rightarrow> logPaths
            | None \<Rightarrow> logPaths @ [log_path pod container timestamp])
        })
   }"

definition CollectLogs ::
  "('w, time) state \<Rightarrow> 'w log_source \<Rightarrow> 'w Storage \<Rightarrow> Pod \<Rightarrow> ('w, string list \<times> go_error option) state"
where
  "CollectLogs now GetLogs st pod = do {
     t \<leftarrow> now;
     (let containers = allContainerNames pod in do {
       logPaths \<leftarrow> for_fold (collect_one GetLogs st pod (Format_stamp t)) containers [];
       ret (if logPaths = [] \<and> containers \<noteq> []
            then ([], Some (Errorf (''failed to collect any logs from '' @
                            fmt_d (int (length containers)) @ '' containers'')))
            else (logPaths, None))
     })
   }"

section \<open>The paths\<close>

text \<open>A time stamp holds digits, hyphens and a T.\<close>

lemma nat_digits_no_slash: "CHR ''/'' \<notin> set (nat_digits n)"
proof (induction n rule: nat_digits.induct)
  case (1 n)
  have digit: "CHR ''/'' \<noteq> digit_char d" if "d < 10" for d
    using less_10_cases [OF that] by (auto simp: digit_char_def)
  show ?case
    using 1 digit [of n] digit [of "n mod 10"] by (subst nat_digits.simps) auto
qed

lemma pad_int_no_slash: "CHR ''/'' \<notin> set (pad_int w i)"
  by (auto simp: pad_int_def Let_def nat_digits_no_slash)

lemma stamp_no_slash: "CHR ''/'' \<notin> set (Format_stamp t)"
  by (simp add: Format_stamp_def Let_def pad_int_no_slash split: prod.split)

lemma proper_stamp: "proper (Format_stamp t @ ''.log'')"
proof -
  have "length (Format_stamp t @ ''.log'') \<ge> 4" by simp
  then have "Format_stamp t @ ''.log'' \<noteq> []" "Format_stamp t @ ''.log'' \<noteq> ''.''"
    "Format_stamp t @ ''.log'' \<noteq> ''..''" by auto
  then show ?thesis by (simp add: proper_def stamp_no_slash)
qed

text \<open>Kubernetes documents that the names of namespaces, pods and containers are DNS labels.\<close>

definition dns_names :: "Pod \<Rightarrow> bool" where
  "dns_names pod \<longleftrightarrow>
     proper (om_Namespace (pod_Meta pod)) \<and> proper (om_Name (pod_Meta pod)) \<and>
     propers (allContainerNames pod)"

lemma log_path_join:
  "log_path pod c ts =
   join_slash [om_Namespace (pod_Meta pod), om_Name (pod_Meta pod), c, ts @ ''.log'']"
  by (simp add: log_path_def)

lemma log_path_valid:
  assumes "dns_names pod" and "c \<in> set (allContainerNames pod)"
  shows "valid_path (log_path pod c (Format_stamp t))"
  unfolding log_path_join
  using assms proper_stamp [of t] by (intro valid_path_join) (auto simp: dns_names_def propers_def)

lemma log_path_inject:
  assumes "proper c" and "proper c'" and "log_path pod c ts = log_path pod c' ts"
  shows "c = c'"
  using assms by (simp add: log_path_def)

section \<open>The collector on any storage\<close>

text \<open>Reading the clock and the kubelet's logs does not touch the storage.\<close>

definition spares :: "('w \<Rightarrow> bool) \<Rightarrow> ('w \<Rightarrow> string \<Rightarrow> string option) \<Rightarrow> ('w, 'a) state \<Rightarrow> bool" where
  "spares ok holds m \<longleftrightarrow>
     (\<forall>w. ok w \<longrightarrow> ok (snd (run_state m w)) \<and> holds (snd (run_state m w)) = holds w)"

text \<open>A stream the kubelet gave for the container, complete.\<close>

definition streamed :: "'w log_source \<Rightarrow> Pod \<Rightarrow> string \<Rightarrow> string \<Rightarrow> bool" where
  "streamed GetLogs pod c data \<longleftrightarrow>
     (\<exists>w. fst (run_state (GetLogs (om_Namespace (pod_Meta pod)) (om_Name (pod_Meta pod)) c) w) =
          Inr (data, None))"

context log_storage
begin

definition collected :: "'w log_source \<Rightarrow> Pod \<Rightarrow> string \<Rightarrow> string list \<Rightarrow> 'w \<Rightarrow> string list \<Rightarrow> bool" where
  "collected GetLogs pod ts cs w paths \<longleftrightarrow>
     (\<forall>p \<in> set paths. \<exists>c \<in> set cs. \<exists>data. p = log_path pod c ts \<and> holds w p = Some data \<and>
        streamed GetLogs pod c data)"

lemma collect_one_effect:
  assumes ok: "ok w" and valid: "valid (log_path pod c ts)"
    and spare: "\<And>ns n c. spares ok holds (GetLogs ns n c)"
    and run: "run_state (collect_one GetLogs st pod ts c paths) w = (paths', w')"
  shows "ok w' \<and> (\<forall>q. valid q \<longrightarrow> q \<noteq> log_path pod c ts \<longrightarrow> holds w' q = holds w q) \<and>
    (paths' = paths \<or> (paths' = paths @ [log_path pod c ts] \<and>
       (\<exists>data. holds w' (log_path pod c ts) = Some data \<and> streamed GetLogs pod c data)))"
proof -
  obtain r w1 where g: "run_state (GetLogs (om_Namespace (pod_Meta pod)) (om_Name (pod_Meta pod)) c) w = (r, w1)"
    by (meson surj_pair)
  have w1: "ok w1" "holds w1 = holds w"
    using spare [of "om_Namespace (pod_Meta pod)" "om_Name (pod_Meta pod)" c] ok g
    by (auto simp: spares_def)
  show ?thesis
  proof (cases r)
    case (Inl e)
    with run g w1 show ?thesis by (simp add: collect_one_def)
  next
    case (Inr str)
    obtain data err where str: "str = (data, err)" by (cases str)
    obtain e w2 where wr: "run_state (st_Write st (log_path pod c ts) (data, err)) w1 = (e, w2)"
      by (meson surj_pair)
    have eff: "ok w2 \<and> (e = None \<longrightarrow> err = None \<and> holds w2 (log_path pod c ts) = Some data) \<and>
      (\<forall>q. valid q \<longrightarrow> q \<noteq> log_path pod c ts \<longrightarrow> holds w2 q = holds w1 q)"
      by (rule write_ok [OF w1(1) valid wr])
    have res: "w' = w2" "paths' = (case e of Some err \<Rightarrow> paths | None \<Rightarrow> paths @ [log_path pod c ts])"
      using run g Inr wr str by (auto simp: collect_one_def)
    have "streamed GetLogs pod c data" if "err = None"
      using g Inr str that unfolding streamed_def by (metis fst_conv)
    with eff res w1 show ?thesis by (cases e) auto
  qed
qed

lemma collect_loop:
  assumes "ok w" and "\<forall>c \<in> set (cs0 @ cs). valid (log_path pod c ts)"
    and spare: "\<And>ns n c. spares ok holds (GetLogs ns n c)"
    and "distinct (map (\<lambda>c. log_path pod c ts) (cs0 @ cs))"
    and "collected GetLogs pod ts cs0 w paths"
    and "run_state (for_fold (collect_one GetLogs st pod ts) cs paths) w = (paths', w')"
  shows "ok w' \<and> collected GetLogs pod ts (cs0 @ cs) w' paths'"
  using assms(1,2,4-6)
proof (induction cs arbitrary: cs0 paths w)
  case Nil
  then show ?case by simp
next
  case (Cons c cs)
  let ?p = "log_path pod c ts"
  obtain paths1 w1 where one: "run_state (collect_one GetLogs st pod ts c paths) w = (paths1, w1)"
    by (meson surj_pair)
  have valid: "valid ?p" using Cons.prems(2) by simp
  note eff = collect_one_effect [OF Cons.prems(1) valid spare one]
  have "?p \<notin> (\<lambda>c. log_path pod c ts) ` set cs0" using Cons.prems(3) by auto
  then have "\<forall>x \<in> set cs0. holds w1 (log_path pod x ts) = holds w (log_path pod x ts)"
    using eff Cons.prems(2) by (metis (mono_tags, lifting) Un_iff image_eqI set_append)
  then have "collected GetLogs pod ts (cs0 @ [c]) w1 paths1"
    using Cons.prems(4) eff unfolding collected_def by fastforce
  moreover have "run_state (for_fold (collect_one GetLogs st pod ts) cs paths1) w1 = (paths', w')"
    using Cons.prems(5) one by simp
  ultimately show ?case
    using Cons.IH [of w1 "cs0 @ [c]" paths1] eff Cons.prems(2,3) by simp
qed

lemma CollectLogs_effect:
  assumes "ok w" and dns: "\<forall>c \<in> set (allContainerNames pod). \<forall>t. valid (log_path pod c (Format_stamp t))"
    and spare: "\<And>ns n c. spares ok holds (GetLogs ns n c)" "spares ok holds now"
    and dist: "\<And>t. distinct (map (\<lambda>c. log_path pod c (Format_stamp t)) (allContainerNames pod))"
    and run: "run_state (CollectLogs now GetLogs st pod) w = ((paths, err), w')"
  shows "ok w' \<and> (err \<noteq> None \<longleftrightarrow> paths = [] \<and> allContainerNames pod \<noteq> []) \<and>
    (\<exists>t. collected GetLogs pod (Format_stamp t) (allContainerNames pod) w' paths)"
proof -
  obtain t w1 where t: "run_state now w = (t, w1)" by (meson surj_pair)
  have w1: "ok w1" using spare(2) \<open>ok w\<close> t by (auto simp: spares_def)
  obtain ps w2 where loop: "run_state (for_fold (collect_one GetLogs st pod (Format_stamp t))
      (allContainerNames pod) []) w1 = (ps, w2)" by (meson surj_pair)
  have "ok w2 \<and> collected GetLogs pod (Format_stamp t) ([] @ allContainerNames pod) w2 ps"
    using dns dist by (intro collect_loop [OF w1 _ spare(1) _ _ loop]) (auto simp: collected_def)
  with run t loop show ?thesis
    by (auto simp: CollectLogs_def Let_def collected_def split: if_splits)
qed

end

section \<open>Properties\<close>

text \<open>C11: the log paths the pod watcher records hold the logs: on the disk storage, for a pod with DNS
  names and distinct container names, every path CollectLogs returns is of the pod and one of its
  containers and reads back exactly what the kubelet streamed for it, completely; the error is set
  exactly when the pod has containers and none of their logs was stored.\<close>

theorem collected_paths_hold_the_logs:
  assumes ok: "disk_ok s d" and dns: "dns_names pod" and dist: "distinct (allContainerNames pod)"
    and spare: "\<And>ns n c. spares (disk_ok s) (log_at s) (GetLogs ns n c)"
      "spares (disk_ok s) (log_at s) now"
    and run: "run_state (CollectLogs now GetLogs (disk_storage srt s) pod) d = ((paths, err), d')"
  shows "disk_ok s d' \<and> (err \<noteq> None \<longleftrightarrow> paths = [] \<and> allContainerNames pod \<noteq> []) \<and>
    (\<exists>t. \<forall>p \<in> set paths. \<exists>c \<in> set (allContainerNames pod). \<exists>data.
       p = log_path pod c (Format_stamp t) \<and> streamed GetLogs pod c data \<and>
       run_state (disk_Read s p) d' = (Inr (Some data), d'))"
proof -
  have paths: "distinct (map (\<lambda>c. log_path pod c (Format_stamp t)) (allContainerNames pod))" for t
    using dist dns log_path_inject
    by (auto simp: distinct_map inj_on_def dns_names_def propers_def)
  have "\<forall>c \<in> set (allContainerNames pod). \<forall>t. valid_path (log_path pod c (Format_stamp t))"
    using log_path_valid [OF dns] by blast
  from disk.CollectLogs_effect [OF ok this spare paths run]
  show ?thesis
    by (auto simp: disk.collected_def disk_Read_holds) metis
qed

text \<open>A kubelet that has the logs of the container \<open>main\<close> only.\<close>

definition main_logs :: "disk log_source" where
  "main_logs ns pod c = ret (if c = ''main'' then Inr (''xyz'', None) else Inl NotFound)"

definition two_containers :: Pod where
  "two_containers =
     \<lparr>pod_Meta = new_meta ''ns'' ''p'', pod_NodeName = [], pod_InitContainers = [''init''],
      pod_Containers = [''main''], pod_Phase = ''Failed'', pod_Conditions = [],
      pod_ContainerStatuses = []\<rparr>"

theorem collected_paths_hold_the_logs_witness:
  "let r = run_state (CollectLogs (gets ds_clock) main_logs
             (disk_storage insertion_sort sample_storage) two_containers) empty_disk
   in \<exists>t. \<forall>p \<in> set (fst (fst r)). \<exists>c \<in> set (allContainerNames two_containers). \<exists>data.
        p = log_path two_containers c (Format_stamp t) \<and>
        run_state (disk_Read sample_storage p) (snd r) = (Inr (Some data), snd r)"
proof -
  let ?r = "run_state (CollectLogs (gets ds_clock) main_logs
             (disk_storage insertion_sort sample_storage) two_containers) empty_disk"
  have dns: "dns_names two_containers"
    by (simp add: dns_names_def two_containers_def allContainerNames_def new_meta_def proper_def)
  have dist: "distinct (allContainerNames two_containers)"
    by (simp add: two_containers_def allContainerNames_def)
  have spare: "spares ok h (main_logs ns n c)" "spares ok h (gets ds_clock)" for ok h ns n c
    by (simp_all add: spares_def main_logs_def)
  have run: "?r = ((fst (fst ?r), snd (fst ?r)), snd ?r)" by simp
  from collected_paths_hold_the_logs [OF empty_disk_ok dns dist spare run]
  show ?thesis unfolding Let_def by blast
qed

end
