(* ===== verification/Cleanup.thy ===== *)
theory Cleanup
  imports Submit Cluster
begin

text \<open>
  \<open>internal/controller/cleanup.go\<close>: the runnable that deletes the Investigations older than the
  retention period with their logs, and the oldest logs when the storage grows beyond its limit. It
  keeps no state of its own. The storage may be nil: the part that enforces the limit checks it, the
  part that deletes the logs of an Investigation does not, and panics.
\<close>

section \<open>Operations\<close>

definition defaultRetentionPeriod :: duration where
  "defaultRetentionPeriod = 7 * 24 * Hour"

definition cleanupInterval :: duration where
  "cleanupInterval = 5 * Minute"

type_synonym 'w clp = "(InvestigationCounter, unit, 'w) proc"

definition getRetentionPeriod :: "'w runtime \<Rightarrow> ('w clp, duration) state" where
  "getRetentionPeriod K = do {
     r \<leftarrow> outside (List_Configs K);
     ret (case r of
            Inl err \<Rightarrow> defaultRetentionPeriod
          | Inr [] \<Rightarrow> defaultRetentionPeriod
          | Inr (config # configs) \<Rightarrow>
              (case dc_RetentionPeriod (cfg_Spec config) of
                 Some d \<Rightarrow> d
               | None \<Rightarrow> defaultRetentionPeriod))
   }"

text \<open>One turn of the loop over the log paths: a failed deletion is logged.\<close>

definition delete_log :: "'w Storage option \<Rightarrow> string \<Rightarrow> ('w clp, fault option) state" where
  "delete_log storage logPath =
     (case storage of
        None \<Rightarrow> ret (Some (Panic ''nil pointer dereference''))
      | Some st \<Rightarrow> do { _ \<leftarrow> outside (st_Delete st logPath); ret None })"

text \<open>One turn of the loop over the Investigations.\<close>

definition prune_item ::
  "'w runtime \<Rightarrow> 'w Storage option \<Rightarrow> duration \<Rightarrow> time \<Rightarrow> Investigation \<Rightarrow> ('w clp, fault option) state"
where
  "prune_item K storage retention now iv =
     (let age = Sub now (om_CreationTimestamp (inv_Meta iv)) in
      if age \<le> retention then ret None
      else do {
        r \<leftarrow> for_first (delete_log storage) (sp_LogPaths (inv_Spec iv));
        (case r of
           Some f \<Rightarrow> ret (Some f)
         | None \<Rightarrow> do {
             e \<leftarrow> outside (Delete_Investigation K iv);
             (case e of
                Some err \<Rightarrow> ret None
              | None \<Rightarrow> do { counter_Decrement 1; ret None })
           })
      })"

text \<open>\<open>int64(mb) * 1024 * 1024\<close>\<close>

definition max_bytes :: "int \<Rightarrow> int" where
  "max_bytes mb = wrap64 (wrap64 (mb * 1024) * 1024)"

text \<open>The last loop of \<open>enforceStorageLimit\<close>; \<open>usage\<close> is its local variable.\<close>

fun prune_oldest :: "'w Storage \<Rightarrow> int \<Rightarrow> string list \<Rightarrow> int \<Rightarrow> ('w, unit) state" where
  "prune_oldest st maxBytes [] usage = ret ()"
| "prune_oldest st maxBytes (path # paths) usage =
     (if usage \<le> maxBytes then ret ()
      else do {
        e \<leftarrow> st_Delete st path;
        (case e of
           Some err \<Rightarrow> prune_oldest st maxBytes paths usage
         | None \<Rightarrow> do {
             u \<leftarrow> st_UsageBytes st;
             prune_oldest st maxBytes paths (fst u)
           })
      })"

text \<open>What follows once the limit is known.\<close>

definition enforce_limit :: "'w Storage \<Rightarrow> int \<Rightarrow> ('w, unit) state" where
  "enforce_limit st maxBytes = do {
     u \<leftarrow> st_UsageBytes st;
     if snd u \<noteq> None then ret ()
     else if fst u \<le> maxBytes then ret ()
     else (case st_disk st of
             None \<Rightarrow> ret ()
           | Some oldestFiles \<Rightarrow> do {
               r \<leftarrow> oldestFiles;
               (case r of
                  Inl err \<Rightarrow> ret ()
                | Inr oldest \<Rightarrow> prune_oldest st maxBytes oldest (fst u))
             })
   }"

text \<open>The limit in bytes that the configs set, \<open>None\<close> for the early returns.\<close>

definition size_limit :: "go_error + DetectiveConfig list \<Rightarrow> int option" where
  "size_limit r =
     (case r of
        Inl err \<Rightarrow> None
      | Inr configs \<Rightarrow>
          if configs = [] then None
          else (case ls_MaxSizeMB (dc_LogStorage (cfg_Spec (hd configs))) of
                  None \<Rightarrow> None
                | Some mb \<Rightarrow> if mb \<le> 0 then None else Some (max_bytes mb)))"

definition enforceStorageLimit :: "'w runtime \<Rightarrow> 'w Storage option \<Rightarrow> ('w clp, unit) state" where
  "enforceStorageLimit K storage =
     (case storage of
        None \<Rightarrow> ret ()
      | Some st \<Rightarrow> do {
          r \<leftarrow> outside (List_Configs K);
          (case size_limit r of
             None \<Rightarrow> ret ()
           | Some maxBytes \<Rightarrow> outside (enforce_limit st maxBytes))
        })"

definition runCleanup ::
  "'w runtime \<Rightarrow> 'w Storage option \<Rightarrow> ('w clp, fault option) state" where
  "runCleanup K storage = do {
     retention \<leftarrow> getRetentionPeriod K;
     r \<leftarrow> outside (List_Investigations K);
     (case r of
        Inl err \<Rightarrow> ret (Some (Failed err))
      | Inr items \<Rightarrow> do {
          now \<leftarrow> outside (Now K);
          r \<leftarrow> for_first (prune_item K storage retention now) items;
          (case r of
             Some f \<Rightarrow> ret (Some f)
           | None \<Rightarrow> do { enforceStorageLimit K storage; ret None })
        })
   }"

text \<open>
  \<open>Start\<close> over what its \<open>select\<close> sees: a failed cycle is logged, a panic ends the process (\<open>Inl\<close>);
  \<open>Inr True\<close> is the return at the end of the context, \<open>Inr False\<close> a loop that still waits.
\<close>

fun cleanup_Start ::
  "'w runtime \<Rightarrow> 'w Storage option \<Rightarrow> signal list \<Rightarrow> ('w clp, string + bool) state" where
  "cleanup_Start K storage [] = ret (Inr False)"
| "cleanup_Start K storage (Done # sigs) = ret (Inr True)"
| "cleanup_Start K storage (Tick # sigs) = do {
     r \<leftarrow> runCleanup K storage;
     (case r of
        Some (Panic m) \<Rightarrow> ret (Inl m)
      | _ \<Rightarrow> cleanup_Start K storage sigs)
   }"

section \<open>Retention\<close>

text \<open>The period of the first config counts, and only it.\<close>

definition retention_of :: "go_error + DetectiveConfig list \<Rightarrow> duration" where
  "retention_of r =
     (case r of
        Inr (config # configs) \<Rightarrow>
          (case dc_RetentionPeriod (cfg_Spec config) of Some d \<Rightarrow> d | None \<Rightarrow> 7 * 24 * 60 * Minute)
      | _ \<Rightarrow> 7 * 24 * 60 * Minute)"

lemma run_getRetentionPeriod:
  assumes "run_state (List_Configs K) (fst (world p)) = (r, w)"
  shows "run_state (getRetentionPeriod (traced K)) p =
    (retention_of r, p\<lparr>world := (w, proc_calls p @ [ListConfigs])\<rparr>)"
  using assms
  by (auto simp: getRetentionPeriod_def retention_of_def defaultRetentionPeriod_def Hour_def
      split: sum.split list.split option.split)

text \<open>With a storage, the loops neither panic nor stop early; the calls are exactly these.\<close>

definition prune_calls :: "Investigation \<Rightarrow> call list" where
  "prune_calls iv = map DeleteLog (sp_LogPaths (inv_Spec iv)) @ [DeleteInvestigation iv]"

lemma delete_logs_calls:
  "\<exists>w. run_state (for_first (delete_log (Some (traced_storage st))) paths) p =
     (None, p\<lparr>world := (w, proc_calls p @ map DeleteLog paths)\<rparr>)"
proof (induction paths arbitrary: p)
  case Nil
  show ?case by (intro exI [of _ "fst (world p)"]) simp
next
  case (Cons path paths)
  obtain e w where d: "run_state (st_Delete st path) (fst (world p)) = (e, w)" by (meson surj_pair)
  from Cons [of "p\<lparr>world := (w, proc_calls p @ [DeleteLog path])\<rparr>"] d
  show ?case by (auto simp: delete_log_def)
qed

lemma prune_item_calls:
  "\<exists>c w. run_state (prune_item (traced K) (Some (traced_storage st)) retention now iv) p =
     (None, p\<lparr>counter := c, world := (w, proc_calls p @
        (if Sub now (om_CreationTimestamp (inv_Meta iv)) \<le> retention then [] else prune_calls iv))\<rparr>)"
proof (cases "Sub now (om_CreationTimestamp (inv_Meta iv)) \<le> retention")
  case True
  then show ?thesis
    by (intro exI [of _ "counter p"] exI [of _ "fst (world p)"]) (simp add: prune_item_def)
next
  case False
  obtain w where l: "run_state (for_first (delete_log (Some (traced_storage st)))
      (sp_LogPaths (inv_Spec iv))) p =
      (None, p\<lparr>world := (w, proc_calls p @ map DeleteLog (sp_LogPaths (inv_Spec iv)))\<rparr>)"
    using delete_logs_calls [of st "sp_LogPaths (inv_Spec iv)" p] by blast
  obtain e w' where d: "run_state (Delete_Investigation K iv) w = (e, w')" by (meson surj_pair)
  show ?thesis
  proof (cases e)
    case None
    with False l d show ?thesis
      by (intro exI [of _ "Decrement 1 (counter p)"] exI [of _ w'])
        (simp add: prune_item_def prune_calls_def)
  next
    case (Some err)
    with False l d show ?thesis
      by (intro exI [of _ "counter p"] exI [of _ w']) (simp add: prune_item_def prune_calls_def)
  qed
qed

lemma prune_loop_calls:
  "\<exists>c w. run_state (for_first (prune_item (traced K) (Some (traced_storage st)) retention now) items) p =
     (None, p\<lparr>counter := c, world := (w, proc_calls p @ concat (map prune_calls
        (filter (\<lambda>iv. \<not> Sub now (om_CreationTimestamp (inv_Meta iv)) \<le> retention) items)))\<rparr>)"
proof (induction items arbitrary: p)
  case Nil
  show ?case by (intro exI [of _ "counter p"] exI [of _ "fst (world p)"]) simp
next
  case (Cons iv items)
  obtain c w where i: "run_state (prune_item (traced K) (Some (traced_storage st)) retention now iv) p =
     (None, p\<lparr>counter := c, world := (w, proc_calls p @
        (if Sub now (om_CreationTimestamp (inv_Meta iv)) \<le> retention then [] else prune_calls iv))\<rparr>)"
    (is "_ = (None, ?p)") using prune_item_calls [of K st retention now iv p] by blast
  obtain c' w' where "run_state (for_first (prune_item (traced K) (Some (traced_storage st)) retention now)
      items) ?p = (None, ?p\<lparr>counter := c', world := (w', proc_calls ?p @ concat (map prune_calls
        (filter (\<lambda>iv. \<not> Sub now (om_CreationTimestamp (inv_Meta iv)) \<le> retention) items)))\<rparr>)"
    using Cons [of ?p] by blast
  with i show ?case by (intro exI [of _ c'] exI [of _ w']) simp
qed

definition is_log_deletion :: "call \<Rightarrow> bool" where
  "is_log_deletion c \<longleftrightarrow> (\<exists>path. c = DeleteLog path)"

lemma prune_oldest_calls:
  "state_io_rel (appends snd is_log_deletion) (prune_oldest (traced_storage st) mx paths u)"
  by (induction paths arbitrary: u) (auto simp: is_log_deletion_def intro!: call_rules)

lemma enforce_limit_calls:
  "state_io_rel (appends snd is_log_deletion) (enforce_limit (traced_storage st) mx)"
  unfolding enforce_limit_def traced_storage_simps
  by (intro call_rules prune_oldest_calls) (auto intro!: io_silent)

lemma enforce_calls:
  "\<exists>new. proc_calls (snd (run_state (enforceStorageLimit (traced K) (Some (traced_storage st))) p)) =
     proc_calls p @ ListConfigs # new \<and> (\<forall>c \<in> set new. is_log_deletion c)"
proof -
  obtain r w where r: "run_state (List_Configs K) (fst (world p)) = (r, w)" by (meson surj_pair)
  define q where "q = p\<lparr>world := (w, proc_calls p @ [ListConfigs])\<rparr>"
  have "\<exists>new. proc_calls (snd (run_state (outside (enforce_limit (traced_storage st) mx)) q)) =
      proc_calls q @ new \<and> (\<forall>c \<in> set new. is_log_deletion c)" for mx
    using state_io_rel_run [OF io_outside [OF enforce_limit_calls [of st mx]], of q]
    by (auto simp: appends_def)
  then show ?thesis
    using r by (cases "size_limit r") (auto simp: enforceStorageLimit_def q_def)
qed

section \<open>Properties\<close>

text \<open>C13: the cleanup deletes exactly the Investigations that are older than the retention period, strictly,
  and each one after its logs: with the lists as the API server answers them, the calls of a cycle are
  the two lists, then for every overdue Investigation in the order of the list the deletion of each of
  its logs and then its own, whatever fails in between; after them come the second look at the config
  and deletions of logs only. The period is that of the first config, or seven days.\<close>

theorem cleanup_prunes_exactly_the_overdue:
  assumes clock: "reads_clock K clk"
    and configs: "run_state (List_Configs K) (fst (world p)) = (cs, w1)"
    and items: "run_state (List_Investigations K) w1 = (Inr items, w2)"
    and period: "is_int64 (retention_of cs)" "retention_of cs < maxDuration"
  shows "\<exists>new. proc_calls (snd (run_state (runCleanup (traced K) (Some (traced_storage st))) p)) =
      proc_calls p @ [ListConfigs, ListInvestigations] @
      concat (map (\<lambda>iv. map DeleteLog (sp_LogPaths (inv_Spec iv)) @ [DeleteInvestigation iv])
        (filter (\<lambda>iv. retention_of cs < clk w2 - om_CreationTimestamp (inv_Meta iv)) items)) @
      ListConfigs # new \<and>
    (\<forall>c \<in> set new. \<exists>path. c = DeleteLog path)"
proof -
  have overdue: "\<not> Sub (clk w2) t \<le> retention_of cs \<longleftrightarrow> retention_of cs < clk w2 - t" for t
    using less_Sub_iff [OF period] by (simp add: not_le)
  define q where "q = p\<lparr>world := (w2, proc_calls p @ [ListConfigs, ListInvestigations])\<rparr>"
  obtain c w where loop: "run_state (for_first (prune_item (traced K) (Some (traced_storage st))
      (retention_of cs) (clk w2)) items) q =
     (None, q\<lparr>counter := c, world := (w, proc_calls q @ concat (map prune_calls
        (filter (\<lambda>iv. retention_of cs < clk w2 - om_CreationTimestamp (inv_Meta iv)) items)))\<rparr>)"
    using prune_loop_calls [of K st "retention_of cs" "clk w2" items q] by (auto simp: overdue)
  have run: "snd (run_state (runCleanup (traced K) (Some (traced_storage st))) p) =
      snd (run_state (enforceStorageLimit (traced K) (Some (traced_storage st)))
        (snd (run_state (for_first (prune_item (traced K) (Some (traced_storage st))
          (retention_of cs) (clk w2)) items) q)))"
    using items loop
    by (simp add: runCleanup_def run_getRetentionPeriod [OF configs] reads_clockD [OF clock] q_def
        split: prod.split)
  show ?thesis
    using enforce_calls [of K st "snd (run_state (for_first (prune_item (traced K)
        (Some (traced_storage st)) (retention_of cs) (clk w2)) items) q)"]
    unfolding run loop by (simp add: q_def prune_calls_def [abs_def] is_log_deletion_def)
qed

text \<open>Two stored Investigations, of which one is a nanosecond too old, and no config.\<close>

definition aged :: "string \<Rightarrow> time \<Rightarrow> Investigation" where
  "aged name created = new_investigation ((new_meta ''ns'' name)\<lparr>om_CreationTimestamp := created\<rparr>)
     ((new_spec [] [])\<lparr>sp_LogPaths := [''a.log'']\<rparr>)"

definition aged_cluster :: cluster where
  "aged_cluster = empty_cluster\<lparr>cl_time := 7 * 24 * Hour + 5,
     cl_invs := [(key_of (inv_Meta (aged ''old'' 4)), aged ''old'' 4),
                 (key_of (inv_Meta (aged ''young'' 5)), aged ''young'' 5)]\<rparr>"

definition no_disk :: "'w Storage" where
  "no_disk = \<lparr>st_Write = (\<lambda>p d. ret None), st_Read = (\<lambda>p. ret (Inl NotFound)),
     st_Delete = (\<lambda>p. ret None), st_ListPrefix = (\<lambda>p. ret []), st_UsageBytes = ret (0, None),
     st_disk = None\<rparr>"

definition fresh_clp :: "cluster \<Rightarrow> (cluster \<times> call list) clp" where
  "fresh_clp w = \<lparr>counter = \<lparr>ic_count = 2, ic_max = 3\<rparr>, own = (), world = (w, [])\<rparr>"

theorem cleanup_prunes_exactly_the_overdue_witness:
  "\<exists>new. proc_calls (snd (run_state (runCleanup (traced sample_kube) (Some (traced_storage no_disk)))
        (fresh_clp aged_cluster))) =
      [ListConfigs, ListInvestigations, DeleteLog ''a.log'', DeleteInvestigation (aged ''old'' 4),
       ListConfigs] @ new"
proof -
  have configs: "run_state (List_Configs sample_kube) (fst (world (fresh_clp aged_cluster))) =
      (Inr [], aged_cluster)"
    by (simp add: fresh_clp_def aged_cluster_def empty_cluster_def list_of_def)
  have items: "run_state (List_Investigations sample_kube) aged_cluster =
      (Inr [aged ''old'' 4, aged ''young'' 5], aged_cluster)"
    by (simp add: aged_cluster_def empty_cluster_def list_of_def)
  have period: "retention_of (Inr []) = 7 * 24 * Hour" by (simp add: retention_of_def Hour_def)
  have bounds: "is_int64 (retention_of (Inr []))" "retention_of (Inr []) < maxDuration"
    by (simp_all add: period duration_units is_int64_def maxDuration_def)
  from cleanup_prunes_exactly_the_overdue [OF sample_clock configs items bounds, of no_disk]
  show ?thesis
    by (auto simp: period aged_def aged_cluster_def fresh_clp_def new_investigation_def)
qed

text \<open>A nil storage is tolerated only while nothing is overdue: with a nil storage, the first overdue
  Investigation that has logs ends the process in a nil dereference, before anything is deleted.\<close>

lemma nil_storage_panics:
  assumes configs: "run_state (List_Configs K) (world p) = (cs, w1)"
    and items: "run_state (List_Investigations K) w1 = (Inr (iv # items), w2)"
    and clock: "reads_clock K clk"
    and overdue: "retention_of cs < Sub (clk w2) (om_CreationTimestamp (inv_Meta iv))"
    and logs: "sp_LogPaths (inv_Spec iv) = path # paths"
  shows "run_state (cleanup_Start K None (Tick # sigs)) p =
    (Inl ''nil pointer dereference'', p\<lparr>world := w2\<rparr>)"
proof -
  have ret: "run_state (getRetentionPeriod K) p = (retention_of cs, p\<lparr>world := w1\<rparr>)"
    using configs
    by (auto simp: getRetentionPeriod_def retention_of_def defaultRetentionPeriod_def Hour_def
        split: sum.split list.split option.split)
  have "run_state (runCleanup K None) p = (Some (Panic ''nil pointer dereference''), p\<lparr>world := w2\<rparr>)"
    using ret items overdue logs
    by (simp add: runCleanup_def prune_item_def delete_log_def reads_clockD [OF clock])
  then show ?thesis by simp
qed

end
