(* ===== verification/StorageLimit.thy ===== *)
theory StorageLimit
  imports Cleanup Disk
begin

text \<open>
  The size limit of the cleanup on the disk storage: what the loop over the oldest files deletes, and
  what the arithmetic on the configured size does. The world is a pair here, the cluster and the disk.
\<close>

section \<open>The cluster and the disk side by side\<close>

definition on_first :: "('w, 'a) state \<Rightarrow> ('w \<times> 'd, 'a) state" where
  "on_first m = State (\<lambda>(w, d). case run_state m w of (a, w') \<Rightarrow> (a, (w', d)))"

definition on_second :: "('d, 'a) state \<Rightarrow> ('w \<times> 'd, 'a) state" where
  "on_second m = State (\<lambda>(w, d). case run_state m d of (a, d') \<Rightarrow> (a, (w, d')))"

lemma run_on_first [simp, run_simps]:
  "run_state (on_first m) wd = (case run_state m (fst wd) of (a, w') \<Rightarrow> (a, (w', snd wd)))"
  by (simp add: on_first_def split: prod.split)

lemma run_on_second [simp, run_simps]:
  "run_state (on_second m) wd = (case run_state m (snd wd) of (a, d') \<Rightarrow> (a, (fst wd, d')))"
  by (simp add: on_second_def split: prod.split)

definition first_runtime :: "'w runtime \<Rightarrow> ('w \<times> 'd) runtime" where
  "first_runtime K =
     \<lparr>ContainsFinalizer = ContainsFinalizer K, AddFinalizer = AddFinalizer K,
      RemoveFinalizer = RemoveFinalizer K, Now = on_first (Now K),
      Get_Investigation = (\<lambda>k. on_first (Get_Investigation K k)),
      Create_Investigation = (\<lambda>iv. on_first (Create_Investigation K iv)),
      Update_Investigation = (\<lambda>iv. on_first (Update_Investigation K iv)),
      StatusUpdate_Investigation = (\<lambda>iv. on_first (StatusUpdate_Investigation K iv)),
      Delete_Investigation = (\<lambda>iv. on_first (Delete_Investigation K iv)),
      List_Investigations = on_first (List_Investigations K),
      List_Configs = on_first (List_Configs K),
      Get_Pod = (\<lambda>k. on_first (Get_Pod K k)), Update_Pod = (\<lambda>p. on_first (Update_Pod K p)),
      List_Pods = (\<lambda>ns l. on_first (List_Pods K ns l)), Get_ER = (\<lambda>k. on_first (Get_ER K k)),
      List_ERs = (\<lambda>ns. on_first (List_ERs K ns)),
      List_Events = (\<lambda>ns n. on_first (List_Events K ns n))\<rparr>"

definition second_storage :: "'d Storage \<Rightarrow> ('w \<times> 'd) Storage" where
  "second_storage st =
     \<lparr>st_Write = (\<lambda>p b. on_second (st_Write st p b)), st_Read = (\<lambda>p. on_second (st_Read st p)),
      st_Delete = (\<lambda>p. on_second (st_Delete st p)),
      st_ListPrefix = (\<lambda>p. on_second (st_ListPrefix st p)),
      st_UsageBytes = on_second (st_UsageBytes st), st_disk = map_option on_second (st_disk st)\<rparr>"

lemma second_storage_simps [simp]:
  "st_Delete (second_storage st) p = on_second (st_Delete st p)"
  "st_UsageBytes (second_storage st) = on_second (st_UsageBytes st)"
  "st_disk (second_storage st) = map_option on_second (st_disk st)"
  by (simp_all add: second_storage_def)

text \<open>The code that enforces the limit only touches the disk.\<close>

lemma prune_oldest_second:
  "run_state (prune_oldest (second_storage st) mx ps u) wd =
   (case run_state (prune_oldest st mx ps u) (snd wd) of (a, d) \<Rightarrow> (a, (fst wd, d)))"
  by (induction ps arbitrary: u wd) (auto split: prod.split option.split)

lemma enforce_limit_second:
  "run_state (enforce_limit (second_storage st) mx) wd =
   (case run_state (enforce_limit st mx) (snd wd) of (a, d) \<Rightarrow> (a, (fst wd, d)))"
  by (auto simp: enforce_limit_def prune_oldest_second split: prod.split option.split sum.split)

section \<open>Deleting a log succeeds\<close>

lemma denied_none: "ds_denied d = [] \<Longrightarrow> \<not> denied d p"
  by (simp add: denied_def)

lemma RemoveAll_denied [simp]: "ds_denied (snd (RemoveAll p d)) = ds_denied d"
  by (simp add: RemoveAll_def Let_def)

lemma delete_succeeds:
  assumes ok: "disk_ok s d" and p: "valid_path p" and log: "log_at s d p \<noteq> None"
    and free: "ds_denied d = []"
  obtains d' where "run_state (disk_Delete s p) d = (None, d')" and "ds_denied d' = []"
proof -
  have root: "is_rooted (ds_root s)" and wf: "wf_disk d" using ok by (simp_all add: disk_ok_def)
  let ?p = "resolve (full_path s p)"
  have "node_at d ?p \<noteq> None"
    using log by (cases "node_at d ?p") (auto simp: log_at_def Let_def file_at_def split: if_splits)
  then have "\<not> is_file d r" if "strict_prefix r ?p" for r
    using wf that by (auto simp: wf_disk_def is_file_def)
  moreover have "strict_prefix r ?p" if "r \<in> set (butlast (prefixes ?p))" for r
  proof -
    have "prefixes ?p = butlast (prefixes ?p) @ [?p]"
      by (metis append_butlast_last_id last_prefixes prefixes_not_Nil)
    moreover have "distinct (prefixes ?p)" by (rule distinct_prefixes)
    ultimately have "r \<noteq> ?p" using that by (metis distinct_append disjoint_iff list.set_intros(1))
    moreover have "prefix r ?p" using that by (metis in_set_butlastD in_set_prefixes)
    ultimately show ?thesis by (simp add: strict_prefix_def)
  qed
  ultimately have no_file: "\<not> list_ex (\<lambda>r. is_file d r) (butlast (prefixes ?p))"
    by (auto simp: list_ex_iff)
  have "?p \<noteq> []" using p by (simp add: full_path_valid [OF root p])
  then have "fst (RemoveAll ?p d) = None"
    using no_file by (auto simp: RemoveAll_def Let_def stays_def list_ex_iff denied_none [OF free])
  then show thesis
    using that [of "snd (RemoveAll ?p d)"] free
    by (simp add: disk_Delete_RemoveAll [OF root] prod_eq_iff)
qed

section \<open>The loop\<close>

definition log_size :: "DiskStorage \<Rightarrow> disk \<Rightarrow> string \<Rightarrow> int" where
  "log_size s d p = (case log_at s d p of None \<Rightarrow> 0 | Some b \<Rightarrow> int (length b))"

text \<open>The disk after the first \<open>k\<close> of the logs \<open>ps\<close> were deleted, because the others did not do.\<close>

definition oldest_gone :: "DiskStorage \<Rightarrow> int \<Rightarrow> string list \<Rightarrow> disk \<Rightarrow> disk \<Rightarrow> nat \<Rightarrow> bool" where
  "oldest_gone s mx ps d d' k \<longleftrightarrow>
     k \<le> length ps \<and>
     (\<forall>q. valid_path q \<longrightarrow> log_at s d' q = (if q \<in> set (take k ps) then None else log_at s d q)) \<and>
     usage s d' = usage s d - sum_list (map (log_size s d) (take k ps)) \<and>
     (\<forall>j < k. mx < usage s d - sum_list (map (log_size s d) (take j ps))) \<and>
     (k < length ps \<longrightarrow> usage s d' \<le> mx)"

lemma oldest_gone_0: "ps = [] \<or> usage s d \<le> mx \<Longrightarrow> oldest_gone s mx ps d d 0"
  by (auto simp: oldest_gone_def)

lemma oldest_gone_Cons:
  assumes gone: "oldest_gone s mx ps d1 d' k" and p: "p \<notin> set ps" and v: "\<forall>q \<in> set (p # ps). valid_path q"
    and big: "mx < usage s d" and u: "usage s d1 = usage s d - log_size s d p"
    and d1: "log_at s d1 p = None" "\<forall>q. valid_path q \<longrightarrow> q \<noteq> p \<longrightarrow> log_at s d1 q = log_at s d q"
  shows "oldest_gone s mx (p # ps) d d' (Suc k)"
proof -
  have sizes: "map (log_size s d1) (take j ps) = map (log_size s d) (take j ps)" for j
    using p v d1(2) by (auto simp: log_size_def dest!: in_set_takeD)
  have first: "mx < usage s d - sum_list (map (log_size s d) (take j (p # ps)))" if "j < Suc k" for j
  proof (cases j)
    case 0
    with big show ?thesis by simp
  next
    case (Suc i)
    with that have "mx < usage s d1 - sum_list (map (log_size s d1) (take i ps))"
      using gone by (simp add: oldest_gone_def)
    then have "mx < usage s d1 - sum_list (map (log_size s d) (take i ps))"
      unfolding sizes .
    with Suc u show ?thesis by simp
  qed
  have logs: "log_at s d' q = (if q \<in> set (take (Suc k) (p # ps)) then None else log_at s d q)"
    if "valid_path q" for q
    using gone that d1 by (auto simp: oldest_gone_def)
  have "usage s d' = usage s d1 - sum_list (map (log_size s d1) (take k ps))"
    using gone unfolding oldest_gone_def by blast
  then have used: "usage s d' = usage s d - sum_list (map (log_size s d) (take (Suc k) (p # ps)))"
    unfolding sizes u by simp
  have "k \<le> length ps" "k < length ps \<longrightarrow> usage s d' \<le> mx"
    using gone unfolding oldest_gone_def by blast+
  then have len: "Suc k \<le> length (p # ps)" "Suc k < length (p # ps) \<longrightarrow> usage s d' \<le> mx" by simp_all
  show ?thesis
    unfolding oldest_gone_def by (intro conjI len used allI impI logs first)
qed

lemma prune_oldest_effect:
  assumes "disk_ok s d" and "ds_denied d = []" and "distinct ps"
    and "\<forall>p \<in> set ps. valid_path p \<and> log_at s d p \<noteq> None"
  shows "\<exists>k. oldest_gone s mx ps d
    (snd (run_state (prune_oldest (disk_storage srt s) mx ps (usage s d)) d)) k"
  using assms
proof (induction ps arbitrary: d)
  case Nil
  then show ?case by (intro exI [of _ 0]) (simp add: oldest_gone_0)
next
  case (Cons p ps)
  show ?case
  proof (cases "usage s d \<le> mx")
    case True
    then show ?thesis by (intro exI [of _ 0]) (simp add: oldest_gone_0)
  next
    case False
    have p: "valid_path p" "log_at s d p \<noteq> None" using Cons.prems(4) by simp_all
    obtain d1 where del: "run_state (disk_Delete s p) d = (None, d1)" "ds_denied d1 = []"
      by (rule delete_succeeds [OF Cons.prems(1) p Cons.prems(2)])
    obtain b where b: "log_at s d p = Some b" using p by blast
    note eff = disk_Delete_effect [OF Cons.prems(1) p(1) del(1)]
      and use = delete_usage [OF Cons.prems(1) p(1) b del(1)]
    have "\<forall>q \<in> set ps. valid_path q \<and> log_at s d1 q \<noteq> None"
      using Cons.prems(3,4) eff p(2) by (metis distinct.simps(2) list.set_intros(2))
    from Cons.IH [OF _ del(2) _ this] eff Cons.prems(3) obtain k where
      "oldest_gone s mx ps d1
        (snd (run_state (prune_oldest (disk_storage srt s) mx ps (usage s d1)) d1)) k"
      by auto
    then have "oldest_gone s mx (p # ps) d
        (snd (run_state (prune_oldest (disk_storage srt s) mx ps (usage s d1)) d1)) (Suc k)"
      by (rule oldest_gone_Cons)
        (use Cons.prems(3,4) False use b eff p(2) in \<open>auto simp: log_size_def\<close>)
    then show ?thesis
      using False del(1) by (auto simp: disk_storage_def usage_def disk_UsageBytes_def)
  qed
qed

lemma file_entries_distinct:
  assumes ok: "disk_ok s d"
  shows "distinct (map fst (file_entries s d))"
proof -
  let ?r = "resolve (Clean (ds_root s))"
  let ?rel = "\<lambda>q. Rel (ds_root s) (path_string s q)"
  have root: "is_rooted (ds_root s)" and wf: "wf_disk d" using ok by (simp_all add: disk_ok_def)
  have rel: "?rel q = (if ds = [] then ''.'' else join_slash ds)" "propers ds"
    if "q \<in> fst ` set (walk_files ?r d)" "q = ?r @ ds" for q ds
  proof -
    show ds: "propers ds" using that wf by (force simp: walk_files_set wf_disk_def)
    show "?rel q = (if ds = [] then ''.'' else join_slash ds)"
      unfolding that(2) by (rule rel_beneath [OF root ds])
  qed
  have dot: "\<not> propers [''.'']" by (simp add: propers_def proper_def)
  have inj: "inj_on ?rel (fst ` set (walk_files ?r d))"
  proof (rule inj_onI)
    fix q q' assume q: "q \<in> fst ` set (walk_files ?r d)" "q' \<in> fst ` set (walk_files ?r d)"
      and eq: "?rel q = ?rel q'"
    from q obtain ds ds' where ds: "q = ?r @ ds" "q' = ?r @ ds'"
      using wf by (force simp: walk_files_set prefix_def)
    have split: "split_slash (?rel q) = (if ds = [] then [''.''] else ds)"
      "split_slash (?rel q') = (if ds' = [] then [''.''] else ds')"
      unfolding rel(1) [OF q(1) ds(1)] rel(1) [OF q(2) ds(2)]
      using rel(2) [OF q(1) ds(1)] rel(2) [OF q(2) ds(2)] by (simp_all add: split_join propers_no_slash)
    have "(if ds = [] then [''.''] else ds) = (if ds' = [] then [''.''] else ds')"
      unfolding split [symmetric] eq ..
    moreover have "ds \<noteq> [''.'']" "ds' \<noteq> [''.'']"
      using rel(2) [OF q(1) ds(1)] rel(2) [OF q(2) ds(2)] dot by metis+
    ultimately have "ds = ds'" by (simp split: if_splits)
    then show "q = q'" by (simp add: ds)
  qed
  have "map fst (file_entries s d) =
      filter (\<lambda>rel. HasSuffix rel ''.log'') (map ?rel (map fst (walk_files ?r d)))"
    by (simp add: file_entries_def filter_map comp_def case_prod_beta)
  then show ?thesis
    using inj walk_files_distinct [OF wf, of ?r]
    by (simp only: distinct_filter distinct_map [of ?rel] set_map simp_thms)
qed

section \<open>The limit in bytes\<close>

lemma max_bytes_exact:
  assumes "0 < mb" and "mb < 2 ^ 43"
  shows "max_bytes mb = mb * 1048576"
proof -
  have "is_int64 (mb * 1024)" "is_int64 (mb * 1048576)"
    using assms by (simp_all add: is_int64_def)
  then show ?thesis by (simp add: max_bytes_def algebra_simps)
qed

lemma max_bytes_overflow: "max_bytes (2 ^ 43) = - (2 ^ 63)"
  by (simp add: max_bytes_def wrap64_def)

text \<open>What \<open>enforce_limit\<close> does on the disk.\<close>

lemma enforce_limit_effect:
  assumes ok: "disk_ok s d" and free: "ds_denied d = []" and srt: "sorts srt"
    and ps: "run_state (disk_OldestFiles srt s) d = (Inr ps, d)"
  shows "\<exists>k. oldest_gone s mx ps d (snd (run_state (enforce_limit (disk_storage srt s) mx) d)) k"
proof (cases "usage s d \<le> mx")
  case True
  then show ?thesis
    by (intro exI [of _ 0])
      (simp add: enforce_limit_def disk_storage_def usage_def disk_UsageBytes_def
        oldest_gone_0 [unfolded usage_def disk_UsageBytes_def])
next
  case False
  have less: "(\<lambda>a b. snd a < snd b) = less_by (snd :: string \<times> int \<Rightarrow> int)"
    by (simp add: less_by_def fun_eq_iff)
  have "ps = map fst (srt (less_by snd) (file_entries s d))"
    using ps by (simp add: disk_OldestFiles_def less)
  moreover have "mset (srt (less_by snd) (file_entries s d)) = mset (file_entries s d)"
    using srt by (simp add: sorts_def)
  ultimately have mset: "mset ps = mset (map fst (file_entries s d))" by simp
  have "distinct ps" "set ps = fst ` set (file_entries s d)"
    using mset_eq_imp_distinct_iff [OF mset] file_entries_distinct [OF ok] mset_eq_setD [OF mset]
    by simp_all
  then have "\<exists>k. oldest_gone s mx ps d
      (snd (run_state (prune_oldest (disk_storage srt s) mx ps (usage s d)) d)) k"
    by (intro prune_oldest_effect ok free) (auto simp: file_entries_set [OF ok])
  then show ?thesis
    using False ps
    by (simp add: enforce_limit_def disk_storage_def usage_def disk_UsageBytes_def)
qed

lemma run_enforceStorageLimit:
  assumes "run_state (List_Configs K) (fst (world p)) = (Inr (config # configs), w)"
    and "ls_MaxSizeMB (dc_LogStorage (cfg_Spec config)) = Some mb" and "0 < mb"
  shows "run_state (enforceStorageLimit (first_runtime K) (Some (second_storage st))) p =
    ((), p\<lparr>world := (w, snd (run_state (enforce_limit st (max_bytes mb)) (snd (world p))))\<rparr>)"
  using assms
  by (simp add: enforceStorageLimit_def first_runtime_def size_limit_def enforce_limit_second
      split: prod.split)

section \<open>Properties\<close>


definition limited_config :: "int \<Rightarrow> DetectiveConfig" where
  "limited_config mb = \<lparr>cfg_Meta = new_meta ''ns'' ''cfg'',
     cfg_Spec = \<lparr>dc_Repositories = [], dc_PollInterval = None,
       dc_LogStorage = \<lparr>ls_PVCName = [], ls_MaxSizeMB = Some mb\<rparr>,
       dc_RetentionPeriod = None, dc_MaxInvestigations = None\<rparr>,
     cfg_Status = \<lparr>ds_Phase = [], ds_Message = []\<rparr>\<rparr>"

definition limited_clp :: "int \<Rightarrow> disk \<Rightarrow> (cluster \<times> disk) clp" where
  "limited_clp mb d = \<lparr>counter = \<lparr>ic_count = 0, ic_max = 3\<rparr>, own = (),
     world = (empty_cluster\<lparr>cl_configs := [limited_config mb]\<rparr>, d)\<rparr>"

lemma limited_configs:
  "run_state (List_Configs sample_kube) (fst (world (limited_clp mb d))) =
    (Inr [limited_config mb], empty_cluster\<lparr>cl_configs := [limited_config mb]\<rparr>)"
  by (simp add: limited_clp_def list_of_def empty_cluster_def)

lemma limited_mb: "ls_MaxSizeMB (dc_LogStorage (cfg_Spec (limited_config mb))) = Some mb"
  by (simp add: limited_config_def)

lemma one_log_free: "ds_denied one_log = []"
  by (simp add: one_log_def disk_Write_def Let_def Path_Dir_def full_path_def sample_storage_def Join_def
      Clean_def clean_comps_def is_rooted_def resolve_def Create_file_def empty_disk_def node_at_def
      put_node_def denied_def)

text \<open>The storage with one log and the disk after the limit was enforced.\<close>

definition enforced :: "int \<Rightarrow> disk \<Rightarrow> disk" where
  "enforced mb d = snd (world (snd (run_state (enforceStorageLimit (first_runtime sample_kube)
     (Some (second_storage (disk_storage insertion_sort sample_storage)))) (limited_clp mb d))))"

lemma run_enforced:
  "run_state (enforceStorageLimit (first_runtime sample_kube)
     (Some (second_storage (disk_storage insertion_sort sample_storage)))) (limited_clp mb d) =
   ((), snd (run_state (enforceStorageLimit (first_runtime sample_kube)
     (Some (second_storage (disk_storage insertion_sort sample_storage)))) (limited_clp mb d)))"
  by (simp add: prod_eq_iff)


text \<open>C37: a limit too large overflows to nothing: the limit in bytes is a 64-bit product, exact below 2 to
  the 43 megabytes; at 2 to the 43 it is negative, and a cleanup that means to allow that much
  deletes every log on the disk.\<close>

theorem huge_size_limit_deletes_everything:
  assumes ok: "disk_ok s (snd (world p))" and free: "ds_denied (snd (world p)) = []"
    and srt: "sorts srt"
    and configs: "run_state (List_Configs K) (fst (world p)) = (Inr (config # configs), w)"
    and mb: "ls_MaxSizeMB (dc_LogStorage (cfg_Spec config)) = Some (2 ^ 43)"
    and run: "run_state (enforceStorageLimit (first_runtime K)
      (Some (second_storage (disk_storage srt s)))) p = ((), p')"
  shows "\<forall>q. valid_path q \<and> HasSuffix q ''.log'' \<longrightarrow> log_at s (snd (world p')) q = None"
proof -
  let ?d = "snd (world p)"
  let ?d' = "snd (run_state (enforce_limit (disk_storage srt s) (max_bytes (2 ^ 43))) ?d)"
  obtain ps where ps: "run_state (disk_OldestFiles srt s) ?d = (Inr ps, ?d)"
    by (simp add: disk_OldestFiles_def)
  have d': "snd (world p') = ?d'"
    using run unfolding run_enforceStorageLimit [OF configs mb, simplified] by auto
  obtain k where k: "oldest_gone s (max_bytes (2 ^ 43)) ps ?d ?d' k"
    using enforce_limit_effect [OF ok free srt ps] by blast
  have "0 \<le> usage s ?d'"
    unfolding usage_def disk_UsageBytes_def by (auto intro!: sum_list_nonneg)
  moreover have "max_bytes (2 ^ 43) < 0" unfolding max_bytes_overflow by simp
  ultimately have "\<not> usage s ?d' \<le> max_bytes (2 ^ 43)" by (simp only: not_le)
  then have "k = length ps" using k by (auto simp: oldest_gone_def)
  then have "\<forall>q. valid_path q \<longrightarrow> log_at s ?d' q = (if q \<in> set ps then None else log_at s ?d q)"
    using k by (simp add: oldest_gone_def)
  moreover have "set ps = {q. valid_path q \<and> HasSuffix q ''.log'' \<and> log_at s ?d q \<noteq> None}"
    using ps file_entries_set [OF ok] sorts_set [OF srt, of snd "file_entries s ?d"]
    by (auto simp: disk_OldestFiles_def less_by_def [abs_def])
  ultimately show ?thesis unfolding d' by auto
qed

theorem huge_size_limit_deletes_everything_witness:
  "log_at sample_storage one_log ''ns/a.log'' = Some ''xyz'' \<and>
   log_at sample_storage (enforced (2 ^ 43) one_log) ''ns/a.log'' = None"
proof -
  let ?p = "limited_clp (2 ^ 43) one_log"
  have w: "snd (world ?p) = one_log" by (simp add: limited_clp_def)
  have ok: "disk_ok sample_storage (snd (world ?p))" "ds_denied (snd (world ?p)) = []"
    unfolding w using one_log_ok one_log_free by simp_all
  have "\<forall>q. valid_path q \<and> HasSuffix q ''.log'' \<longrightarrow>
      log_at sample_storage (enforced (2 ^ 43) one_log) q = None"
    unfolding enforced_def
    by (rule huge_size_limit_deletes_everything [OF ok insertion.sorts_srt limited_configs limited_mb
        run_enforced])
  then show ?thesis using one_log_ok valid_sample by (simp add: HasSuffix_def)
qed

end
