(* ===== verification/Ledger.thy ===== *)
theory Ledger
  imports Cleanup ERWatcher Poller
begin

text \<open>
  The counter against the Investigations there are. \<open>ledger stored b lim d\<close> says that the counter, with the
  maximum \<open>lim\<close>, is at most \<open>lim\<close> or \<open>b\<close> and \<open>d\<close> above the number of stored Investigations; every operation of every controller keeps it, for every
  \<open>d\<close> from zero on. Within an operation that opens an Investigation the difference is one more for a
  while: \<open>settles\<close> is what it must do before it returns.
\<close>

section \<open>The ledger\<close>

definition ledger :: "'w store \<Rightarrow> int \<Rightarrow> int \<Rightarrow> int \<Rightarrow> (InvestigationCounter, 't, 'w) proc \<Rightarrow> bool" where
  "ledger stored b lim d p \<longleftrightarrow>
     ic.within b (counter p) \<and> ic_max (counter p) = lim \<and> finite (dom (stored (world p))) \<and>
     Count (counter p) = int (card (dom (stored (world p)))) + d"

text \<open>Only the names of the stored objects matter.\<close>

definition keeps_dom :: "'w store \<Rightarrow> ('w, 'a) state \<Rightarrow> bool" where
  "keeps_dom stored m \<longleftrightarrow> (\<forall>w. dom (stored (snd (run_state m w))) = dom (stored w))"

lemma keeps_keeps_dom: "keeps stored m \<Longrightarrow> keeps_dom stored m"
  by (simp add: keeps_def keeps_dom_def)

text \<open>It is a frame property, so the frame rules apply.\<close>

lemma keeps_dom_frame: "keeps_dom stored m \<longleftrightarrow> state_io_rel (same (\<lambda>w. dom (stored w))) m"
  by (simp add: keeps_dom_def state_io_rel_def same_def)

lemma put_keeps_dom: "put_law stored False call \<Longrightarrow> keeps_dom stored (call x)"
  by (simp add: keeps_dom_def put_law_dom)

lemma ledger_outside:
  assumes "keeps_dom stored m"
  shows "state_io_rel (preserves (ledger stored b lim d)) (outside m)"
proof -
  have "dom (stored w') = dom (stored w)" if "run_state m w = (a, w')" for w a w'
    using assms that unfolding keeps_dom_def by (metis snd_conv)
  then show ?thesis
    by (auto simp: state_io_rel_def preserves_def ledger_def split: prod.split)
qed

lemma ledger_own: "state_io_rel (preserves (ledger stored b lim d)) (modify (\<lambda>p. p\<lparr>own := f p\<rparr>))"
  by (simp add: state_io_rel_def preserves_def ledger_def)

text \<open>An operation that starts with a place taken and ends with the books in order.\<close>

definition settles ::
  "'w store \<Rightarrow> int \<Rightarrow> int \<Rightarrow> int \<Rightarrow> ((InvestigationCounter, 't, 'w) proc, 'a) state \<Rightarrow> bool" where
  "settles stored b lim d m \<longleftrightarrow>
     (\<forall>p. ledger stored b lim (d + 1) p \<longrightarrow> ledger stored b lim d (snd (run_state m p)))"

lemma settles_bind:
  assumes "state_io_rel (preserves (ledger stored b lim (d + 1))) m" and "\<And>a. settles stored b lim d (f a)"
  shows "settles stored b lim d (State_Monad.bind m f)"
  using assms by (force simp: settles_def state_io_rel_def preserves_def split: prod.split)

text \<open>What the single steps do to the books.\<close>

lemma ledger_reserve:
  assumes "ledger stored b lim d p" and "TryIncrement (counter p) = (granted, c)"
  shows "ledger stored b lim (d + (if granted then 1 else 0)) (p\<lparr>counter := c\<rparr>)"
proof -
  have within: "ic.within b (counter p)" using assms(1) by (simp add: ledger_def)
  then have "counter_ok (counter p)" by (simp add: ic.within_def)
  then have "Count c = Count (counter p) + (if granted then 1 else 0)"
    using assms(2) ic.used_try [of "counter p"] ic.try_iff [of "counter p"] by auto
  moreover have "ic.within b c" "ic_max c = ic_max (counter p)"
    using ic.within_try [OF within] ic.limit_try [of "counter p"] assms(2) by simp_all
  ultimately show ?thesis using assms(1) by (simp add: ledger_def)
qed

lemma reserve_keeps:
  assumes refused: "state_io_rel (preserves (ledger stored b lim d)) m" and granted: "settles stored b lim d n"
  shows "state_io_rel (preserves (ledger stored b lim d))
    (State_Monad.bind counter_TryIncrement (\<lambda>granted. if \<not> granted then m else n))"
proof (unfold state_io_rel_def, rule allI, goal_cases)
  case (1 p)
  obtain g c where t: "TryIncrement (counter p) = (g, c)" by (meson surj_pair)
  from ledger_reserve [OF _ t, of stored b lim d] show ?case
    using t granted state_io_rel_run [OF refused, of "p\<lparr>counter := c\<rparr>"]
    by (cases g) (auto simp: preserves_def settles_def)
qed

lemma ledger_decrement:
  assumes "ledger stored b lim (d + 1) p" and "0 \<le> d"
  shows "ledger stored b lim d (p\<lparr>counter := Decrement 1 (counter p)\<rparr>)"
  using assms ic.within_release [of b "counter p"] ic.release_used [of "counter p"]
  by (simp add: ledger_def ic.limit_release) (simp add: ic.within_def)

lemma ledger_create:
  assumes laws: "kube_laws stored K" and run: "run_state (Create_Investigation K iv) (world p) = (r, w)"
    and p: "ledger stored b lim (d + 1) p"
  shows "ledger stored b lim (case r of Inl e \<Rightarrow> d + 1 | Inr y \<Rightarrow> d) (p\<lparr>world := w\<rparr>)"
proof (cases r)
  case (Inl e)
  then have "stored w = stored (world p)" using put_law_Inl [OF kube_laws_puts(1) [OF laws]] run by blast
  then show ?thesis using p Inl by (simp add: ledger_def)
next
  case (Inr created)
  let ?k = "key_of (inv_Meta iv)"
  have w: "stored (world p) ?k = None" "stored w = (stored (world p))(?k \<mapsto> created)"
    using put_law_Inr [OF kube_laws_puts(1) [OF laws] run [unfolded Inr]] by simp_all
  have "card (insert ?k (dom (stored (world p)))) = Suc (card (dom (stored (world p))))"
    using p w(1) by (intro card_insert_disjoint) (auto simp: ledger_def)
  then show ?thesis using p w(2) Inr by (simp add: ledger_def)
qed

lemma ledger_delete:
  assumes laws: "kube_laws stored K" and run: "run_state (Delete_Investigation K iv) (world p) = (e, w)"
    and p: "ledger stored b lim d p"
  shows "ledger stored b lim (case e of None \<Rightarrow> d + 1 | Some err \<Rightarrow> d) (p\<lparr>world := w\<rparr>)"
proof (cases e)
  case (Some err)
  then have "stored w = stored (world p)" using drop_law_Some [OF kube_laws_puts(4) [OF laws]] run by blast
  then show ?thesis using p Some by (simp add: ledger_def)
next
  case None
  let ?k = "key_of (inv_Meta iv)"
  have w: "stored (world p) ?k \<noteq> None" "stored w = (stored (world p))(?k := None)"
    using drop_law_None [OF kube_laws_puts(4) [OF laws] run [unfolded None]] by simp_all
  have fin: "finite (dom (stored (world p)))" "?k \<in> dom (stored (world p))"
    using p w(1) by (auto simp: ledger_def)
  from card.remove [OF fin] show ?thesis using p w(2) None by (simp add: ledger_def)
qed

lemma settles_submit:
  assumes laws: "kube_laws stored K" and d: "0 \<le> d"
  shows "settles stored b lim d (submit K iv)"
  unfolding settles_def
proof (intro allI impI, goal_cases)
  case (1 p)
  obtain r w where c: "run_state (Create_Investigation K iv) (world p) = (r, w)" by (meson surj_pair)
  have update: "state_io_rel (preserves (ledger stored b lim d)) (outside (StatusUpdate_Investigation K x))" for x
    by (intro ledger_outside put_keeps_dom kube_laws_puts [OF laws])
  have status: "ledger stored b lim d (p\<lparr>world := w'\<rparr>)"
    if "run_state (StatusUpdate_Investigation K x) w = (a, w')" "ledger stored b lim d (p\<lparr>world := w\<rparr>)"
    for x a w'
    using state_io_rel_run [OF update [of x], of "p\<lparr>world := w\<rparr>"] that by (simp add: preserves_def)
  from ledger_create [OF laws c 1] show ?case
    using c ledger_decrement [OF _ d, of stored b lim "p\<lparr>world := w\<rparr>"]
    by (cases r) (auto simp: submit_def split: prod.splits intro: status)
qed

section \<open>The operations\<close>

lemmas ledger_rules =
  keep.io_return keep.io_gets keep.io_if keep.io_option keep.io_sum keep.io_let keep.io_for_each
  keep.io_for_first ledger_own ledger_outside reserve_keeps keep.io_bind
  settles_submit settles_bind

lemmas dom_rules = keeps_keeps_dom put_keeps_dom kube_keeps

text \<open>What the rest of the world does, the collector, the storage and GitHub, is no business of the API
  server's.\<close>

definition client_keeps :: "'w store \<Rightarrow> 'w GHClient \<Rightarrow> bool" where
  "client_keeps stored g \<longleftrightarrow>
     (\<forall>owner repo opts. keeps stored (gh_ListWorkflowRuns g owner repo opts)) \<and>
     (\<forall>owner repo i. keeps stored (gh_ListJobsForRun g owner repo i)) \<and>
     keeps stored (gh_IsRateLimited g)"

definition storage_keeps :: "'w store \<Rightarrow> 'w Storage \<Rightarrow> bool" where
  "storage_keeps stored st \<longleftrightarrow>
     (\<forall>path. keeps stored (st_Delete st path)) \<and> keeps stored (st_UsageBytes st) \<and>
     (\<forall>m. st_disk st = Some m \<longrightarrow> keeps stored m)"

lemma ensureInvestigation_ledger:
  assumes "kube_laws stored K" and "0 \<le> d"
  shows "state_io_rel (preserves (ledger stored b lim d)) (ensureInvestigation K pod logPaths)"
  unfolding ensureInvestigation_def Let_def
  by (intro ledger_rules dom_rules kube_laws_puts assms)

lemma createAnomaly_ledger:
  assumes "kube_laws stored K" and "0 \<le> d"
  shows "state_io_rel (preserves (ledger stored b lim d)) (createAnomalyInvestigation K pod anomaly)"
  unfolding createAnomalyInvestigation_def
  by (intro ledger_rules dom_rules kube_laws_puts assms)

text \<open>The pod watcher.\<close>

lemma pod_Reconcile_ledger:
  assumes "kube_laws stored K" and "0 \<le> d" and "\<And>pod. keeps stored (collect pod)"
  shows "state_io_rel (preserves (ledger stored b lim d)) (pod_Reconcile K collect key)"
proof -
  note calls = ensureInvestigation_ledger [OF assms(1,2)] createAnomaly_ledger [OF assms(1,2)]
  have delete: "state_io_rel (preserves (ledger stored b lim d)) (pod_handle_deletion K collect pod)" for pod
    unfolding pod_handle_deletion_def case_prod_beta
    by (intro ledger_rules calls dom_rules assms)
  have add: "state_io_rel (preserves (ledger stored b lim d)) (pod_add_finalizer K pod)" for pod
    unfolding pod_add_finalizer_def by (intro ledger_rules dom_rules assms)
  have check: "state_io_rel (preserves (ledger stored b lim d)) (pod_check_anomaly K pod)" for pod
    unfolding pod_check_anomaly_def Let_def by (intro ledger_rules calls)
  have track: "state_io_rel (preserves (ledger stored b lim d)) (pod_recordTransition K key pod)" for pod
    unfolding pod_recordTransition_def Let_def by (intro ledger_rules dom_rules assms)
  show ?thesis
    unfolding pod_Reconcile_def by (intro ledger_rules delete add check track dom_rules assms)
qed

text \<open>The runner watcher.\<close>

lemma er_Reconcile_ledger:
  assumes "kube_laws stored K" and "0 \<le> d"
  shows "state_io_rel (preserves (ledger stored b lim d)) (er_Reconcile K r key)"
proof -
  have create: "state_io_rel (preserves (ledger stored b lim d)) (er_createInvestigation K er t ph)" for er t ph
    unfolding er_createInvestigation_def by (intro ledger_rules dom_rules assms)
  have failed: "state_io_rel (preserves (ledger stored b lim d)) (handleFailed K r er ph)" for er ph
    unfolding handleFailed_def Let_def by (intro ledger_rules create dom_rules assms)
  have running: "state_io_rel (preserves (ledger stored b lim d)) (handleRunning K r key er ph)" for er ph
    unfolding handleRunning_def Let_def by (intro ledger_rules create dom_rules assms)
  have track: "state_io_rel (preserves (ledger stored b lim d)) (er_recordTransition K key ph)" for ph
    unfolding er_recordTransition_def Let_def by (intro ledger_rules dom_rules assms)
  show ?thesis
    unfolding er_Reconcile_def Let_def by (intro ledger_rules failed running track dom_rules assms)
qed

text \<open>The poller.\<close>

lemma client_keeps_rules:
  assumes "client_keeps stored g"
  shows "keeps_dom stored (gh_ListWorkflowRuns g owner repo opts)"
    "keeps_dom stored (gh_ListJobsForRun g owner repo i)" "keeps_dom stored (gh_IsRateLimited g)"
  using assms by (simp_all add: client_keeps_def keeps_keeps_dom)

lemma poll_ledger:
  assumes "kube_laws stored K" and "0 \<le> d" and "client_keeps stored g"
  shows "state_io_rel (preserves (ledger stored b lim d)) (poll K g q)"
proof -
  note gh = client_keeps_rules [OF assms(3)]
  have check: "state_io_rel (preserves (ledger stored b lim d)) (checkJob K q owner repo ns run job)"
    for owner repo ns run job
    unfolding checkJob_def createJobInvestigation_def by (intro ledger_rules dom_rules assms)
  have repo: "state_io_rel (preserves (ledger stored b lim d)) (pollRepo K g q owner repo ns)" for owner repo ns
    unfolding pollRepo_def pollRun_def by (intro ledger_rules check gh)
  show ?thesis
    unfolding poll_def by (intro ledger_rules repo gh dom_rules assms)
qed

text \<open>The cleanup.\<close>

lemma storage_keeps_rules:
  assumes "storage_keeps stored st"
  shows "keeps_dom stored (st_Delete st path)" "keeps_dom stored (st_UsageBytes st)"
    "st_disk st = Some m \<Longrightarrow> keeps_dom stored m"
  using assms by (auto simp: storage_keeps_def keeps_keeps_dom)

lemma drop_ledger:
  assumes laws: "kube_laws stored K" and d: "0 \<le> d"
  shows "state_io_rel (preserves (ledger stored b lim d)) (do {
      e \<leftarrow> outside (Delete_Investigation K iv);
      (case e of Some err \<Rightarrow> ret None | None \<Rightarrow> do { counter_Decrement 1; ret None })
    })"
proof (unfold state_io_rel_def, rule allI, goal_cases)
  case (1 p)
  obtain e w where del: "run_state (Delete_Investigation K iv) (world p) = (e, w)" by (meson surj_pair)
  from ledger_delete [OF laws del] show ?case
    using del ledger_decrement [OF _ d, of stored b lim "p\<lparr>world := w\<rparr>"]
    by (cases e) (auto simp: preserves_def)
qed

lemma prune_oldest_keeps:
  "storage_keeps stored st \<Longrightarrow> keeps_dom stored (prune_oldest st mx ps u)"
  unfolding keeps_dom_frame
  by (induction ps arbitrary: u)
    (auto intro!: frame.io_rules storage_keeps_rules [unfolded keeps_dom_frame])

lemma enforce_limit_keeps:
  "storage_keeps stored st \<Longrightarrow> keeps_dom stored (enforce_limit st mx)"
  unfolding keeps_dom_frame enforce_limit_def
  by (intro frame.io_rules storage_keeps_rules [unfolded keeps_dom_frame]
      prune_oldest_keeps [unfolded keeps_dom_frame])

lemma runCleanup_ledger:
  assumes "kube_laws stored K" and "0 \<le> d" and storage: "\<And>st. storage = Some st \<Longrightarrow> storage_keeps stored st"
  shows "state_io_rel (preserves (ledger stored b lim d)) (runCleanup K storage)"
proof -
  note st = storage_keeps_rules [OF storage]
  have retention: "state_io_rel (preserves (ledger stored b lim d)) (getRetentionPeriod K)"
    unfolding getRetentionPeriod_def by (intro ledger_rules dom_rules assms)
  have log: "state_io_rel (preserves (ledger stored b lim d)) (delete_log storage path)" for path
    unfolding delete_log_def by (intro ledger_rules st) auto
  have item: "state_io_rel (preserves (ledger stored b lim d)) (prune_item K storage rp now iv)" for rp now iv
    unfolding prune_item_def Let_def by (intro ledger_rules log drop_ledger assms)
  have limit: "state_io_rel (preserves (ledger stored b lim d)) (enforceStorageLimit K storage)"
    unfolding enforceStorageLimit_def
    by (intro ledger_rules enforce_limit_keeps storage keeps_keeps_dom kube_keeps assms)
  show ?thesis
    unfolding runCleanup_def by (intro ledger_rules retention item limit dom_rules assms)
qed

end
