(* ===== verification/Startup.thy ===== *)
theory Startup
  imports ERWatcher Poller Disk
begin

text \<open>
  \<open>cmd/main.go\<close>: how the process is put together from its flags, the objects of the cluster and the
  environment. The calls of the controller manager and of the client libraries are the parameter
  \<open>Setup\<close>, one constructor of \<open>setup_call\<close> for each, in the order main makes them; what they do beside
  returning an error is the libraries'. \<open>K\<close> is the direct client. Parsing the command line is the
  standard library's: main is given the parsed flags. Of the options of the manager, those with a flag
  are kept.
\<close>

section \<open>Flags\<close>

record flags =
  fl_metricsAddr :: string
  fl_probeAddr :: string
  fl_leaderElect :: bool
  fl_logStoragePath :: string
  fl_ghToken :: string
  fl_ghAppID :: string
  fl_ghAppInstallationID :: string
  fl_ghAppPrivateKey :: string
  fl_ghBaseURL :: string
  fl_pollInterval :: duration
  fl_stuckThreshold :: duration
  fl_runningThreshold :: duration

text \<open>The defaults; \<open>env\<close> is \<open>os.Getenv\<close>.\<close>

definition default_flags :: "(string \<Rightarrow> string) \<Rightarrow> flags" where
  "default_flags env =
     \<lparr>fl_metricsAddr = ''0'', fl_probeAddr = '':8081'', fl_leaderElect = False,
      fl_logStoragePath = ''/var/log/arc-detective'', fl_ghToken = env ''GITHUB_TOKEN'',
      fl_ghAppID = env ''GITHUB_APP_ID'',
      fl_ghAppInstallationID = env ''GITHUB_APP_INSTALLATION_ID'',
      fl_ghAppPrivateKey = env ''GITHUB_APP_PRIVATE_KEY'', fl_ghBaseURL = [],
      fl_pollInterval = 30 * Second, fl_stuckThreshold = 5 * Minute,
      fl_runningThreshold = 30 * Minute\<rparr>"

section \<open>The parts of the process\<close>

record program =
  pr_counter :: InvestigationCounter
  pr_storage :: DiskStorage
  pr_client :: "client \<times> RateLimitTracker"
  pr_erWatcher :: "EphemeralRunnerWatcher \<times> (NamespacedName \<rightharpoonup> erTracker)"
  pr_poller :: GitHubPoller

datatype setup_call =
    NewManager string string bool
  | IndexEventsByPod
  | NewClientset
  | NewDirectClient
  | SetupPodWatcher
  | SetupERWatcher
  | SetupCorrelator
  | AddPoller
  | AddCleanup
  | AddHealthzCheck
  | AddReadyzCheck
  | StartManager program

record 'w host =
  Setup :: "setup_call \<Rightarrow> ('w, go_error option) state"
  ParsePrivateKey :: "string \<Rightarrow> go_error + string"

text \<open>How main ends early: \<open>os.Exit(1)\<close> after a message, or a panic.\<close>

datatype stop = Exit string | Crash string

section \<open>The steps of main\<close>

text \<open>The credentials of the GitHub client: those of an App before a token.\<close>

definition github_options :: "(string \<Rightarrow> go_error + string) \<Rightarrow> flags \<Rightarrow> string + Option list" where
  "github_options parse fl =
     (let base = (if fl_ghBaseURL fl \<noteq> [] then [WithBaseURL (fl_ghBaseURL fl)] else []) in
      if fl_ghAppID fl \<noteq> [] \<or> fl_ghAppInstallationID fl \<noteq> [] \<or> fl_ghAppPrivateKey fl \<noteq> [] then
        (if fl_ghAppID fl = [] \<or> fl_ghAppInstallationID fl = [] \<or> fl_ghAppPrivateKey fl = [] then
           Inl ''github-app-id, github-app-installation-id, and github-app-private-key must all be set together''
         else (case parse (fl_ghAppPrivateKey fl) of
             Inl err \<Rightarrow> Inl ''Failed to parse GitHub App private key''
           | Inr privateKey \<Rightarrow>
               Inr ([WithGitHubApp \<lparr>ac_AppID = fl_ghAppID fl, ac_InstallationID = fl_ghAppInstallationID fl,
                       ac_PrivateKey = privateKey, ac_BaseURL = fl_ghBaseURL fl\<rparr>] @ base)))
      else if fl_ghToken fl \<noteq> [] then Inr ([WithPAT (fl_ghToken fl)] @ base)
      else Inr base)"

definition configured_max :: "go_error + DetectiveConfig list \<Rightarrow> int" where
  "configured_max r =
     (case r of
        Inr (config # configs) \<Rightarrow>
          (case dc_MaxInvestigations (cfg_Spec config) of
             Some m \<Rightarrow> m
           | None \<Rightarrow> DefaultMaxInvestigations)
      | _ \<Rightarrow> DefaultMaxInvestigations)"

text \<open>A call whose error ends the process.\<close>

definition or_exit ::
  "('w, go_error option) state \<Rightarrow> string \<Rightarrow> ('w, stop + 'a) state \<Rightarrow> ('w, stop + 'a) state" where
  "or_exit call msg rest = do {
     e \<leftarrow> call;
     (case e of Some err \<Rightarrow> ret (Inl (Exit msg)) | None \<Rightarrow> rest)
   }"

definition registrations :: "(setup_call \<times> string) list" where
  "registrations =
     [(SetupPodWatcher, ''Failed to create controller''),
      (SetupERWatcher, ''Failed to create controller''),
      (SetupCorrelator, ''Failed to create controller''),
      (AddPoller, ''Failed to add GitHub poller''),
      (AddCleanup, ''Failed to add cleanup controller''),
      (AddHealthzCheck, ''Failed to set up health check''),
      (AddReadyzCheck, ''Failed to set up ready check'')]"

text \<open>The counter: its maximum from the first config, its start from the Investigations there are.\<close>

definition init_counter :: "'w runtime \<Rightarrow> ('w, stop + InvestigationCounter) state" where
  "init_counter K = do {
     cs \<leftarrow> List_Configs K;
     (let maxInv = configured_max cs in
      if maxInv = 0 then ret (Inl (Exit ''maxInvestigations must be > 0, got 0''))
      else do {
        r \<leftarrow> List_Investigations K;
        ret (case r of
            Inl err \<Rightarrow> Inl (Exit ''Failed to list existing investigations for counter init'')
          | Inr items \<Rightarrow>
              (case NewInvestigationCounter maxInv of
                 Inl (Panic m) \<Rightarrow> Inl (Crash m)
               | Inl (Failed e) \<Rightarrow> Inl (Crash [])
               | Inr c \<Rightarrow> Inr (Init (int (length items)) c)))
      })
   }"

definition build_program :: "flags \<Rightarrow> Option list \<Rightarrow> InvestigationCounter \<Rightarrow> program" where
  "build_program fl opts c =
     \<lparr>pr_counter = c, pr_storage = NewDiskStorage (fl_logStoragePath fl),
      pr_client = NewClient opts,
      pr_erWatcher = NewEphemeralRunnerWatcher (fl_stuckThreshold fl) (fl_runningThreshold fl),
      pr_poller = NewGitHubPoller (fl_pollInterval fl)\<rparr>"

definition register :: "'w host \<Rightarrow> ('w, string option) state" where
  "register host = for_first (\<lambda>(call, msg). do {
     e \<leftarrow> Setup host call;
     ret (map_option (\<lambda>_. msg) e) }) registrations"

definition count_and_register ::
  "'w host \<Rightarrow> 'w runtime \<Rightarrow> flags \<Rightarrow> Option list \<Rightarrow> ('w, stop + program) state" where
  "count_and_register host K fl opts = do {
     r \<leftarrow> init_counter K;
     (case r of
        Inl s \<Rightarrow> ret (Inl s)
      | Inr c \<Rightarrow> do {
          failed \<leftarrow> register host;
          ret (case failed of
              Some msg \<Rightarrow> Inl (Exit msg)
            | None \<Rightarrow> Inr (build_program fl opts c))
        })
   }"

text \<open>Everything up to the start of the manager.\<close>

definition prepare :: "'w host \<Rightarrow> 'w runtime \<Rightarrow> flags \<Rightarrow> ('w, stop + program) state" where
  "prepare host K fl =
     or_exit (Setup host (NewManager (fl_metricsAddr fl) (fl_probeAddr fl) (fl_leaderElect fl)))
       ''Failed to start manager''
     (or_exit (Setup host IndexEventsByPod) ''Failed to create field index for Events''
     (or_exit (Setup host NewClientset) ''Failed to create clientset''
     (case github_options (ParsePrivateKey host) fl of
        Inl msg \<Rightarrow> ret (Inl (Exit msg))
      | Inr opts \<Rightarrow>
          or_exit (Setup host NewDirectClient) ''Failed to create direct client''
            (count_and_register host K fl opts))))"

definition main :: "'w host \<Rightarrow> 'w runtime \<Rightarrow> flags \<Rightarrow> ('w, stop option) state" where
  "main host K fl = do {
     r \<leftarrow> prepare host K fl;
     (case r of
        Inl s \<Rightarrow> ret (Some s)
      | Inr prog \<Rightarrow> do {
          e \<leftarrow> Setup host (StartManager prog);
          ret (map_option (\<lambda>_. Exit ''Failed to run manager'') e)
        })
   }"

section \<open>What main returns\<close>

lemma returns_or_exit:
  "(\<And>msg. Q (Inl (Exit msg))) \<Longrightarrow> returns rest Q \<Longrightarrow> returns (or_exit call msg rest) Q"
  unfolding or_exit_def
  by (intro returns_bind_any) (auto intro: returns_return split: option.split)

text \<open>A counter that main builds has a non-zero maximum; a zero is caught before the panic.\<close>

definition fresh_counter :: "InvestigationCounter \<Rightarrow> bool" where
  "fresh_counter c \<longleftrightarrow> ic_max c \<noteq> 0 \<and> 0 \<le> ic_count c"

lemma init_counter_returns:
  "returns (init_counter K) (\<lambda>r. case r of Inl (Crash m) \<Rightarrow> False | Inl (Exit m) \<Rightarrow> True
     | Inr c \<Rightarrow> fresh_counter c)"
  unfolding init_counter_def Let_def
  by (intro returns_bind_any)
    (auto simp: NewInvestigationCounter_def fresh_counter_def Init_def intro!: returns_return
      returns_bind_any split: sum.splits if_splits)

definition well_prepared :: "'w host \<Rightarrow> flags \<Rightarrow> stop + program \<Rightarrow> bool" where
  "well_prepared host fl r \<longleftrightarrow>
     (case r of
        Inl (Crash m) \<Rightarrow> False
      | Inl (Exit m) \<Rightarrow> True
      | Inr prog \<Rightarrow>
          \<exists>opts c. github_options (ParsePrivateKey host) fl = Inr opts \<and> fresh_counter c \<and>
            prog = build_program fl opts c)"

lemma count_and_register_returns:
  "github_options (ParsePrivateKey host) fl = Inr opts \<Longrightarrow>
   returns (count_and_register host K fl opts) (well_prepared host fl)"
  unfolding count_and_register_def
  by (rule returns_bind [OF init_counter_returns])
    (auto simp: well_prepared_def intro!: returns_return returns_bind_any
      split: sum.splits stop.splits option.splits)

lemma prepare_returns: "returns (prepare host K fl) (well_prepared host fl)"
  unfolding prepare_def
  by (intro returns_or_exit)
    (auto intro!: returns_or_exit count_and_register_returns returns_return
      simp: well_prepared_def [of _ _ "Inl _"] split: sum.split)

section \<open>Properties\<close>

text \<open>C38: the process never starts with half of its credentials and never panics while starting: main
  either exits with a message or reaches the start of the manager, with a maximum that is not zero and
  a GitHub client that uses the App where one of its three flags is set (and then all three are, and
  the token is not used), else the token where one is set, else nothing, at the base URL where one is
  set.\<close>

theorem startup_credentials_and_counter:
  assumes "run_state (prepare host K fl) w = (r, w')"
  shows "(\<exists>msg. r = Inl (Exit msg)) \<or>
    (\<exists>prog. r = Inr prog \<and> ic_max (pr_counter prog) \<noteq> 0 \<and> 0 \<le> Count (pr_counter prog) \<and>
       (let app = (fl_ghAppID fl \<noteq> [] \<or> fl_ghAppInstallationID fl \<noteq> [] \<or> fl_ghAppPrivateKey fl \<noteq> []);
            c = fst (pr_client prog) in
        (app \<longrightarrow> fl_ghAppID fl \<noteq> [] \<and> fl_ghAppInstallationID fl \<noteq> [] \<and> fl_ghAppPrivateKey fl \<noteq> []) \<and>
        cl_token c = (if app then [] else fl_ghToken fl) \<and>
        hc_Transport (cl_httpClient c) =
          (if app then OAuth2Transport
             \<lparr>ac_AppID = fl_ghAppID fl, ac_InstallationID = fl_ghAppInstallationID fl,
              ac_PrivateKey = projr (ParsePrivateKey host (fl_ghAppPrivateKey fl)),
              ac_BaseURL = fl_ghBaseURL fl\<rparr>
           else DefaultTransport) \<and>
        cl_baseURL c = (if fl_ghBaseURL fl = [] then ''https://api.github.com'' else fl_ghBaseURL fl)))"
proof (cases r)
  case (Inl s)
  then show ?thesis
    using returnsD [OF prepare_returns assms] by (cases s) (simp_all add: well_prepared_def)
next
  case (Inr prog)
  then obtain opts c where opts: "github_options (ParsePrivateKey host) fl = Inr opts"
    and c: "fresh_counter c" and prog: "prog = build_program fl opts c"
    using returnsD [OF prepare_returns assms] by (auto simp: well_prepared_def)
  have "pr_client prog = NewClient opts" "pr_counter prog = c"
    by (simp_all add: prog build_program_def)
  then show ?thesis
    using opts c Inr
    by (auto simp: github_options_def NewClient_def Let_def fresh_counter_def Count_def
        split: if_splits sum.splits)
qed

text \<open>A host on which every call succeeds.\<close>

definition calm_host :: "'w host" where
  "calm_host = \<lparr>Setup = (\<lambda>c. ret None), ParsePrivateKey = (\<lambda>key. Inr key)\<rparr>"

definition token_flags :: flags where
  "token_flags = default_flags (\<lambda>v. if v = ''GITHUB_TOKEN'' then ''secret'' else [])"

theorem startup_credentials_and_counter_witness:
  "\<exists>prog w'. run_state (prepare calm_host sample_kube token_flags) empty_cluster = (Inr prog, w') \<and>
     cl_token (fst (pr_client prog)) = ''secret'' \<and> ic_max (pr_counter prog) \<noteq> 0"
proof -
  obtain r w' where run: "run_state (prepare calm_host sample_kube token_flags) empty_cluster = (r, w')"
    by (meson surj_pair)
  then have "\<exists>prog. r = Inr prog"
    by (auto simp: prepare_def or_exit_def calm_host_def token_flags_def default_flags_def
        github_options_def count_and_register_def init_counter_def list_of_def empty_cluster_def
        configured_max_def DefaultMaxInvestigations_def NewInvestigationCounter_def register_def
        registrations_def)
  then obtain prog where "r = Inr prog" by blast
  with startup_credentials_and_counter [OF run] run show ?thesis
    by (auto simp: Let_def token_flags_def default_flags_def)
qed

end
