(* ===== verification/System.thy ===== *)
theory System
  imports Ledger Startup LogCollector StorageLimit
begin

text \<open>
  The whole process: the parts that main puts together, and the steps they take on the counter they
  share and on the world. A step is one run of an operation; which comes next is not determined, since
  each controller has its own goroutine. Here the runs are not interleaved; the theory Interleaving cuts
  them at their calls.
\<close>

section \<open>Assembly\<close>

text \<open>What the process finds outside itself.\<close>

record 'w outside_world =
  ow_kube :: "'w runtime"
  ow_logs :: "'w log_source"
  ow_disk :: "DiskStorage \<Rightarrow> 'w Storage"
  ow_github :: "client \<Rightarrow> 'w GHClient"
  ow_sort :: timeline_sort

abbreviation the_storage :: "'w outside_world \<Rightarrow> program \<Rightarrow> 'w Storage" where
  "the_storage W prog \<equiv> ow_disk W (pr_storage prog)"

abbreviation the_client :: "'w outside_world \<Rightarrow> program \<Rightarrow> 'w GHClient" where
  "the_client W prog \<equiv> ow_github W (fst (pr_client prog))"

record 'w system =
  sy_counter :: InvestigationCounter
  sy_pods :: "NamespacedName \<rightharpoonup> podTracker"
  sy_ers :: "NamespacedName \<rightharpoonup> erTracker"
  sy_world :: 'w

definition started :: "program \<Rightarrow> 'w \<Rightarrow> 'w system" where
  "started prog w =
     \<lparr>sy_counter = pr_counter prog, sy_pods = NewPodWatcher, sy_ers = snd (pr_erWatcher prog),
      sy_world = w\<rparr>"

text \<open>The state a controller runs on.\<close>

definition view :: "'t \<Rightarrow> 'w system \<Rightarrow> (InvestigationCounter, 't, 'w) proc" where
  "view t s = \<lparr>counter = sy_counter s, own = t, world = sy_world s\<rparr>"

section \<open>Steps\<close>

inductive step :: "'w outside_world \<Rightarrow> program \<Rightarrow> 'w system \<Rightarrow> 'w system \<Rightarrow> bool"
  for W :: "'w outside_world" and prog :: program
where
  pod_event:
    "run_state (pod_Reconcile (ow_kube W)
        (CollectLogs (Now (ow_kube W)) (ow_logs W) (the_storage W prog)) key) (view (sy_pods s) s) = (r, p) \<Longrightarrow>
     step W prog s (s\<lparr>sy_counter := counter p, sy_pods := own p, sy_world := world p\<rparr>)"
| er_event:
    "run_state (er_Reconcile (ow_kube W) (fst (pr_erWatcher prog)) key) (view (sy_ers s) s) = (r, p) \<Longrightarrow>
     step W prog s (s\<lparr>sy_counter := counter p, sy_ers := own p, sy_world := world p\<rparr>)"
| investigation_event:
    "run_state (corr_Reconcile (ow_kube W) (Some (the_client W prog)) (ow_sort W) key) (sy_world s) =
        (r, w) \<Longrightarrow>
     step W prog s (s\<lparr>sy_world := w\<rparr>)"
| poll_tick:
    "run_state (poll (ow_kube W) (the_client W prog) (pr_poller prog)) (view () s) = (r, p) \<Longrightarrow>
     step W prog s (s\<lparr>sy_counter := counter p, sy_world := world p\<rparr>)"
| cleanup_tick:
    "run_state (runCleanup (ow_kube W) (Some (the_storage W prog))) (view () s) = (r, p) \<Longrightarrow>
     step W prog s (s\<lparr>sy_counter := counter p, sy_world := world p\<rparr>)"

text \<open>Somebody else deletes an Investigation, as with \<open>kubectl delete\<close>.\<close>

definition deleted_by_hand :: "'w outside_world \<Rightarrow> Investigation \<Rightarrow> 'w system \<Rightarrow> 'w system \<Rightarrow> bool" where
  "deleted_by_hand W iv s s' \<longleftrightarrow>
     (\<exists>w. run_state (Delete_Investigation (ow_kube W) iv) (sy_world s) = (None, w) \<and>
          s' = s\<lparr>sy_world := w\<rparr>)"

text \<open>The states that can follow \<open>s\<close>, with the number of such deletions on the way.\<close>

inductive follows :: "'w outside_world \<Rightarrow> program \<Rightarrow> 'w system \<Rightarrow> nat \<Rightarrow> 'w system \<Rightarrow> bool"
  for W :: "'w outside_world" and prog :: program and s :: "'w system"
where
  follows_start: "follows W prog s 0 s"
| follows_step: "follows W prog s n t \<Longrightarrow> step W prog t u \<Longrightarrow> follows W prog s n u"
| follows_hand: "follows W prog s n t \<Longrightarrow> deleted_by_hand W iv t u \<Longrightarrow> follows W prog s (Suc n) u"

section \<open>The laws of the world\<close>

definition source_keeps :: "'w store \<Rightarrow> 'w log_source \<Rightarrow> bool" where
  "source_keeps stored src \<longleftrightarrow> (\<forall>ns n c. keeps stored (src ns n c))"

definition lawful :: "'w store \<Rightarrow> 'w outside_world \<Rightarrow> bool" where
  "lawful stored W \<longleftrightarrow>
     kube_laws stored (ow_kube W) \<and> source_keeps stored (ow_logs W) \<and>
     (\<forall>s p b. storage_keeps stored (ow_disk W s) \<and> keeps stored (st_Write (ow_disk W s) p b)) \<and>
     (\<forall>c. client_keeps stored (ow_github W c))"

lemma collector_keeps:
  assumes "lawful stored W"
  shows "keeps stored (CollectLogs (Now (ow_kube W)) (ow_logs W) (ow_disk W s) pod)"
proof -
  have frame: "keeps stored m = state_io_rel (same stored) m" for m :: "('a, 'b) state"
    by (simp add: keeps_def state_io_rel_def same_def)
  have parts: "state_io_rel (same stored) (Now (ow_kube W))"
    "state_io_rel (same stored) (ow_logs W ns n c)"
    "state_io_rel (same stored) (st_Write (ow_disk W s) p b)" for ns n c p b
    using assms kube_laws_keeps(1) [of stored "ow_kube W"]
    unfolding frame [symmetric] lawful_def source_keeps_def by blast+
  show ?thesis
    unfolding frame CollectLogs_def collect_one_def Let_def by (intro frame.io_rules parts)
qed

lemma corr_keeps_dom:
  assumes laws: "kube_laws stored K" and gh: "client_keeps stored g"
  shows "keeps_dom stored (corr_Reconcile K (Some g) srt key)"
proof -
  note calls = dom_rules [unfolded keeps_dom_frame] kube_laws_puts [OF laws] laws
    client_keeps_rules [OF gh, unfolded keeps_dom_frame]
  have github: "state_io_rel (same (\<lambda>w. dom (stored w))) (enrichFromGitHub K g iv)" for iv
    unfolding enrichFromGitHub_def search_repo_def search_run_def by (intro frame.io_rules calls)
  have k8s: "state_io_rel (same (\<lambda>w. dom (stored w))) (enrichFromK8s K iv)" for iv
    unfolding enrichFromK8s_def find_er_def find_runner_pod_def by (intro frame.io_rules calls)
  have events: "state_io_rel (same (\<lambda>w. dom (stored w))) (collectPodEvents K iv)" for iv
    unfolding collectPodEvents_def by (intro frame.io_rules calls)
  have save: "state_io_rel (same (\<lambda>w. dom (stored w))) (save K key iv)" for iv
    unfolding save_def by (intro frame.io_rules calls)
  show ?thesis
    unfolding keeps_dom_frame corr_Reconcile_def gather_def case_prod_beta option.case
    by (intro frame.io_rules github k8s events save calls)
qed

section \<open>The books of the system\<close>

definition books :: "'w store \<Rightarrow> int \<Rightarrow> int \<Rightarrow> int \<Rightarrow> 'w system \<Rightarrow> bool" where
  "books stored b lim d s \<longleftrightarrow>
     ic.within b (sy_counter s) \<and> ic_max (sy_counter s) = lim \<and> finite (dom (stored (sy_world s))) \<and>
     Count (sy_counter s) = int (card (dom (stored (sy_world s)))) + d"

lemma books_view: "books stored b lim d s \<longleftrightarrow> ledger stored b lim d (view t s)"
  by (simp add: books_def ledger_def view_def)

lemma ledger_run:
  "state_io_rel (preserves (ledger stored b lim d)) m \<Longrightarrow> run_state m p = (r, p') \<Longrightarrow>
   ledger stored b lim d p \<Longrightarrow> ledger stored b lim d p'"
  using state_io_rel_run [of "preserves (ledger stored b lim d)" m p] by (simp add: preserves_def)

lemma step_books:
  assumes "step W prog s s'" and laws: "lawful stored W" and d: "0 \<le> d" and s: "books stored b lim d s"
  shows "books stored b lim d s'"
proof -
  have kube: "kube_laws stored (ow_kube W)" using laws by (simp add: lawful_def)
  have github: "client_keeps stored (the_client W prog)" using laws by (simp add: lawful_def)
  have disk: "storage_keeps stored st" if "Some (the_storage W prog) = Some st" for st
    using laws that by (auto simp: lawful_def)
  note pod = ledger_run [OF pod_Reconcile_ledger [OF kube d collector_keeps [OF laws]] _ iffD1 [OF books_view s]]
    and er = ledger_run [OF er_Reconcile_ledger [OF kube d] _ iffD1 [OF books_view s]]
    and poll = ledger_run [OF poll_ledger [OF kube d github] _ iffD1 [OF books_view s]]
    and clean = ledger_run [OF runCleanup_ledger [OF kube d disk] _ iffD1 [OF books_view s]]
  from assms(1) show ?thesis
  proof cases
    case (pod_event key r p)
    from pod [OF pod_event(2)] show ?thesis by (simp add: pod_event(1) books_def ledger_def)
  next
    case (er_event key r p)
    from er [OF er_event(2)] show ?thesis by (simp add: er_event(1) books_def ledger_def)
  next
    case (investigation_event key r w)
    have "dom (stored w) = dom (stored (sy_world s))"
      using corr_keeps_dom [OF kube github, of "ow_sort W" key] investigation_event(2)
      unfolding keeps_dom_def by (metis snd_conv)
    with s show ?thesis by (simp add: investigation_event(1) books_def)
  next
    case (poll_tick r p)
    from poll [OF poll_tick(2)] show ?thesis by (simp add: poll_tick(1) books_def ledger_def)
  next
    case (cleanup_tick r p)
    from clean [OF _ cleanup_tick(2)] show ?thesis by (simp add: cleanup_tick(1) books_def ledger_def)
  qed
qed

lemma deleted_books:
  assumes del: "deleted_by_hand W iv s s'" and laws: "lawful stored W" and s: "books stored b lim d s"
  shows "books stored b lim (d + 1) s'"
proof -
  obtain w where run: "run_state (Delete_Investigation (ow_kube W) iv) (sy_world s) = (None, w)"
    and s': "s' = s\<lparr>sy_world := w\<rparr>"
    using del by (auto simp: deleted_by_hand_def)
  let ?k = "key_of (inv_Meta iv)"
  have drop: "drop_law stored (Delete_Investigation (ow_kube W))"
    using laws by (simp add: lawful_def kube_laws_puts)
  have w: "stored (sy_world s) ?k \<noteq> None" "stored w = (stored (sy_world s))(?k := None)"
    using drop_law_None [OF drop run] by simp_all
  have fin: "finite (dom (stored (sy_world s)))" "?k \<in> dom (stored (sy_world s))"
    using s w(1) by (auto simp: books_def)
  from card.remove [OF fin] show ?thesis
    using s w(2) by (simp add: books_def s')
qed

lemma follows_books:
  assumes "follows W prog s n t" and laws: "lawful stored W" and s: "books stored b lim 0 s"
  shows "books stored b lim (int n) t"
  using assms(1)
proof (induction rule: follows.induct)
  case follows_start
  show ?case using s by simp
next
  case (follows_step n t u)
  then show ?case using step_books [OF follows_step(2) laws] by simp
next
  case (follows_hand n t iv u)
  then show ?case using deleted_books [OF follows_hand(2) laws follows_hand(3)] by (simp add: add.commute)
qed

section \<open>The start\<close>

text \<open>What the direct client lists is what is stored.\<close>

definition lists_stored :: "'w store \<Rightarrow> 'w runtime \<Rightarrow> 'w \<Rightarrow> bool" where
  "lists_stored stored K w0 \<longleftrightarrow>
     (\<forall>w items w'. stored w = stored w0 \<longrightarrow> run_state (List_Investigations K) w = (Inr items, w') \<longrightarrow>
        distinct (map (\<lambda>iv. key_of (inv_Meta iv)) items) \<and>
        set (map (\<lambda>iv. key_of (inv_Meta iv)) items) = dom (stored w0))"

definition host_keeps :: "'w store \<Rightarrow> 'w host \<Rightarrow> bool" where
  "host_keeps stored host \<longleftrightarrow> (\<forall>c. keeps stored (Setup host c))"

text \<open>What a part of main that starts on the objects of \<open>w0\<close> returns, and that it leaves them.\<close>

definition counts :: "'w store \<Rightarrow> 'w \<Rightarrow> ('w, stop + program) state \<Rightarrow> bool" where
  "counts stored w0 m \<longleftrightarrow>
     (\<forall>w r w'. stored w = stored w0 \<longrightarrow> run_state m w = (r, w') \<longrightarrow>
        stored w' = stored w0 \<and>
        (\<forall>prog. r = Inr prog \<longrightarrow>
           finite (dom (stored w0)) \<and> ic_count (pr_counter prog) = int (card (dom (stored w0)))))"

lemma counts_or_exit:
  assumes "keeps stored call" and "counts stored w0 rest"
  shows "counts stored w0 (or_exit call msg rest)"
  unfolding counts_def
proof (intro allI impI, goal_cases)
  case (1 w r w')
  obtain e v where call: "run_state call w = (e, v)" by (meson surj_pair)
  have v: "stored v = stored w0" using keeps_run [OF assms(1) call] 1(1) by simp
  show ?case
  proof (cases e)
    case (Some err)
    with call 1 v show ?thesis by (auto simp: or_exit_def)
  next
    case None
    with call 1(2) have "run_state rest v = (r, w')" by (simp add: or_exit_def)
    with assms(2) v show ?thesis unfolding counts_def by blast
  qed
qed

lemma counts_return: "counts stored w0 (ret (Inl s))"
  by (simp add: counts_def)

lemma counts_count_and_register:
  assumes laws: "kube_laws stored K" and host: "host_keeps stored host"
    and lists: "lists_stored stored K w0"
  shows "counts stored w0 (count_and_register host K fl opts)"
  unfolding counts_def
proof (intro allI impI, goal_cases)
  case (1 w r w')
  note keep = kube_laws_keeps [OF laws]
  obtain rc w1 where c: "run_state (init_counter K) w = (rc, w1)" by (meson surj_pair)
  obtain cs v where cs: "run_state (List_Configs K) w = (cs, v)" by (meson surj_pair)
  obtain its v1 where its: "run_state (List_Investigations K) v = (its, v1)" by (meson surj_pair)
  have v: "stored v = stored w0" "stored v1 = stored w0"
    using keeps_run [OF keep(4) cs] keeps_run [OF keep(3) its] 1(1) by simp_all
  have w1: "stored w1 = stored w0"
    using c cs its v by (auto simp: init_counter_def Let_def split: if_splits)
  have count: "finite (dom (stored w0)) \<and> ic_count k = int (card (dom (stored w0)))" if inr: "rc = Inr k" for k
  proof -
    obtain items where items: "its = Inr items" and k: "ic_count k = int (length items)"
      using inr c cs its
      by (auto simp: init_counter_def Let_def NewInvestigationCounter_def Init_def split: if_splits sum.splits)
    from lists v(1) its [unfolded items]
    have ks: "distinct (map (\<lambda>iv. key_of (inv_Meta iv)) items)"
      "set (map (\<lambda>iv. key_of (inv_Meta iv)) items) = dom (stored w0)"
      unfolding lists_stored_def by blast+
    show ?thesis
      using distinct_card [OF ks(1)] k unfolding ks(2) [symmetric] by simp
  qed
  obtain f w2 where reg: "run_state (register host) w1 = (f, w2)" by (meson surj_pair)
  have "state_io_rel (same stored) (register host)"
    unfolding register_def case_prod_beta
    by (intro frame.io_rules)
      (use host in \<open>simp add: host_keeps_def keeps_def state_io_rel_def same_def\<close>)
  from state_io_rel_run [OF this, of w1] have "stored w2 = stored w0"
    using reg w1 by (simp add: same_def)
  then show ?case
    using 1(2) c reg w1 count
    by (auto simp: count_and_register_def build_program_def split: sum.splits option.splits)
qed

lemma prepare_counts:
  assumes "kube_laws stored K" and "host_keeps stored host" and "lists_stored stored K w0"
  shows "counts stored w0 (prepare host K fl)"
proof -
  have call: "keeps stored (Setup host c)" for c using assms(2) by (simp add: host_keeps_def)
  show ?thesis
    unfolding prepare_def
    by (intro counts_or_exit call)
      (auto intro!: counts_or_exit call counts_count_and_register assms counts_return split: sum.split)
qed

text \<open>The state main starts the manager in has its books in order.\<close>

lemma started_books:
  assumes "kube_laws stored K" and "host_keeps stored host" and "lists_stored stored K w0"
    and run: "run_state (prepare host K fl) w0 = (Inr prog, w1)"
    and int64: "is_int64 (ic_max (pr_counter prog))" "is_int64 (int (card (dom (stored w0))))"
  shows "books stored (int (card (dom (stored w0)))) (ic_max (pr_counter prog)) 0 (started prog w1)"
proof -
  from prepare_counts [OF assms(1-3), of fl] run
  have "stored w1 = stored w0" "finite (dom (stored w0))"
    "ic_count (pr_counter prog) = int (card (dom (stored w0)))"
    unfolding counts_def by blast+
  with int64 show ?thesis
    by (simp add: books_def started_def ic.within_def counter_ok_def Count_def)
qed

section \<open>Properties\<close>

text \<open>A world of the cluster alone: no logs, no disk, nothing on GitHub.\<close>

definition quiet_world :: "cluster outside_world" where
  "quiet_world = \<lparr>ow_kube = sample_kube, ow_logs = (\<lambda>ns n c. ret (Inl NotFound)),
     ow_disk = (\<lambda>s. no_disk), ow_github = (\<lambda>c. sample_gh False [] []), ow_sort = insertion_sort\<rparr>"

lemma keeps_ret: "keeps stored (ret x)"
  by (simp add: keeps_def)

lemma quiet_lawful: "lawful sample_stored quiet_world"
  by (simp add: lawful_def quiet_world_def sample_kube_laws source_keeps_def storage_keeps_def
      no_disk_def client_keeps_def keeps_ret)

lemma calm_keeps: "host_keeps stored calm_host"
  by (simp add: host_keeps_def calm_host_def keeps_ret)

lemma empty_lists:
  assumes "cl_invs w0 = []"
  shows "lists_stored sample_stored sample_kube w0"
proof -
  have "cl_invs w = []" if "map_of (cl_invs w) = Map.empty" for w
    using that by (cases "cl_invs w") (auto simp: fun_eq_iff split: if_splits)
  then show ?thesis
    using assms by (auto simp: lists_stored_def sample_stored_def list_of_def split: if_splits)
qed

text \<open>At most one Investigation, and a runner that failed six minutes ago.\<close>

definition one_place :: cluster where
  "one_place = (one_er (6 * Minute) (sample_er 1 ''Failed''))\<lparr>cl_configs := [sample_config\<lparr>cfg_Spec :=
     (cfg_Spec sample_config)\<lparr>dc_MaxInvestigations := Some 1\<rparr>\<rparr>]\<rparr>"

definition one_place_program :: program where
  "one_place_program = build_program token_flags [WithPAT ''secret''] \<lparr>ic_count = 0, ic_max = 1\<rparr>"

lemma one_place_started:
  "run_state (prepare calm_host sample_kube token_flags) one_place = (Inr one_place_program, one_place)"
  by (simp add: prepare_def or_exit_def calm_host_def token_flags_def default_flags_def
      github_options_def count_and_register_def init_counter_def list_of_def one_place_def one_er_def
      empty_cluster_def configured_max_def NewInvestigationCounter_def Init_def register_def
      registrations_def one_place_program_def)

definition one_place_after :: "cluster system" where
  "one_place_after = (let p = snd (run_state (er_Reconcile sample_kube (fst (pr_erWatcher one_place_program)) er_key)
       (view Map.empty (started one_place_program one_place)))
     in (started one_place_program one_place)
          \<lparr>sy_counter := counter p, sy_ers := own p, sy_world := world p\<rparr>)"

lemma one_place_step:
  "step quiet_world one_place_program (started one_place_program one_place) one_place_after"
proof -
  let ?s = "started one_place_program one_place"
  obtain r p where run: "run_state (er_Reconcile sample_kube (fst (pr_erWatcher one_place_program)) er_key)
      (view (sy_ers ?s) ?s) = (r, p)" by (meson surj_pair)
  have "step quiet_world one_place_program ?s (?s\<lparr>sy_counter := counter p, sy_ers := own p, sy_world := world p\<rparr>)"
    by (rule step.er_event [where key = er_key]) (use run in \<open>simp add: quiet_world_def\<close>)
  moreover have "sy_ers ?s = Map.empty" 
    by (simp add: started_def one_place_program_def build_program_def NewEphemeralRunnerWatcher_def)
  ultimately show ?thesis using run by (simp add: one_place_after_def)
qed

lemmas one_place_eval =
  one_place_after_def started_def view_def er_Reconcile_def find_in_def one_place_def
  one_er_def empty_cluster_def sample_er_def getNestedString_def er_recordTransition_def
  handleFailed_def one_place_program_def build_program_def token_flags_def default_flags_def
  Sub_def duration_units maxDuration_def minDuration_def er_createInvestigation_def er_inv_key_def
  er_inv_name_def new_meta_def TryIncrement_def submit_def er_new_investigation_def cluster_defs
  key_of_def sample_stored_def new_investigation_def Let_def set_phase_def er_key_def
  NewEphemeralRunnerWatcher_def

lemma one_place_reports:
  "\<exists>iv. sample_stored (sy_world one_place_after) \<lparr>nn_Namespace = ''ns'', nn_Name = ''er-runner-1''\<rparr> = Some iv"
  by (simp add: one_place_eval)

lemma one_place_down: "cl_down (sy_world one_place_after) = []"
  by (simp add: one_place_eval)

text \<open>C18: an Investigation deleted by hand is never counted out: after n such deletions the counter is n
  above the number of stored Investigations, in every later state, since no step corrects it; once as
  many have been deleted as there are places, none is stored and none ever will be, until a restart
  counts afresh.\<close>

theorem hand_deletions_use_up_the_places:
  assumes laws: "lawful stored W" and direct: "kube_laws stored K" "host_keeps stored host"
    "lists_stored stored K w0"
    and run: "run_state (prepare host K fl) w0 = (Inr prog, w1)"
    and int64: "is_int64 (ic_max (pr_counter prog))" "is_int64 (int (card (dom (stored w0))))"
    and follows: "follows W prog (started prog w1) n s"
  shows "Count (sy_counter s) = int (card (dom (stored (sy_world s)))) + int n \<and>
    (max (int (card (dom (stored w0)))) (ic_max (pr_counter prog)) \<le> int n \<longrightarrow>
       stored (sy_world s) = Map.empty)"
proof -
  have "books stored (int (card (dom (stored w0)))) (ic_max (pr_counter prog)) (int n) s"
    by (rule follows_books [OF follows laws started_books [OF direct run int64]])
  then have count: "Count (sy_counter s) = int (card (dom (stored (sy_world s)))) + int n"
    and bound: "Count (sy_counter s) \<le> max (int (card (dom (stored w0)))) (ic_max (pr_counter prog))"
    and fin: "finite (dom (stored (sy_world s)))"
    by (auto simp: books_def ic.within_def)
  have "stored (sy_world s) = Map.empty"
    if "max (int (card (dom (stored w0)))) (ic_max (pr_counter prog)) \<le> int n"
  proof -
    have "card (dom (stored (sy_world s))) = 0" using that count bound by linarith
    with fin show ?thesis by simp
  qed
  with count show ?thesis by blast
qed

text \<open>The one Investigation deleted by hand: its place is gone.\<close>

theorem hand_deletions_use_up_the_places_witness:
  "\<exists>s. follows quiet_world one_place_program (started one_place_program one_place) 1 s \<and>
     sample_stored (sy_world s) = Map.empty \<and> Count (sy_counter s) = 1"
proof -
  have lists: "lists_stored sample_stored sample_kube one_place"
    by (rule empty_lists) (simp add: one_place_def one_er_def empty_cluster_def)
  have empty: "card (dom (sample_stored one_place)) = 0"
    by (simp add: sample_stored_def one_place_def one_er_def empty_cluster_def)
  have lim: "ic_max (pr_counter one_place_program) = 1"
    by (simp add: one_place_program_def build_program_def)
  have int64: "is_int64 (ic_max (pr_counter one_place_program))"
    "is_int64 (int (card (dom (sample_stored one_place))))"
    by (simp_all add: empty lim is_int64_def)
  let ?iv = "new_investigation (new_meta ''ns'' ''er-runner-1'') (new_spec [] [])"
  have up: "VDelete \<notin> set (cl_down (sy_world one_place_after))"
    by (simp add: one_place_down)
  obtain iv where iv: "map_of (cl_invs (sy_world one_place_after)) (key_of (inv_Meta ?iv)) = Some iv"
    using one_place_reports by (auto simp: sample_stored_def)
  have "deleted_by_hand quiet_world ?iv one_place_after (one_place_after\<lparr>sy_world :=
      snd (run_state (delete_inv ?iv) (sy_world one_place_after))\<rparr>)"
    using up iv by (auto simp: deleted_by_hand_def quiet_world_def delete_inv_def Let_def)
  from follows_hand [OF follows_step [OF follows_start one_place_step] this]
  obtain s where s: "follows quiet_world one_place_program (started one_place_program one_place) 1 s"
    by auto
  from hand_deletions_use_up_the_places [OF quiet_lawful sample_kube_laws calm_keeps lists
      one_place_started int64 s]
  have "Count (sy_counter s) = int (card (dom (sample_stored (sy_world s)))) + 1"
    "sample_stored (sy_world s) = Map.empty"
    by (simp_all add: empty lim)
  with s show ?thesis by auto
qed

text \<open>The names of the Investigations keep the controllers apart: the Investigation of a pod, of a
  runner and of a job never have the same key, and within a controller two keys agree only for the
  same pod, the same runner, or the same job in the same namespace.\<close>

lemma investigation_keys_disjoint:
  "pod_inv_key pod \<noteq> er_inv_key er \<and> pod_inv_key pod \<noteq> gh_inv_key ns job \<and>
   er_inv_key er \<noteq> gh_inv_key ns job \<and>
   (pod_inv_key pod = pod_inv_key pod' \<longleftrightarrow> key_of (pod_Meta pod) = key_of (pod_Meta pod')) \<and>
   (er_inv_key er = er_inv_key er' \<longleftrightarrow> key_of (un_Meta er) = key_of (un_Meta er')) \<and>
   (gh_inv_key ns job = gh_inv_key ns' job' \<longleftrightarrow> ns = ns' \<and> job_ID job = job_ID job')"
  by (auto simp: pod_inv_key_def er_inv_key_def gh_inv_key_def pod_inv_name_def er_inv_name_def
      gh_inv_name_def key_of_def)

subsection \<open>Investigations without a phase\<close>

text \<open>What a submit that fails leaves behind.\<close>

lemma failed_submit:
  assumes laws: "kube_laws stored K" and run: "run_state (submit K iv) p = (Some e, p')"
    and new: "stored (world p) (key_of (inv_Meta iv)) = None"
    and there: "stored (world p') (key_of (inv_Meta iv)) = Some iv'"
  obtains created w where "run_state (Create_Investigation K iv) (world p) = (Inr created, w)"
    and "iv' = created" and "counter p' = counter p"
proof -
  note puts = kube_laws_puts [OF laws]
  obtain r w where c: "run_state (Create_Investigation K iv) (world p) = (r, w)" by (meson surj_pair)
  show thesis
  proof (cases r)
    case (Inl err)
    then have "stored w = stored (world p)" using put_law_Inl [OF puts(1)] c by blast
    moreover have "world p' = w" using run c Inl by (auto simp: submit_def)
    ultimately show thesis using new there by simp
  next
    case (Inr created)
    obtain r' w' where u: "run_state (StatusUpdate_Investigation K (set_phase phaseCollecting created)) w =
        (r', w')" by (meson surj_pair)
    have p': "world p' = w'" "counter p' = counter p" "error_of r' = Some e"
      using run c u Inr by (auto simp: submit_def)
    then obtain err where "r' = Inl err" by (cases r') auto
    then have "stored w' = stored w" using put_law_Inl [OF puts(3)] u by blast
    moreover have "stored w (key_of (inv_Meta iv)) = Some created"
      using put_law_Inr [OF puts(1) c [unfolded Inr]] by simp
    ultimately show thesis using that [of created w] c Inr p' there by simp
  qed
qed


text \<open>A cluster on which status updates fail, and a report of a runner on it.\<close>

definition no_status_updates :: cluster where
  "no_status_updates = empty_cluster\<lparr>cl_down := [VStatus]\<rparr>"

definition bare_report :: Investigation where
  "bare_report = new_investigation (new_meta ''ns'' ''er-runner-1'') (new_spec ''runner-stuck'' [])"

definition submitted :: "cluster erw" where
  "submitted = snd (run_state (submit sample_kube bare_report)
     \<lparr>counter = \<lparr>ic_count = 1, ic_max = 3\<rparr>, own = Map.empty, world = no_status_updates\<rparr>)"


end
