(* ===== verification/Threads.thy ===== *)
theory Threads
  imports Prelude
begin

text \<open>
  An operation cut where another goroutine can come in between: a \<open>thread\<close> is either over, with its
  value, or makes one indivisible step on the shared state and goes on as another thread. Run alone,
  a thread is an operation of the state monad (\<open>run_thread\<close>); a pool of threads is run by letting any
  of them make the next step.
\<close>

section \<open>Threads\<close>

datatype ('s, 'a) thread = Over 'a | Act "'s \<Rightarrow> ('s, 'a) thread \<times> 's"

primrec run_thread :: "('s, 'a) thread \<Rightarrow> ('s, 'a) state" where
  "run_thread (Over a) = ret a"
| "run_thread (Act f) =
     State (\<lambda>s. case (map_prod run_thread id \<circ> f) s of (m, s') \<Rightarrow> run_state m s')"

text \<open>One indivisible operation, and what follows it.\<close>

definition call :: "('s, 'b) state \<Rightarrow> ('b \<Rightarrow> ('s, 'a) thread) \<Rightarrow> ('s, 'a) thread" where
  "call m k = Act (\<lambda>s. case run_state m s of (b, s') \<Rightarrow> (k b, s'))"

text \<open>A thread, and what follows it.\<close>

primrec followed :: "('s, 'b) thread \<Rightarrow> ('b \<Rightarrow> ('s, 'a) thread) \<Rightarrow> ('s, 'a) thread" where
  "followed (Over b) = (\<lambda>k. k b)"
| "followed (Act f) =
     (\<lambda>k. Act (\<lambda>s. case (map_prod followed id \<circ> f) s of (g, s') \<Rightarrow> (g k, s')))"

fun each_thread :: "('a \<Rightarrow> ('s, unit) thread) \<Rightarrow> 'a list \<Rightarrow> ('s, unit) thread" where
  "each_thread f [] = Over ()"
| "each_thread f (x # xs) = followed (f x) (\<lambda>u. each_thread f xs)"

fun first_thread :: "('a \<Rightarrow> ('s, 'b option) thread) \<Rightarrow> 'a list \<Rightarrow> ('s, 'b option) thread" where
  "first_thread f [] = Over None"
| "first_thread f (x # xs) =
     followed (f x) (\<lambda>r. case r of Some v \<Rightarrow> Over (Some v) | None \<Rightarrow> first_thread f xs)"

text \<open>A thread on a part of the state, as a thread on the whole of it that only runs to the end.\<close>

primrec on_part :: "('p, 'a) thread \<Rightarrow> ('s \<Rightarrow> 'p) \<Rightarrow> ('p \<Rightarrow> 's \<Rightarrow> 's) \<Rightarrow> ('s, unit) thread" where
  "on_part (Over a) = (\<lambda>get put. Over ())"
| "on_part (Act f) =
     (\<lambda>get put. Act (\<lambda>s. case (map_prod on_part id \<circ> f) (get s) of (g, p) \<Rightarrow> (g get put, put p s)))"

lemma on_part_Act [simp]:
  "on_part (Act f) get put =
     Act (\<lambda>s. (on_part (fst (f (get s))) get put, put (snd (f (get s))) s))"
  by (simp add: case_prod_beta comp_def)

lemma followed_Act [simp]:
  "followed (Act f) k = Act (\<lambda>s. (followed (fst (f s)) k, snd (f s)))"
  by (simp add: case_prod_beta comp_def)

declare followed.simps(2) [simp del]
declare on_part.simps(2) [simp del]

section \<open>A thread run alone\<close>

text \<open>The collection that turns a thread run alone into the operation.\<close>

named_theorems alone_simps "a thread run alone"

lemma run_Over [alone_simps]: "run_thread (Over a) = ret a"
  by simp

lemma run_Act: "run_state (run_thread (Act f)) s = run_state (run_thread (fst (f s))) (snd (f s))"
  by (simp add: case_prod_beta)

lemma run_call [alone_simps]:
  "run_thread (call m k) = State_Monad.bind m (\<lambda>b. run_thread (k b))"
  by (rule state.expand) (simp add: call_def fun_eq_iff case_prod_beta)

lemma run_followed [alone_simps]:
  "run_thread (followed t k) = State_Monad.bind (run_thread t) (\<lambda>b. run_thread (k b))"
proof (induction t)
  case (Over b)
  show ?case by simp
next
  case (Act f)
  have "run_thread (followed (fst (f s)) k) =
      State_Monad.bind (run_thread (fst (f s))) (\<lambda>b. run_thread (k b))" for s
    by (rule Act) (auto simp: prod_set_defs)
  then show ?case
    by (intro state.expand ext) (simp add: run_Act case_prod_beta del: run_thread.simps)
qed

lemma run_each [alone_simps]: "run_thread (each_thread f xs) = for_each (\<lambda>x. run_thread (f x)) xs"
  by (induction xs) (simp_all add: alone_simps)

lemma run_option [alone_simps]:
  "run_thread (case x of None \<Rightarrow> t | Some v \<Rightarrow> k v) = (case x of None \<Rightarrow> run_thread t | Some v \<Rightarrow> run_thread (k v))"
  by (simp split: option.split)

lemma run_sum [alone_simps]:
  "run_thread (case x of Inl a \<Rightarrow> f a | Inr b \<Rightarrow> k b) =
   (case x of Inl a \<Rightarrow> run_thread (f a) | Inr b \<Rightarrow> run_thread (k b))"
  by (simp split: sum.split)

lemma run_prod [alone_simps]:
  "run_thread (case x of (a, b) \<Rightarrow> f a b) = (case x of (a, b) \<Rightarrow> run_thread (f a b))"
  by (simp split: prod.split)

lemma run_if [alone_simps]:
  "run_thread (if b then t else u) = (if b then run_thread t else run_thread u)"
  by simp

lemma run_first [alone_simps]: "run_thread (first_thread f xs) = for_first (\<lambda>x. run_thread (f x)) xs"
  by (induction xs) (simp_all add: alone_simps cong: option.case_cong)

lemma run_on_part:
  assumes "\<And>p s. get (put p s) = p" and "\<And>p q s. put p (put q s) = put p s"
    and "\<And>s. put (get s) s = s"
  shows "run_state (run_thread (on_part t get put)) s = ((), put (snd (run_state (run_thread t) (get s))) s)"
proof (induction t arbitrary: s)
  case (Over a)
  show ?case by (simp add: assms)
next
  case (Act f)
  have "run_state (run_thread (on_part (fst (f p)) get put)) s =
      ((), put (snd (run_state (run_thread (fst (f p))) (get s))) s)" for p s
    by (rule Act) (auto simp: prod_set_defs)
  then show ?case by (simp add: run_Act assms del: run_thread.simps)
qed

section \<open>Pools\<close>

text \<open>A step of a pool: one of its threads makes its next step.\<close>

inductive pool_step :: "('s, 'a) thread list \<times> 's \<Rightarrow> ('s, 'a) thread list \<times> 's \<Rightarrow> bool" where
  pool_act: "i < length ts \<Longrightarrow> ts ! i = Act f \<Longrightarrow> f s = (t, s') \<Longrightarrow> pool_step (ts, s) (ts[i := t], s')"

inductive_cases pool_stepE: "pool_step (ts, s) c"

definition open_threads :: "('s, 'a) thread list \<Rightarrow> nat" where
  "open_threads ts = length (filter (\<lambda>t. case t of Over a \<Rightarrow> False | Act f \<Rightarrow> True) ts)"

text \<open>The first steps of a thread on its own, and of a pool of one thread on a part of the state.\<close>

fun steps :: "nat \<Rightarrow> ('s, 'a) thread \<Rightarrow> 's \<Rightarrow> ('s, 'a) thread \<times> 's" where
  "steps 0 t s = (t, s)"
| "steps (Suc n) (Over a) s = (Over a, s)"
| "steps (Suc n) (Act f) s = (case f s of (t, s') \<Rightarrow> steps n t s')"

lemma steps_call [simp]:
  "steps (Suc n) (call m g) s = (case run_state m s of (b, s') \<Rightarrow> steps n (g b) s')"
  by (simp add: call_def split: prod.split)

lemma followed_call [simp]: "followed (call m g) k = call m (\<lambda>b. followed (g b) k)"
  by (simp add: call_def case_prod_beta)

lemma pool_steps:
  assumes "\<And>p s. get (put p s) = p" and "\<And>p q s. put p (put q s) = put p s"
    and "\<And>s. put (get s) s = s" and "steps n t (get s) = (t', p)"
  shows "pool_step\<^sup>*\<^sup>* ([on_part t get put], s) ([on_part t' get put], put p s)"
  using assms(4)
proof (induction n arbitrary: t s)
  case 0
  then show ?case by (auto simp: assms(3))
next
  case (Suc n)
  show ?case
  proof (cases t)
    case (Over a)
    with Suc(2) show ?thesis by (auto simp: assms(3))
  next
    case (Act f)
    let ?s = "put (snd (f (get s))) s"
    have "pool_step ([on_part t get put], s) ([on_part (fst (f (get s))) get put], ?s)"
      using pool_act [of 0 "[on_part (Act f) get put]" _ s] by (simp add: Act)
    moreover have "pool_step\<^sup>*\<^sup>* ([on_part (fst (f (get s))) get put], ?s) ([on_part t' get put], put p ?s)"
      using Suc(2) by (intro Suc(1)) (simp add: Act assms(1) case_prod_beta)
    ultimately show ?thesis unfolding assms(2) by (rule converse_rtranclp_into_rtranclp)
  qed
qed

lemma pool_alone:
  "pool_step\<^sup>*\<^sup>* (ts @ [t], s)
     (ts @ [Over (fst (run_state (run_thread t) s))], snd (run_state (run_thread t) s))"
proof (induction t arbitrary: s)
  case (Over a)
  show ?case by simp
next
  case (Act f)
  have "pool_step (ts @ [Act f], s) ((ts @ [Act f])[length ts := fst (f s)], snd (f s))"
    by (rule pool_act) simp_all
  then have "pool_step (ts @ [Act f], s) (ts @ [fst (f s)], snd (f s))" by simp
  moreover have "pool_step\<^sup>*\<^sup>* (ts @ [fst (f s)], snd (f s))
     (ts @ [Over (fst (run_state (run_thread (fst (f s))) (snd (f s))))],
      snd (run_state (run_thread (fst (f s))) (snd (f s))))"
    by (rule Act) (auto simp: prod_set_defs)
  ultimately show ?case
    unfolding run_Act by (rule converse_rtranclp_into_rtranclp)
qed

section \<open>Debts\<close>

text \<open>
  \<open>I d s\<close> says of the state that it is \<open>d\<close> out of balance. A thread \<open>pays\<close> what it holds, nothing or one,
  if its steps keep the balance up to what it holds then, and it holds nothing at its end.
\<close>

inductive pays :: "(int \<Rightarrow> 's \<Rightarrow> bool) \<Rightarrow> int \<Rightarrow> ('s, 'a) thread \<Rightarrow> bool" for I where
  pays_Over: "pays I 0 (Over a)"
| pays_Act: "0 \<le> k \<Longrightarrow> k \<le> 1 \<Longrightarrow>
    (\<And>s. \<exists>k'. pays I k' (fst (f s)) \<and> (\<forall>d \<ge> 0. I (d + k) s \<longrightarrow> I (d + k') (snd (f s)))) \<Longrightarrow>
    pays I k (Act f)"

inductive_simps pays_Over_iff [simp]: "pays I k (Over a)"
inductive_simps pays_Act_iff: "pays I k (Act f)"

lemma pays_range: "pays I k t \<Longrightarrow> 0 \<le> k \<and> k \<le> 1"
  by (cases rule: pays.cases) auto

lemma pays_call:
  assumes "0 \<le> k" and "k \<le> 1"
    and "\<And>s b s'. run_state m s = (b, s') \<Longrightarrow>
      \<exists>k'. pays I k' (g b) \<and> (\<forall>d \<ge> 0. I (d + k) s \<longrightarrow> I (d + k') s')"
  shows "pays I k (call m g)"
  unfolding call_def using assms by (intro pays_Act) (auto split: prod.split)

text \<open>A step that keeps the balance whatever it is.\<close>

lemma pays_keep:
  assumes "\<And>d. 0 \<le> d \<Longrightarrow> state_io_rel (preserves (I d)) m"
    and "\<And>b. pays I k (g b)"
  shows "pays I k (call m g)"
proof (rule pays_call)
  show "0 \<le> k" "k \<le> 1" using pays_range [OF assms(2)] by auto
next
  fix s b s'
  assume run: "run_state m s = (b, s')"
  have "I (d + k) s \<longrightarrow> I (d + k) s'" if "0 \<le> d" for d
    using state_io_rel_run [OF assms(1) [of "d + k"], of s] pays_range [OF assms(2)] that run
    by (simp add: preserves_def)
  then show "\<exists>k'. pays I k' (g b) \<and> (\<forall>d \<ge> 0. I (d + k) s \<longrightarrow> I (d + k') s')"
    using assms(2) by blast
qed

lemma pays_followed:
  assumes "pays I k t" and "\<And>b. pays I 0 (g b)"
  shows "pays I k (followed t g)"
  using assms(1)
proof (induction rule: pays.induct)
  case (pays_Over a)
  show ?case using assms(2) by simp
next
  case (pays_Act k f)
  show ?case
    unfolding followed_Act by (rule pays.pays_Act) (use pays_Act in auto)
qed

lemma pays_each: "(\<And>x. pays I 0 (f x)) \<Longrightarrow> pays I 0 (each_thread f xs)"
  by (induction xs) (auto intro: pays_followed)

lemma pays_first: "(\<And>x. pays I 0 (f x)) \<Longrightarrow> pays I 0 (first_thread f xs)"
  by (induction xs) (auto intro!: pays_followed split: option.split)

lemma pays_if: "(b \<Longrightarrow> pays I k t) \<Longrightarrow> (\<not> b \<Longrightarrow> pays I k u) \<Longrightarrow> pays I k (if b then t else u)"
  by simp

lemma pays_option:
  "(x = None \<Longrightarrow> pays I k t) \<Longrightarrow> (\<And>a. x = Some a \<Longrightarrow> pays I k (f a)) \<Longrightarrow>
   pays I k (case x of None \<Rightarrow> t | Some a \<Rightarrow> f a)"
  by (simp split: option.split)

lemma pays_sum:
  "(\<And>a. x = Inl a \<Longrightarrow> pays I k (f a)) \<Longrightarrow> (\<And>b. x = Inr b \<Longrightarrow> pays I k (g b)) \<Longrightarrow>
   pays I k (case x of Inl a \<Rightarrow> f a | Inr b \<Rightarrow> g b)"
  by (simp split: sum.split)

lemma pays_let: "pays I k (f a) \<Longrightarrow> pays I k (let x = a in f x)"
  by simp

lemmas pays_rules =
  pays_Over pays_keep pays_followed pays_each pays_first pays_if pays_option pays_sum pays_let

lemma pays_on_part:
  assumes "pays I k t" and "\<And>d p s. J d (put p s) \<longleftrightarrow> I d p" and "\<And>d s. J d s \<longleftrightarrow> I d (get s)"
  shows "pays J k (on_part t get put)"
  using assms(1)
proof (induction rule: pays.induct)
  case (pays_Over a)
  show ?case by simp
next
  case (pays_Act k f)
  show ?case
    unfolding on_part_Act
  proof (rule pays.pays_Act [OF pays_Act(1,2)])
    fix s
    show "\<exists>k'. pays J k' (fst (on_part (fst (f (get s))) get put, put (snd (f (get s))) s)) \<and>
      (\<forall>d \<ge> 0. J (d + k) s \<longrightarrow> J (d + k') (snd (on_part (fst (f (get s))) get put, put (snd (f (get s))) s)))"
      using pays_Act(3) [of "get s"] by (auto simp: assms(2) assms(3) [of _ s])
  qed
qed

section \<open>The balance of a pool\<close>

text \<open>The state is out of balance by what its threads hold together.\<close>

definition balanced :: "(int \<Rightarrow> 's \<Rightarrow> bool) \<Rightarrow> int \<Rightarrow> ('s, 'a) thread list \<times> 's \<Rightarrow> bool" where
  "balanced I d c \<longleftrightarrow> (\<exists>ks. list_all2 (pays I) ks (fst c) \<and> I (d + sum_list ks) (snd c))"

lemma sum_list_nonneg_pays: "list_all2 (pays I) ks ts \<Longrightarrow> 0 \<le> sum_list ks"
  by (induction rule: list_all2_induct) (auto dest: pays_range)

lemma sum_list_le_open: "list_all2 (pays I) ks ts \<Longrightarrow> sum_list ks \<le> int (open_threads ts)"
proof (induction rule: list_all2_induct)
  case Nil
  show ?case by simp
next
  case (Cons k ks t ts)
  then show ?case by (cases t) (auto simp: open_threads_def dest: pays_range)
qed

lemma balanced_bounds:
  assumes "balanced I d (ts, s)"
  obtains k where "I (d + k) s" and "0 \<le> k" and "k \<le> int (open_threads ts)"
  using assms sum_list_nonneg_pays sum_list_le_open unfolding balanced_def by fastforce

lemma balanced_start: "I d s \<Longrightarrow> balanced I d ([], s)"
  by (simp add: balanced_def)

lemma balanced_spawn:
  assumes "balanced I d (ts, s)" and "pays I 0 t"
  shows "balanced I d (ts @ [t], s)"
proof -
  obtain ks where "list_all2 (pays I) ks ts" "I (d + sum_list ks) s"
    using assms(1) by (auto simp: balanced_def)
  with assms(2) show ?thesis
    unfolding balanced_def by (intro exI [of _ "ks @ [0]"]) (simp add: list_all2_appendI)
qed

lemma balanced_step:
  assumes "pool_step (ts, s) (ts', s')" and "0 \<le> d" and "balanced I d (ts, s)"
  shows "balanced I d (ts', s')"
  using assms(1)
proof (rule pool_stepE)
  fix i f t u
  assume "(ts', s') = (ts[i := t], u)" and i: "i < length ts" "ts ! i = Act f" "f s = (t, u)"
  then have c: "ts' = ts[i := t]" "s' = u" by simp_all
  obtain ks where ks: "list_all2 (pays I) ks ts" "I (d + sum_list ks) s"
    using assms(3) by (auto simp: balanced_def)
  have len: "i < length ks" using ks(1) i(1) by (simp add: list_all2_lengthD)
  have "pays I (ks ! i) (Act f)" using list_all2_nthD [OF ks(1) len] i(2) by simp
  then obtain k' where k': "pays I k' t" "\<forall>e \<ge> 0. I (e + ks ! i) s \<longrightarrow> I (e + k') u"
    unfolding pays_Act_iff using i(3) by (metis fst_conv snd_conv)
  have rest: "0 \<le> sum_list (ks[i := 0])"
    using list_all2_update_cong [OF ks(1), of "0" "Over undefined" i] by (auto dest: sum_list_nonneg_pays)
  have split: "sum_list (ks[i := x]) = sum_list (ks[i := 0]) + x" for x
    using len by (simp add: upd_conv_take_nth_drop)
  have "I ((d + sum_list (ks[i := 0])) + ks ! i) s"
    using ks(2) split [of "ks ! i"] by (simp add: add.assoc)
  then have "I (d + sum_list (ks[i := k'])) u"
    using k'(2) rest assms(2) by (simp add: split [of k'] add.assoc [symmetric])
  moreover have "list_all2 (pays I) (ks[i := k']) ts'"
    unfolding c by (rule list_all2_update_cong [OF ks(1) k'(1)])
  ultimately show ?thesis unfolding balanced_def c(2) by auto
qed

end
