(* ===== verification/Interleaving.thy ===== *)
theory Interleaving
  imports Threads System
begin

text \<open>
  The process with its goroutines interleaved. Each handler is cut into threads at every call of the
  runtime, of GitHub and of the storage, at every call of the counter and at every access to its
  trackers, which are the places where the code takes a mutex or leaves the process; the collector
  of the logs, which touches neither counter nor Investigations, is one step. A thread run alone is the
  handler of the components. Any number of them may be under way at once, more than the one per
  controller that the manager allows.
\<close>

section \<open>The handlers as threads\<close>

definition submit_thread ::
  "'w runtime \<Rightarrow> Investigation \<Rightarrow> ((InvestigationCounter, 't, 'w) proc, go_error option) thread" where
  "submit_thread K iv =
     call (outside (Create_Investigation K iv)) (\<lambda>r.
       case r of
         Inl e \<Rightarrow> call (counter_Decrement 1) (\<lambda>u. Over (Some e))
       | Inr created \<Rightarrow>
           call (outside (StatusUpdate_Investigation K (set_phase phaseCollecting created))) (\<lambda>r'.
             Over (error_of r')))"

text \<open>The pod watcher.\<close>

definition ensureInvestigation_thread ::
  "'w runtime \<Rightarrow> Pod \<Rightarrow> string list \<Rightarrow> ('w pw, go_error option) thread" where
  "ensureInvestigation_thread K pod logPaths =
     call (outside (Get_Investigation K (pod_inv_key pod))) (\<lambda>r.
       case r of
         Inl e \<Rightarrow>
           if IsNotFound e then
             call counter_TryIncrement (\<lambda>granted.
               if \<not> granted then Over None
               else call (gets own) (\<lambda>h.
                 submit_thread K (new_investigation
                   (new_meta (om_Namespace (pod_Meta pod)) (pod_inv_name pod))
                   ((new_spec ''pod-deletion'' (pod_source pod))
                      \<lparr>sp_Pod := Some (buildPodInfo h pod), sp_LogPaths := logPaths\<rparr>))))
           else Over (Some e)
       | Inr iv \<Rightarrow> call (gets own) (\<lambda>h.
           let sp = inv_Spec iv in
           call (outside (Update_Investigation K
             (iv\<lparr>inv_Spec := sp\<lparr>sp_LogPaths := sp_LogPaths sp @ logPaths,
                                 sp_Pod := Some (buildPodInfo h pod)\<rparr>\<rparr>))) (\<lambda>r'.
             Over (error_of r'))))"

definition createAnomalyInvestigation_thread ::
  "'w runtime \<Rightarrow> Pod \<Rightarrow> string \<Rightarrow> ('w pw, go_error option) thread" where
  "createAnomalyInvestigation_thread K pod anomaly =
     call (outside (Get_Investigation K (pod_inv_key pod))) (\<lambda>r.
       case r of
         Inr iv \<Rightarrow> Over None
       | Inl e \<Rightarrow>
           call counter_TryIncrement (\<lambda>granted.
             if \<not> granted then Over None
             else call (outside (Now K)) (\<lambda>unused.
               call (gets own) (\<lambda>h.
                 call (outside (Now K)) (\<lambda>now.
                   submit_thread K (new_investigation
                     (new_meta (om_Namespace (pod_Meta pod)) (pod_inv_name pod))
                     ((new_spec anomaly (pod_source pod))
                        \<lparr>sp_Pod := Some (buildPodInfo h pod),
                         sp_Timeline :=
                           [\<lparr>tl_Timestamp = now, tl_Source = ''pod'', tl_Type = anomaly,
                             tl_Message = ''Anomaly detected on pod '' @ om_Name (pod_Meta pod) @
                                          '': '' @ anomaly\<rparr>]\<rparr>)))))))"

definition pod_handle_deletion_thread ::
  "'w runtime \<Rightarrow> 'w collector \<Rightarrow> Pod \<Rightarrow> ('w pw, go_error + Result) thread" where
  "pod_handle_deletion_thread K collect pod =
     call (outside (collect pod)) (\<lambda>(logPaths, err).
       followed (if logPaths \<noteq> [] then ensureInvestigation_thread K pod logPaths else Over None) (\<lambda>e.
         call (outside (Update_Pod K
             (pod\<lparr>pod_Meta := RemoveFinalizer K (pod_Meta pod) logCollectorFinalizer\<rparr>))) (\<lambda>r.
           Over (case r of Inl e \<Rightarrow> Inl e | Inr pod' \<Rightarrow> Inr no_requeue))))"

definition pod_check_anomaly_thread :: "'w runtime \<Rightarrow> Pod \<Rightarrow> ('w pw, go_error + Result) thread" where
  "pod_check_anomaly_thread K pod =
     followed (let anomaly = detectAnomaly pod in
         if anomaly \<noteq> [] then createAnomalyInvestigation_thread K pod anomaly else Over None) (\<lambda>e.
       Over (Inr no_requeue))"

definition pod_add_finalizer_thread :: "'w runtime \<Rightarrow> Pod \<Rightarrow> ('w pw, go_error + Pod) thread" where
  "pod_add_finalizer_thread K pod =
     (if \<not> being_deleted (pod_Meta pod) \<and> \<not> has_log_finalizer K pod
      then call (outside (Update_Pod K
             (pod\<lparr>pod_Meta := AddFinalizer K (pod_Meta pod) logCollectorFinalizer\<rparr>))) Over
      else Over (Inr pod))"

definition pod_Reconcile_thread ::
  "'w runtime \<Rightarrow> 'w collector \<Rightarrow> NamespacedName \<Rightarrow> ('w pw, go_error + Result) thread" where
  "pod_Reconcile_thread K collect key =
     call (outside (Get_Pod K key)) (\<lambda>r.
       case r of
         Inl e \<Rightarrow>
           if IsNotFound e then
             call (modify (\<lambda>p. p\<lparr>own := (own p)(key := None)\<rparr>)) (\<lambda>u. Over (Inr no_requeue))
           else Over (Inl e)
       | Inr pod \<Rightarrow>
           if label (pod_Meta pod) arcRunnerLabel \<noteq> ''True'' then Over (Inr no_requeue)
           else followed (pod_add_finalizer_thread K pod) (\<lambda>a.
             case a of
               Inl e \<Rightarrow> Over (Inl e)
             | Inr pod \<Rightarrow>
                 call (pod_recordTransition K key pod) (\<lambda>u.
                   if being_deleted (pod_Meta pod) \<and> has_log_finalizer K pod
                   then pod_handle_deletion_thread K collect pod
                   else pod_check_anomaly_thread K pod)))"

text \<open>The runner watcher.\<close>

definition er_createInvestigation_thread ::
  "'w runtime \<Rightarrow> Unstructured \<Rightarrow> string \<Rightarrow> string \<Rightarrow> ('w erw, go_error option) thread" where
  "er_createInvestigation_thread K er triggerType phase =
     call (outside (Get_Investigation K (er_inv_key er))) (\<lambda>r.
       case r of
         Inr iv \<Rightarrow> Over None
       | Inl e \<Rightarrow>
           call counter_TryIncrement (\<lambda>granted.
             if \<not> granted then Over None
             else call (gets own) (\<lambda>h.
               call (outside (Now K)) (\<lambda>now.
                 submit_thread K (er_new_investigation h now er triggerType phase)))))"

definition handleFailed_thread ::
  "'w runtime \<Rightarrow> EphemeralRunnerWatcher \<Rightarrow> Unstructured \<Rightarrow> string \<Rightarrow> ('w erw, go_error + Result) thread" where
  "handleFailed_thread K r er phase =
     call (outside (Now K)) (\<lambda>now.
       let age = Sub now (om_CreationTimestamp (un_Meta er)) in
       if age < StuckThreshold r then
         Over (Inr \<lparr>RequeueAfter = wrap64 (StuckThreshold r - age)\<rparr>)
       else followed (er_createInvestigation_thread K er ''runner-stuck'' phase) (\<lambda>err.
         Over (result_of err)))"

definition handleRunning_thread ::
  "'w runtime \<Rightarrow> EphemeralRunnerWatcher \<Rightarrow> NamespacedName \<Rightarrow> Unstructured \<Rightarrow> string \<Rightarrow>
   ('w erw, go_error + Result) thread"
where
  "handleRunning_thread K r key er phase =
     call (gets own) (\<lambda>h.
       case Option.bind (h key) et_runningSince of
         None \<Rightarrow> Over (Inr \<lparr>RequeueAfter = RunningThreshold r\<rparr>)
       | Some since \<Rightarrow>
           call (outside (Now K)) (\<lambda>now.
             let elapsed = Sub now since in
             if elapsed < RunningThreshold r then
               Over (Inr \<lparr>RequeueAfter = wrap64 (RunningThreshold r - elapsed)\<rparr>)
             else followed (er_createInvestigation_thread K er ''runner-stuck'' phase) (\<lambda>err.
               Over (result_of err))))"

definition er_Reconcile_thread ::
  "'w runtime \<Rightarrow> EphemeralRunnerWatcher \<Rightarrow> NamespacedName \<Rightarrow> ('w erw, go_error + Result) thread" where
  "er_Reconcile_thread K r key =
     call (outside (Get_ER K key)) (\<lambda>g.
       case g of
         Inl e \<Rightarrow>
           if IsNotFound e then
             call (modify (\<lambda>p. p\<lparr>own := (own p)(key := None)\<rparr>)) (\<lambda>u. Over (Inr no_requeue))
           else Over (Inl e)
       | Inr er \<Rightarrow>
           let phase = getNestedString er [''status'', ''phase''] in
           if phase = [] then Over (Inr no_requeue)
           else call (er_recordTransition K key phase) (\<lambda>u.
             if phase = ''Failed'' then handleFailed_thread K r er phase
             else if phase = ''Running'' then handleRunning_thread K r key er phase
             else Over (Inr no_requeue)))"

text \<open>The poller.\<close>

definition createJobInvestigation_thread ::
  "'w runtime \<Rightarrow> string \<Rightarrow> string \<Rightarrow> string \<Rightarrow> WorkflowRun \<Rightarrow> Job \<Rightarrow> string \<Rightarrow>
   ('w ghp, go_error option) thread"
where
  "createJobInvestigation_thread K owner repo namespace run job triggerType =
     call (outside (Get_Investigation K (gh_inv_key namespace job))) (\<lambda>r.
       case r of
         Inr iv \<Rightarrow> Over None
       | Inl e \<Rightarrow>
           if \<not> IsNotFound e then Over (Some e)
           else call counter_TryIncrement (\<lambda>granted.
             if \<not> granted then Over None
             else call (outside (Now K)) (\<lambda>now.
               submit_thread K (gh_new_investigation owner repo namespace now run job triggerType))))"

definition checkJob_thread ::
  "'w runtime \<Rightarrow> GitHubPoller \<Rightarrow> string \<Rightarrow> string \<Rightarrow> string \<Rightarrow> WorkflowRun \<Rightarrow> Job \<Rightarrow> ('w ghp, unit) thread"
where
  "checkJob_thread K p owner repo namespace run job =
     (if job_Status job = ''queued'' \<and> \<not> IsZero (job_StartedAt job) then
        call (outside (Now K)) (\<lambda>now.
          if Sub now (job_StartedAt job) > queuedThresh p then
            followed (createJobInvestigation_thread K owner repo namespace run job ''job-stuck-queued'')
              (\<lambda>e. Over ())
          else Over ())
      else Over ())"

definition pollRun_thread ::
  "'w runtime \<Rightarrow> 'w GHClient \<Rightarrow> GitHubPoller \<Rightarrow> string \<Rightarrow> string \<Rightarrow> string \<Rightarrow> WorkflowRun \<Rightarrow>
   ('w ghp, unit) thread"
where
  "pollRun_thread K g p owner repo namespace run =
     call (outside (gh_ListJobsForRun g owner repo (run_ID run))) (\<lambda>r.
       case r of
         Inl err \<Rightarrow> Over ()
       | Inr jobs \<Rightarrow> each_thread (checkJob_thread K p owner repo namespace run) jobs)"

definition pollRepo_thread ::
  "'w runtime \<Rightarrow> 'w GHClient \<Rightarrow> GitHubPoller \<Rightarrow> string \<Rightarrow> string \<Rightarrow> string \<Rightarrow> ('w ghp, unit) thread"
where
  "pollRepo_thread K g p owner repo namespace =
     each_thread (\<lambda>status.
       call (outside (gh_ListWorkflowRuns g owner repo \<lparr>lo_Status = status\<rparr>)) (\<lambda>r.
         case r of
           Inl err \<Rightarrow> Over ()
         | Inr runs \<Rightarrow> each_thread (pollRun_thread K g p owner repo namespace) runs))
       [''in_progress'', ''queued'']"

definition poll_thread ::
  "'w runtime \<Rightarrow> 'w GHClient \<Rightarrow> GitHubPoller \<Rightarrow> ('w ghp, go_error option) thread" where
  "poll_thread K g p =
     call (outside (gh_IsRateLimited g)) (\<lambda>limited.
       if limited then Over None
       else call (outside (List_Configs K)) (\<lambda>r.
         case r of
           Inl err \<Rightarrow> Over (Some (Wrapped ''listing DetectiveConfigs'' err))
         | Inr configs \<Rightarrow>
             followed (each_thread (\<lambda>config. each_thread (\<lambda>repo.
                   pollRepo_thread K g p (rr_Owner repo) (rr_Name repo) (om_Namespace (cfg_Meta config)))
                 (dc_Repositories (cfg_Spec config))) configs)
               (\<lambda>u. Over None)))"

text \<open>The cleanup.\<close>

definition getRetentionPeriod_thread :: "'w runtime \<Rightarrow> ('w clp, duration) thread" where
  "getRetentionPeriod_thread K =
     call (outside (List_Configs K)) (\<lambda>r.
       Over (case r of
               Inl err \<Rightarrow> defaultRetentionPeriod
             | Inr [] \<Rightarrow> defaultRetentionPeriod
             | Inr (config # configs) \<Rightarrow>
                 (case dc_RetentionPeriod (cfg_Spec config) of
                    Some d \<Rightarrow> d
                  | None \<Rightarrow> defaultRetentionPeriod)))"

definition prune_item_thread ::
  "'w runtime \<Rightarrow> 'w Storage option \<Rightarrow> duration \<Rightarrow> time \<Rightarrow> Investigation \<Rightarrow> ('w clp, fault option) thread"
where
  "prune_item_thread K storage retention now iv =
     (let age = Sub now (om_CreationTimestamp (inv_Meta iv)) in
      if age \<le> retention then Over None
      else followed (first_thread (\<lambda>logPath. call (delete_log storage logPath) Over)
             (sp_LogPaths (inv_Spec iv))) (\<lambda>r.
        case r of
          Some f \<Rightarrow> Over (Some f)
        | None \<Rightarrow>
            call (outside (Delete_Investigation K iv)) (\<lambda>e.
              case e of
                Some err \<Rightarrow> Over None
              | None \<Rightarrow> call (counter_Decrement 1) (\<lambda>u. Over None))))"

fun prune_oldest_thread :: "'w Storage \<Rightarrow> int \<Rightarrow> string list \<Rightarrow> int \<Rightarrow> ('w clp, unit) thread" where
  "prune_oldest_thread st maxBytes [] bytes = Over ()"
| "prune_oldest_thread st maxBytes (path # paths) bytes =
     (if bytes \<le> maxBytes then Over ()
      else call (outside (st_Delete st path)) (\<lambda>e.
        case e of
          Some err \<Rightarrow> prune_oldest_thread st maxBytes paths bytes
        | None \<Rightarrow> call (outside (st_UsageBytes st)) (\<lambda>u.
            prune_oldest_thread st maxBytes paths (fst u))))"

definition enforce_limit_thread :: "'w Storage \<Rightarrow> int \<Rightarrow> ('w clp, unit) thread" where
  "enforce_limit_thread st maxBytes =
     call (outside (st_UsageBytes st)) (\<lambda>u.
       if snd u \<noteq> None then Over ()
       else if fst u \<le> maxBytes then Over ()
       else (case st_disk st of
               None \<Rightarrow> Over ()
             | Some oldestFiles \<Rightarrow>
                 call (outside oldestFiles) (\<lambda>r.
                   case r of
                     Inl err \<Rightarrow> Over ()
                   | Inr oldest \<Rightarrow> prune_oldest_thread st maxBytes oldest (fst u))))"

definition enforceStorageLimit_thread :: "'w runtime \<Rightarrow> 'w Storage option \<Rightarrow> ('w clp, unit) thread" where
  "enforceStorageLimit_thread K storage =
     (case storage of
        None \<Rightarrow> Over ()
      | Some st \<Rightarrow>
          call (outside (List_Configs K)) (\<lambda>r.
            case size_limit r of
              None \<Rightarrow> Over ()
            | Some maxBytes \<Rightarrow> enforce_limit_thread st maxBytes))"

definition runCleanup_thread ::
  "'w runtime \<Rightarrow> 'w Storage option \<Rightarrow> ('w clp, fault option) thread" where
  "runCleanup_thread K storage =
     followed (getRetentionPeriod_thread K) (\<lambda>retention.
       call (outside (List_Investigations K)) (\<lambda>r.
         case r of
           Inl err \<Rightarrow> Over (Some (Failed err))
         | Inr items \<Rightarrow>
             call (outside (Now K)) (\<lambda>now.
               followed (first_thread (prune_item_thread K storage retention now) items) (\<lambda>r.
                 case r of
                   Some f \<Rightarrow> Over (Some f)
                 | None \<Rightarrow> followed (enforceStorageLimit_thread K storage) (\<lambda>u. Over None)))))"

section \<open>A thread run alone is the handler\<close>

lemma outside_bind:
  "outside (State_Monad.bind m f) = State_Monad.bind (outside m) (\<lambda>a. outside (f a))"
  by (rule state.expand) (simp add: fun_eq_iff split: prod.split)

lemma outside_ret: "outside (ret a) = ret a"
  by (rule state.expand) (simp add: fun_eq_iff)

lemma outside_option:
  "outside (case x of None \<Rightarrow> m | Some a \<Rightarrow> f a) = (case x of None \<Rightarrow> outside m | Some a \<Rightarrow> outside (f a))"
  by (simp split: option.split)

lemma outside_sum:
  "outside (case x of Inl a \<Rightarrow> f a | Inr b \<Rightarrow> g b) = (case x of Inl a \<Rightarrow> outside (f a) | Inr b \<Rightarrow> outside (g b))"
  by (simp split: sum.split)

lemma bind_ret: "State_Monad.bind m ret = m"
  by simp

lemmas outside_simps = outside_bind outside_ret outside_option outside_sum if_distrib [of outside]

lemma submit_alone [alone_simps]: "run_thread (submit_thread K iv) = submit K iv"
  by (simp only: submit_thread_def submit_def alone_simps)

lemma pod_parts_alone [alone_simps]:
  "run_thread (ensureInvestigation_thread K pod logPaths) = ensureInvestigation K pod logPaths"
  "run_thread (createAnomalyInvestigation_thread K pod anomaly) = createAnomalyInvestigation K pod anomaly"
  "run_thread (pod_add_finalizer_thread K pod) = pod_add_finalizer K pod"
  by (simp_all only: ensureInvestigation_thread_def ensureInvestigation_def Let_def
      createAnomalyInvestigation_thread_def createAnomalyInvestigation_def
      pod_add_finalizer_thread_def pod_add_finalizer_def alone_simps bind_ret)

lemma handler_parts_alone [alone_simps]:
  "run_thread (pod_handle_deletion_thread K collect pod) = pod_handle_deletion K collect pod"
  "run_thread (pod_check_anomaly_thread K pod) = pod_check_anomaly K pod"
  "run_thread (er_createInvestigation_thread K er t ph) = er_createInvestigation K er t ph"
  "run_thread (createJobInvestigation_thread K owner repo ns run job t) =
     createJobInvestigation K owner repo ns run job t"
  "run_thread (getRetentionPeriod_thread K) = getRetentionPeriod K"
  by (simp_all only: pod_handle_deletion_thread_def pod_handle_deletion_def
      pod_check_anomaly_thread_def pod_check_anomaly_def Let_def
      er_createInvestigation_thread_def er_createInvestigation_def
      createJobInvestigation_thread_def createJobInvestigation_def
      getRetentionPeriod_thread_def getRetentionPeriod_def alone_simps)

lemma er_parts_alone [alone_simps]:
  "run_thread (handleFailed_thread K r er ph) = handleFailed K r er ph"
  "run_thread (handleRunning_thread K r key er ph) = handleRunning K r key er ph"
  by (simp_all only: handleFailed_thread_def handleFailed_def handleRunning_thread_def
      handleRunning_def Let_def alone_simps)

lemma checkJob_alone [alone_simps]:
  "run_thread (checkJob_thread K p owner repo ns run job) = checkJob K p owner repo ns run job"
  by (simp only: checkJob_thread_def checkJob_def alone_simps)

lemma pollRun_alone [alone_simps]:
  "run_thread (pollRun_thread K g p owner repo ns run) = pollRun K g p owner repo ns run"
  by (simp only: pollRun_thread_def pollRun_def alone_simps)

lemma pollRepo_alone [alone_simps]:
  "run_thread (pollRepo_thread K g p owner repo ns) = pollRepo K g p owner repo ns"
  by (simp only: pollRepo_thread_def pollRepo_def alone_simps)

lemma prune_oldest_alone [alone_simps]:
  "run_thread (prune_oldest_thread st mx paths n) = outside (prune_oldest st mx paths n)"
  by (induction paths arbitrary: n)
    (simp_all only: prune_oldest_thread.simps prune_oldest.simps alone_simps outside_simps)

lemma cleanup_parts_alone [alone_simps]:
  "run_thread (prune_item_thread K storage retention now iv) = prune_item K storage retention now iv"
  "run_thread (enforce_limit_thread st mx) = outside (enforce_limit st mx)"
  "run_thread (enforceStorageLimit_thread K storage) = enforceStorageLimit K storage"
  by (simp_all only: prune_item_thread_def prune_item_def enforce_limit_thread_def enforce_limit_def
      enforceStorageLimit_thread_def enforceStorageLimit_def Let_def alone_simps bind_ret outside_simps)

lemma handlers_alone:
  "run_thread (pod_Reconcile_thread K collect key) = pod_Reconcile K collect key"
  "run_thread (er_Reconcile_thread K r key) = er_Reconcile K r key"
  "run_thread (poll_thread K g p) = poll K g p"
  "run_thread (runCleanup_thread K storage) = runCleanup K storage"
  by (simp_all only: pod_Reconcile_thread_def pod_Reconcile_def er_Reconcile_thread_def er_Reconcile_def
      poll_thread_def poll_def runCleanup_thread_def runCleanup_def Let_def alone_simps)


section \<open>What the threads hold\<close>

text \<open>A granted place and a deleted object are held until the Create or the Decrement.\<close>

lemma pays_reserve:
  assumes "pays (ledger stored b lim) 0 t" and "pays (ledger stored b lim) 1 u"
  shows "pays (ledger stored b lim) 0 (call counter_TryIncrement (\<lambda>granted. if \<not> granted then t else u))"
proof (rule pays_call, goal_cases)
  case (3 s granted s')
  have "ledger stored b lim (d + (if granted then 1 else 0)) s'" if "ledger stored b lim d s" for d
    using ledger_reserve [OF that] 3 by (auto split: prod.splits)
  then show ?case
    using assms by (intro exI [of _ "if granted then 1 else 0"]) (cases granted, auto)
qed simp_all

lemma pays_decrement:
  assumes "pays (ledger stored b lim) 0 (g ())"
  shows "pays (ledger stored b lim) 1 (call (counter_Decrement 1) g)"
proof (rule pays_call, goal_cases)
  case (3 s u s')
  then have "ledger stored b lim (d + 0) s'" if "0 \<le> d" "ledger stored b lim (d + 1) s" for d
    using ledger_decrement [OF that(2,1)] by simp
  with assms show ?case by (intro exI [of _ 0]) simp
qed simp_all

lemma pays_create:
  assumes laws: "kube_laws stored K"
    and "\<And>e. pays (ledger stored b lim) 1 (g (Inl e))" and "\<And>y. pays (ledger stored b lim) 0 (g (Inr y))"
  shows "pays (ledger stored b lim) 1 (call (outside (Create_Investigation K iv)) g)"
proof (rule pays_call, goal_cases)
  case (3 s r s')
  obtain w where run: "run_state (Create_Investigation K iv) (world s) = (r, w)" and s': "s' = s\<lparr>world := w\<rparr>"
    using 3 by (auto split: prod.splits)
  have "ledger stored b lim (d + (case r of Inl e \<Rightarrow> 1 | Inr y \<Rightarrow> 0)) s'"
    if "ledger stored b lim (d + 1) s" for d
    using ledger_create [OF laws run that] by (simp add: s' split: sum.splits)
  with assms show ?case
    by (intro exI [of _ "case r of Inl e \<Rightarrow> 1 | Inr y \<Rightarrow> 0"]) (cases r, auto)
qed simp_all

lemma pays_delete:
  assumes laws: "kube_laws stored K"
    and "\<And>err. pays (ledger stored b lim) 0 (t err)" and "pays (ledger stored b lim) 1 u"
  shows "pays (ledger stored b lim) 0 (call (outside (Delete_Investigation K iv))
    (\<lambda>e. case e of None \<Rightarrow> u | Some err \<Rightarrow> t err))"
proof (rule pays_call, goal_cases)
  case (3 s e s')
  obtain w where run: "run_state (Delete_Investigation K iv) (world s) = (e, w)" and s': "s' = s\<lparr>world := w\<rparr>"
    using 3 by (auto split: prod.splits)
  have "ledger stored b lim (d + (case e of None \<Rightarrow> 1 | Some err \<Rightarrow> 0)) s'"
    if "ledger stored b lim d s" for d
    using ledger_delete [OF laws run that] by (simp add: s' split: option.splits)
  with assms show ?case
    by (intro exI [of _ "case e of None \<Rightarrow> 1 | Some err \<Rightarrow> 0"]) (cases e, auto)
qed simp_all

text \<open>The other steps keep the ledger whatever the difference is.\<close>

lemmas ledger_pays =
  pays_Over pays_followed pays_each pays_first pays_if pays_option pays_sum pays_let
  pays_create pays_reserve pays_delete pays_decrement pays_keep

lemmas ledger_keeps = ledger_outside ledger_own keep.io_gets

lemma pays_submit:
  assumes "kube_laws stored K"
  shows "pays (ledger stored b lim) 1 (submit_thread K iv)"
  unfolding submit_thread_def
proof (intro pays_create assms, goal_cases)
  case (1 e)
  show ?case by (simp add: pays_decrement)
next
  case (2 y)
  show ?case
    unfolding sum.case by (intro pays_keep ledger_keeps put_keeps_dom kube_laws_puts assms pays_Over)
qed

lemma pays_pod_Reconcile:
  assumes "kube_laws stored K" and "\<And>pod. keeps stored (collect pod)"
  shows "pays (ledger stored b lim) 0 (pod_Reconcile_thread K collect key)"
proof -
  note rules = ledger_pays ledger_keeps dom_rules kube_laws_puts assms pays_submit
  have ensure: "pays (ledger stored b lim) 0 (ensureInvestigation_thread K pod paths)" for pod paths
    unfolding ensureInvestigation_thread_def Let_def by (intro rules)
  have anomaly: "pays (ledger stored b lim) 0 (createAnomalyInvestigation_thread K pod t)" for pod t
    unfolding createAnomalyInvestigation_thread_def by (intro rules)
  have delete: "pays (ledger stored b lim) 0 (pod_handle_deletion_thread K collect pod)" for pod
    unfolding pod_handle_deletion_thread_def case_prod_beta by (intro rules ensure)
  have add: "pays (ledger stored b lim) 0 (pod_add_finalizer_thread K pod)" for pod
    unfolding pod_add_finalizer_thread_def by (intro rules)
  have check: "pays (ledger stored b lim) 0 (pod_check_anomaly_thread K pod)" for pod
    unfolding pod_check_anomaly_thread_def Let_def by (intro rules anomaly)
  have track: "state_io_rel (preserves (ledger stored b lim d)) (pod_recordTransition K key pod)" for d key pod
    unfolding pod_recordTransition_def Let_def by (intro ledger_rules dom_rules assms)
  show ?thesis
    unfolding pod_Reconcile_thread_def by (intro rules delete add check track)
qed


lemma pays_er_Reconcile:
  assumes "kube_laws stored K"
  shows "pays (ledger stored b lim) 0 (er_Reconcile_thread K r key)"
proof -
  note rules = ledger_pays ledger_keeps dom_rules assms pays_submit
  have create: "pays (ledger stored b lim) 0 (er_createInvestigation_thread K er t ph)" for er t ph
    unfolding er_createInvestigation_thread_def by (intro rules)
  have failed: "pays (ledger stored b lim) 0 (handleFailed_thread K r er ph)" for er ph
    unfolding handleFailed_thread_def Let_def by (intro rules create)
  have running: "pays (ledger stored b lim) 0 (handleRunning_thread K r key er ph)" for er ph
    unfolding handleRunning_thread_def Let_def by (intro rules create)
  have track: "state_io_rel (preserves (ledger stored b lim d)) (er_recordTransition K key ph)" for d ph
    unfolding er_recordTransition_def Let_def by (intro ledger_rules dom_rules assms)
  show ?thesis
    unfolding er_Reconcile_thread_def Let_def by (intro rules failed running track)
qed

lemma pays_poll:
  assumes "kube_laws stored K" and "client_keeps stored g"
  shows "pays (ledger stored b lim) 0 (poll_thread K g q)"
proof -
  note rules = ledger_pays ledger_keeps dom_rules assms pays_submit client_keeps_rules [OF assms(2)]
  have check: "pays (ledger stored b lim) 0 (checkJob_thread K q owner repo ns run job)"
    for owner repo ns run job
    unfolding checkJob_thread_def createJobInvestigation_thread_def by (intro rules)
  have repo: "pays (ledger stored b lim) 0 (pollRepo_thread K g q owner repo ns)" for owner repo ns
    unfolding pollRepo_thread_def pollRun_thread_def by (intro rules check)
  show ?thesis
    unfolding poll_thread_def by (intro rules repo)
qed

lemma pays_prune_oldest:
  assumes "storage_keeps stored st"
  shows "pays (ledger stored b lim) 0 (prune_oldest_thread st mx paths n)"
proof (induction paths arbitrary: n)
  case Nil
  show ?case by simp
next
  case (Cons path paths)
  show ?case
    unfolding prune_oldest_thread.simps
    by (intro ledger_pays ledger_keeps storage_keeps_rules [OF assms] Cons)
qed

lemma pays_runCleanup:
  assumes "kube_laws stored K" and storage: "\<And>st. storage = Some st \<Longrightarrow> storage_keeps stored st"
  shows "pays (ledger stored b lim) 0 (runCleanup_thread K storage)"
proof -
  note rules = ledger_pays ledger_keeps dom_rules assms(1)
  have log: "state_io_rel (preserves (ledger stored b lim d)) (delete_log storage path)" for d path
    unfolding delete_log_def
    by (intro keep.io_option keep.io_bind keep.io_return ledger_outside storage_keeps_rules storage) auto
  have item: "pays (ledger stored b lim) 0 (prune_item_thread K storage rp now iv)" for rp now iv
    unfolding prune_item_thread_def Let_def by (intro rules log)
  have limit: "pays (ledger stored b lim) 0 (enforce_limit_thread st mx)" if "storage = Some st" for st mx
    unfolding enforce_limit_thread_def
    by (intro ledger_pays ledger_keeps storage_keeps_rules [OF storage [OF that]]
        pays_prune_oldest [OF storage [OF that]])
  show ?thesis
    unfolding runCleanup_thread_def getRetentionPeriod_thread_def enforceStorageLimit_thread_def
    by (intro rules item limit)
qed

section \<open>The process\<close>

text \<open>The handlers on the state of the whole process: each sees the counter, its own trackers and the
  world.\<close>

definition put_pods :: "'w pw \<Rightarrow> 'w system \<Rightarrow> 'w system" where
  "put_pods p s = s\<lparr>sy_counter := counter p, sy_pods := own p, sy_world := world p\<rparr>"

definition put_ers :: "'w erw \<Rightarrow> 'w system \<Rightarrow> 'w system" where
  "put_ers p s = s\<lparr>sy_counter := counter p, sy_ers := own p, sy_world := world p\<rparr>"

definition put_rest :: "(InvestigationCounter, unit, 'w) proc \<Rightarrow> 'w system \<Rightarrow> 'w system" where
  "put_rest p s = s\<lparr>sy_counter := counter p, sy_world := world p\<rparr>"

inductive handler :: "'w outside_world \<Rightarrow> program \<Rightarrow> ('w system, unit) thread \<Rightarrow> bool"
  for W :: "'w outside_world" and prog :: program
where
  pod_handler: "handler W prog (on_part (pod_Reconcile_thread (ow_kube W)
     (CollectLogs (Now (ow_kube W)) (ow_logs W) (the_storage W prog)) key)
     (\<lambda>s. view (sy_pods s) s) put_pods)"
| er_handler: "handler W prog (on_part (er_Reconcile_thread (ow_kube W) (fst (pr_erWatcher prog)) key)
     (\<lambda>s. view (sy_ers s) s) put_ers)"
| poll_handler: "handler W prog (on_part (poll_thread (ow_kube W) (the_client W prog) (pr_poller prog))
     (view ()) put_rest)"
| cleanup_handler: "handler W prog (on_part (runCleanup_thread (ow_kube W) (Some (the_storage W prog)))
     (view ()) put_rest)"

text \<open>
  The process moves when a handler begins, when one of those under way makes its next step, and when
  the world changes without a change to which Investigations there are; what the correlator does is
  of that kind (\<open>corr_keeps_dom\<close>). The last rule is a deletion by hand, counted as before.
\<close>

inductive interleaved ::
  "'w store \<Rightarrow> 'w outside_world \<Rightarrow> program \<Rightarrow> 'w system \<Rightarrow> nat \<Rightarrow>
   ('w system, unit) thread list \<times> 'w system \<Rightarrow> bool"
  for stored :: "'w store" and W :: "'w outside_world" and prog :: program and s0 :: "'w system"
where
  il_start: "interleaved stored W prog s0 0 ([], s0)"
| il_begin: "interleaved stored W prog s0 n (ts, s) \<Longrightarrow> handler W prog t \<Longrightarrow>
    interleaved stored W prog s0 n (ts @ [t], s)"
| il_act: "interleaved stored W prog s0 n c \<Longrightarrow> pool_step c c' \<Longrightarrow> interleaved stored W prog s0 n c'"
| il_world: "interleaved stored W prog s0 n (ts, s) \<Longrightarrow> dom (stored w) = dom (stored (sy_world s)) \<Longrightarrow>
    interleaved stored W prog s0 n (ts, s\<lparr>sy_world := w\<rparr>)"
| il_hand: "interleaved stored W prog s0 n (ts, s) \<Longrightarrow> deleted_by_hand W iv s s' \<Longrightarrow>
    interleaved stored W prog s0 (Suc n) (ts, s')"

lemma pays_part:
  assumes "pays (ledger stored b lim) k t" and "\<And>d p s. books stored b lim d (put p s) \<longleftrightarrow> ledger stored b lim d p"
    and "\<And>s. \<exists>u. get s = view u s"
  shows "pays (books stored b lim) k (on_part t get put)"
  using assms(1)
proof (rule pays_on_part)
  fix d p s
  show "books stored b lim d (put p s) \<longleftrightarrow> ledger stored b lim d p" by (rule assms(2))
  obtain u where "get s = view u s" using assms(3) by blast
  then show "books stored b lim d s \<longleftrightarrow> ledger stored b lim d (get s)" by (simp add: books_view)
qed

lemma handler_pays:
  assumes "handler W prog t" and laws: "lawful stored W"
  shows "pays (books stored b lim) 0 t"
proof -
  have kube: "kube_laws stored (ow_kube W)" and github: "client_keeps stored (the_client W prog)"
    and disk: "\<And>st. Some (the_storage W prog) = Some st \<Longrightarrow> storage_keeps stored st"
    using laws by (auto simp: lawful_def)
  note part = pays_part [of stored b lim 0]
  show ?thesis
    using assms(1)
    by cases
      (auto intro!: part pays_pod_Reconcile [OF kube collector_keeps [OF laws]] pays_er_Reconcile [OF kube]
        pays_poll [OF kube github] pays_runCleanup [OF kube disk]
        simp: put_pods_def put_ers_def put_rest_def books_def ledger_def)
qed

lemma interleaved_balanced:
  assumes "interleaved stored W prog s0 n c" and laws: "lawful stored W" and s0: "books stored b lim 0 s0"
  shows "balanced (books stored b lim) (int n) c"
  using assms(1)
proof (induction rule: interleaved.induct)
  case il_start
  show ?case using balanced_start [of "books stored b lim", OF s0] by simp
next
  case (il_begin n ts s t)
  from il_begin(3) handler_pays [OF il_begin(2) laws] show ?case by (rule balanced_spawn)
next
  case (il_act n c c')
  then show ?case using balanced_step [of "fst c" "snd c" "fst c'" "snd c'"] by simp
next
  case (il_world n ts s w)
  then show ?case by (auto simp: balanced_def books_def)
next
  case (il_hand n ts s iv s')
  then obtain ks where ks: "list_all2 (pays (books stored b lim)) ks ts"
    "books stored b lim (int n + sum_list ks) s" by (auto simp: balanced_def)
  have "books stored b lim (int (Suc n) + sum_list ks) s'"
    using deleted_books [OF il_hand(2) laws ks(2)] by (simp add: ac_simps)
  with ks(1) show ?case by (auto simp: balanced_def)
qed

section \<open>Runs without interruption\<close>

text \<open>A handler that is not interrupted is one of the steps of the system as it was seen before.\<close>

lemma il_acts:
  assumes "interleaved stored W prog s0 n c" and "pool_step\<^sup>*\<^sup>* c c'"
  shows "interleaved stored W prog s0 n c'"
  using assms(2,1) by (induction rule: rtranclp_induct) (auto intro: il_act)

lemma il_handler:
  assumes "interleaved stored W prog s0 n (ts, s)" and "handler W prog t"
    and "run_state (run_thread t) s = ((), s')"
  shows "interleaved stored W prog s0 n (ts @ [Over ()], s')"
  using il_acts [OF il_begin [OF assms(1,2)] pool_alone] assms(3) by simp

lemma run_parts:
  "run_state (run_thread (on_part t (\<lambda>s. view (sy_pods s) s) put_pods)) s =
     ((), put_pods (snd (run_state (run_thread t) (view (sy_pods s) s))) s)"
  "run_state (run_thread (on_part u (\<lambda>s. view (sy_ers s) s) put_ers)) s =
     ((), put_ers (snd (run_state (run_thread u) (view (sy_ers s) s))) s)"
  "run_state (run_thread (on_part v (view ()) put_rest)) s =
     ((), put_rest (snd (run_state (run_thread v) (view () s))) s)"
  by (rule run_on_part; simp add: view_def put_pods_def put_ers_def put_rest_def)+

lemma step_interleaved:
  assumes "step W prog s s'" and laws: "lawful stored W"
    and il: "interleaved stored W prog s0 n (ts, s)"
  shows "\<exists>us. open_threads us = 0 \<and> interleaved stored W prog s0 n (ts @ us, s')"
proof -
  have over: "open_threads [Over ()] = 0" "open_threads [] = 0" by (simp_all add: open_threads_def)
  from assms(1) show ?thesis
  proof cases
    case (pod_event key r p)
    then show ?thesis
      using il_handler [OF il pod_handler [of W prog key]] over(1)
      by (auto simp: run_parts handlers_alone put_pods_def)
  next
    case (er_event key r p)
    then show ?thesis
      using il_handler [OF il er_handler [of W prog key]] over(1)
      by (auto simp: run_parts handlers_alone put_ers_def)
  next
    case (investigation_event key r w)
    have kube: "kube_laws stored (ow_kube W)" and github: "client_keeps stored (the_client W prog)"
      using laws by (simp_all add: lawful_def)
    have "dom (stored w) = dom (stored (sy_world s))"
      using corr_keeps_dom [OF kube github, of "ow_sort W" key] investigation_event(2)
      unfolding keeps_dom_def by (metis snd_conv)
    from il_world [OF il this] show ?thesis
      unfolding investigation_event(1) using over(2) by (intro exI [of _ "[]"]) simp
  next
    case (poll_tick r p)
    then show ?thesis
      using il_handler [OF il poll_handler [of W prog]] over(1)
      by (auto simp: run_parts handlers_alone put_rest_def)
  next
    case (cleanup_tick r p)
    then show ?thesis
      using il_handler [OF il cleanup_handler [of W prog]] over(1)
      by (auto simp: run_parts handlers_alone put_rest_def)
  qed
qed

lemma open_threads_append: "open_threads (ts @ us) = open_threads ts + open_threads us"
  by (simp add: open_threads_def)

lemma follows_interleaved:
  assumes "follows W prog s0 n s" and laws: "lawful stored W"
  shows "\<exists>ts. open_threads ts = 0 \<and> interleaved stored W prog s0 n (ts, s)"
  using assms(1)
proof (induction rule: follows.induct)
  case follows_start
  show ?case by (intro exI [of _ "[]"]) (simp add: open_threads_def il_start)
next
  case (follows_step n t u)
  then show ?case using step_interleaved [OF follows_step(2) laws] by (metis open_threads_append add_0)
next
  case (follows_hand n t iv u)
  then show ?case by (blast intro: il_hand)
qed

section \<open>Properties\<close>

text \<open>C1: with the goroutines interleaved in any way, between any two calls, the counter is never below
  the number of Investigations there are (and those deleted by hand), and never above it by more than one for each
  handler under way; the number of Investigations never exceeds the configured maximum, or what was
  there at the start; and when no handler is under way, the counter is exact.\<close>

theorem investigations_bounded_interleaved:
  assumes laws: "lawful stored W" and direct: "kube_laws stored K" "host_keeps stored host"
    "lists_stored stored K w0"
    and run: "run_state (prepare host K fl) w0 = (Inr prog, w1)"
    and int64: "is_int64 (ic_max (pr_counter prog))" "is_int64 (int (card (dom (stored w0))))"
    and il: "interleaved stored W prog (started prog w1) n (ts, s)"
  shows "let here = int (card (dom (stored (sy_world s)))) in
    here + int n \<le> Count (sy_counter s) \<and>
    Count (sy_counter s) \<le> here + int n + int (open_threads ts) \<and>
    here \<le> max (int (card (dom (stored w0)))) (ic_max (pr_counter prog))"
proof -
  from interleaved_balanced [OF il laws started_books [OF direct run int64]]
  obtain k where k: "books stored (int (card (dom (stored w0)))) (ic_max (pr_counter prog)) (int n + k) s"
    "0 \<le> k" "k \<le> int (open_threads ts)"
    by (rule balanced_bounds)
  then show ?thesis by (auto simp: books_def ic.within_def Let_def)
qed

text \<open>The runner watcher stopped right after it has taken the only place, before the Create.\<close>

lemma one_place_reserved:
  "\<exists>t p. steps 5 (er_Reconcile_thread sample_kube (fst (pr_erWatcher one_place_program)) er_key)
       (view (sy_ers (started one_place_program one_place)) (started one_place_program one_place)) = (t, p) \<and>
     Count (counter p) = 1 \<and> world p = one_place"
  by (simp add: numeral_eq_Suc er_Reconcile_thread_def handleFailed_thread_def
      er_createInvestigation_thread_def Count_def one_place_eval)

theorem investigations_bounded_interleaved_witness:
  "\<exists>ts s. interleaved sample_stored quiet_world one_place_program (started one_place_program one_place) 0 (ts, s) \<and>
     Count (sy_counter s) = 1 \<and> sample_stored (sy_world s) = Map.empty \<and> 1 \<le> open_threads ts"
proof -
  let ?s = "started one_place_program one_place"
  obtain t p where steps: "steps 5 (er_Reconcile_thread sample_kube (fst (pr_erWatcher one_place_program)) er_key)
       (view (sy_ers ?s) ?s) = (t, p)" and p: "Count (counter p) = 1" "world p = one_place"
    using one_place_reserved by blast
  have "handler quiet_world one_place_program
      (on_part (er_Reconcile_thread sample_kube (fst (pr_erWatcher one_place_program)) er_key)
         (\<lambda>s. view (sy_ers s) s) put_ers)"
    using er_handler [of quiet_world one_place_program er_key] by (simp add: quiet_world_def)
  from il_begin [OF il_start this, of sample_stored ?s]
  have begun: "interleaved sample_stored quiet_world one_place_program ?s 0
      ([on_part (er_Reconcile_thread sample_kube (fst (pr_erWatcher one_place_program)) er_key)
          (\<lambda>s. view (sy_ers s) s) put_ers], ?s)" by simp
  have il: "interleaved sample_stored quiet_world one_place_program ?s 0
      ([on_part t (\<lambda>s. view (sy_ers s) s) put_ers], put_ers p ?s)"
    by (rule il_acts [OF begun], rule pool_steps [where n = 5])
      (simp_all add: view_def put_ers_def steps [unfolded view_def])
  have lists: "lists_stored sample_stored sample_kube one_place"
    by (rule empty_lists) (simp add: one_place_def one_er_def empty_cluster_def)
  have none: "sample_stored one_place = Map.empty"
    by (simp add: sample_stored_def one_place_def one_er_def empty_cluster_def fun_eq_iff)
  have int64: "is_int64 (ic_max (pr_counter one_place_program))"
    "is_int64 (int (card (dom (sample_stored one_place))))"
    by (simp_all add: none one_place_program_def build_program_def is_int64_def)
  from investigations_bounded_interleaved [OF quiet_lawful sample_kube_laws calm_keeps lists
      one_place_started int64 il]
  have "1 \<le> open_threads [on_part t (\<lambda>s. view (sy_ers s) s) put_ers]"
    by (simp add: put_ers_def p none Let_def)
  with il p none show ?thesis
    by (intro exI conjI) (assumption, simp_all add: put_ers_def)
qed

end
