(* ===== verification/Interference.thy ===== *)
theory Interference
  imports Interleaving
begin

text \<open>
  What a handler can call when it is interrupted anywhere. Before each of its steps any state may be
  found: the world, the counter and even the trackers as others left them. A statement about all
  sequences of calls a thread may make then holds in every interleaving, with whatever else.
\<close>

section \<open>The calls of an interrupted thread\<close>

text \<open>\<open>tr\<close> reads the calls recorded so far from the state; a thread may also stop being run.\<close>

inductive may_make :: "('s \<Rightarrow> call list) \<Rightarrow> ('s, 'a) thread \<Rightarrow> call list \<Rightarrow> bool" for tr where
  make_none: "may_make tr t []"
| make_step: "tr (snd (f s)) = tr s @ now \<Longrightarrow> may_make tr (fst (f s)) later \<Longrightarrow> may_make tr (Act f) (now @ later)"

inductive_cases may_make_OverE [elim!]: "may_make tr (Over a) cs"
inductive_cases may_make_ActE: "may_make tr (Act f) cs"

lemma may_make_callE:
  assumes "may_make tr (call m k) cs"
  obtains "cs = []" | s a s' now later where "run_state m s = (a, s')" "tr s' = tr s @ now"
    "may_make tr (k a) later" "cs = now @ later"
  using assms unfolding call_def by (elim may_make_ActE) (auto split: prod.splits)

lemma make_call:
  assumes "run_state m s = (a, s')" and "tr s' = tr s @ now" and "may_make tr (k a) later"
  shows "may_make tr (call m k) (now @ later)"
  unfolding call_def by (rule make_step [where s = s]) (use assms in simp_all)

lemma may_make_followed:
  assumes "may_make tr (followed t k) cs"
  shows "may_make tr t cs \<or> (\<exists>as bs b. cs = as @ bs \<and> may_make tr t as \<and> may_make tr (k b) bs)"
  using assms
proof (induction t arbitrary: cs)
  case (Over b)
  then show ?case by (metis append_Nil followed.simps(1) make_none)
next
  case (Act f)
  from Act.prems [unfolded followed_Act] show ?case
  proof (rule may_make_ActE)
    assume "cs = []"
    with make_none show ?thesis by blast
  next
    fix s now later
    assume cs: "cs = now @ later" and "tr (snd (followed (fst (f s)) k, snd (f s))) = tr s @ now"
      and "may_make tr (fst (followed (fst (f s)) k, snd (f s))) later"
    then have step: "tr (snd (f s)) = tr s @ now" and "may_make tr (followed (fst (f s)) k) later"
      by simp_all
    then have "may_make tr (fst (f s)) later \<or>
        (\<exists>as bs b. later = as @ bs \<and> may_make tr (fst (f s)) as \<and> may_make tr (k b) bs)"
      by (intro Act.IH) (auto simp: prod_set_defs)
    with make_step [of tr f s now, OF step] cs show ?thesis by (metis append.assoc)
  qed
qed

text \<open>Every sequence of calls satisfies \<open>G\<close>, which is asked of the calls still to come.\<close>

definition allowed :: "('s \<Rightarrow> call list) \<Rightarrow> (call list \<Rightarrow> bool) \<Rightarrow> ('s, 'a) thread \<Rightarrow> bool" where
  "allowed tr G t \<longleftrightarrow> (\<forall>cs. may_make tr t cs \<longrightarrow> G cs)"

lemma allowed_Over: "G [] \<Longrightarrow> allowed tr G (Over a)"
  by (auto simp: allowed_def)

lemma allowed_quiet:
  assumes "\<And>s. tr (snd (run_state m s)) = tr s" and "\<And>a. allowed tr G (k a)" and "G []"
  shows "allowed tr G (call m k)"
  unfolding allowed_def
proof (intro allI impI)
  fix cs
  assume "may_make tr (call m k) cs"
  then show "G cs"
  proof (cases rule: may_make_callE)
    case 1
    with assms(3) show ?thesis by simp
  next
    case (2 s a s' now later)
    with assms(1) [of s] have "now = []" by simp
    with 2 assms(2) show ?thesis by (simp add: allowed_def)
  qed
qed

lemma allowed_recorded:
  assumes "G []" and "\<And>a. allowed proc_calls (\<lambda>cs. G (c # cs)) (k a)"
  shows "allowed proc_calls G (call (outside (recorded c m)) k)"
  unfolding allowed_def
proof (intro allI impI)
  fix cs
  assume "may_make proc_calls (call (outside (recorded c m)) k) cs"
  then show "G cs"
  proof (cases rule: may_make_callE)
    case 1
    with assms(1) show ?thesis by simp
  next
    case (2 s a s' now later)
    then have "now = [c]" by (auto split: prod.splits)
    with 2 assms(2) show ?thesis by (simp add: allowed_def)
  qed
qed

lemma allowed_if: "(b \<Longrightarrow> allowed tr G t) \<Longrightarrow> (\<not> b \<Longrightarrow> allowed tr G u) \<Longrightarrow> allowed tr G (if b then t else u)"
  by simp

lemma allowed_option:
  "(x = None \<Longrightarrow> allowed tr G t) \<Longrightarrow> (\<And>a. x = Some a \<Longrightarrow> allowed tr G (f a)) \<Longrightarrow>
   allowed tr G (case x of None \<Rightarrow> t | Some a \<Rightarrow> f a)"
  by (simp split: option.split)

lemma allowed_sum:
  "(\<And>a. x = Inl a \<Longrightarrow> allowed tr G (f a)) \<Longrightarrow> (\<And>b. x = Inr b \<Longrightarrow> allowed tr G (g b)) \<Longrightarrow>
   allowed tr G (case x of Inl a \<Rightarrow> f a | Inr b \<Rightarrow> g b)"
  by (simp split: sum.split)

text \<open>A thread whose calls do not matter to \<open>G\<close>, and what follows it.\<close>

lemma allowed_followed:
  assumes "allowed tr (\<lambda>cs. \<forall>c \<in> set cs. P c) t" and "\<And>b. allowed tr G (k b)" and "G []"
    and "\<And>as bs. \<forall>c \<in> set as. P c \<Longrightarrow> G (as @ bs) = G bs"
  shows "allowed tr G (followed t k)"
  unfolding allowed_def
proof (intro allI impI)
  fix cs
  assume "may_make tr (followed t k) cs"
  from may_make_followed [OF this] show "G cs"
  proof (elim disjE exE conjE)
    assume "may_make tr t cs"
    with assms(1) have "\<forall>c \<in> set cs. P c" by (simp add: allowed_def)
    with assms(3) assms(4) [of cs "[]"] show ?thesis by simp
  next
    fix as bs b
    assume "cs = as @ bs" "may_make tr t as" "may_make tr (k b) bs"
    with assms(1,2,4) show ?thesis by (simp add: allowed_def)
  qed
qed

text \<open>Threads that make only calls that satisfy \<open>P\<close>.\<close>

abbreviation only :: "('s \<Rightarrow> call list) \<Rightarrow> (call \<Rightarrow> bool) \<Rightarrow> ('s, 'a) thread \<Rightarrow> bool" where
  "only tr P \<equiv> allowed tr (\<lambda>cs. \<forall>c \<in> set cs. P c)"

lemma only_Over: "only tr P (Over a)"
  by (simp add: allowed_Over)

lemma only_recorded:
  assumes "P c" and "\<And>a. only proc_calls P (k a)"
  shows "only proc_calls P (call (outside (recorded c m)) k)"
  by (rule allowed_recorded) (use assms in simp_all)

lemma only_quiet:
  "(\<And>s. tr (snd (run_state m s)) = tr s) \<Longrightarrow> (\<And>a. only tr P (k a)) \<Longrightarrow> only tr P (call m k)"
  by (rule allowed_quiet) simp_all

lemma only_followed: "only tr P t \<Longrightarrow> (\<And>b. only tr P (k b)) \<Longrightarrow> only tr P (followed t k)"
  by (rule allowed_followed [where P = P]) auto

text \<open>The steps that make no call.\<close>

lemma only_counter: "(\<And>a. only proc_calls P (k a)) \<Longrightarrow> only proc_calls P (call counter_TryIncrement k)"
  by (rule only_quiet) (simp split: prod.split)

lemma only_decrement: "(\<And>a. only proc_calls P (k a)) \<Longrightarrow> only proc_calls P (call (counter_Decrement n) k)"
  by (rule only_quiet) simp

lemma only_gets: "(\<And>a. only proc_calls P (k a)) \<Longrightarrow> only proc_calls P (call (gets f) k)"
  by (rule only_quiet) simp

lemma only_silent: "(\<And>a. only proc_calls P (k a)) \<Longrightarrow> only proc_calls P (call (outside (silent m)) k)"
  by (rule only_quiet) (simp split: prod.split)

lemmas only_rules =
  only_Over allowed_if allowed_option allowed_sum only_recorded only_followed only_counter only_decrement
  only_gets only_silent

section \<open>The finalizer under interference\<close>

text \<open>A call that neither updates a pod nor asks for logs.\<close>

fun beside_the_pod :: "call \<Rightarrow> bool" where
  "beside_the_pod (UpdatePod pod) = False"
| "beside_the_pod (CollectLogsOf pod) = False"
| "beside_the_pod c = True"

lemma guarded_beside:
  "\<forall>c \<in> set mid. beside_the_pod c \<Longrightarrow> releases_guarded K seen (mid @ cs) = releases_guarded K seen cs"
proof (induction mid)
  case Nil
  then show ?case by simp
next
  case (Cons c mid)
  then show ?case by (cases c) auto
qed

lemma submit_beside: "only proc_calls beside_the_pod (submit_thread (traced K) iv)"
  unfolding submit_thread_def traced_simps by (intro only_rules) simp_all

lemma ensure_beside: "only proc_calls beside_the_pod (ensureInvestigation_thread (traced K) pod paths)"
  unfolding ensureInvestigation_thread_def Let_def traced_simps by (intro only_rules submit_beside) simp_all

lemma anomaly_beside: "only proc_calls beside_the_pod (createAnomalyInvestigation_thread (traced K) pod a)"
  unfolding createAnomalyInvestigation_thread_def traced_simps by (intro only_rules submit_beside) simp_all

abbreviation guards :: "'w runtime \<Rightarrow> Pod list \<Rightarrow> (('w \<times> call list) pw, 'a) thread \<Rightarrow> bool" where
  "guards K seen \<equiv> allowed proc_calls (releases_guarded K seen)"

lemma guards_beside: "only proc_calls beside_the_pod t \<Longrightarrow> (\<And>b. guards K seen (k b)) \<Longrightarrow> guards K seen (followed t k)"
  by (rule allowed_followed [where P = beside_the_pod]) (simp_all add: guarded_beside)

lemma guards_release:
  assumes "has_log_finalizer K q \<or> (\<exists>p \<in> set seen. being_deleted (pod_Meta p) \<and> q = without_finalizer K p)"
    and "\<And>a. guards K seen (k a)"
  shows "guards K seen (call (outside (recorded (UpdatePod q) m)) k)"
  by (rule allowed_recorded) (use assms in simp_all)

lemma guards_collect:
  assumes "\<And>a. guards K (pod # seen) (k a)"
  shows "guards K seen (call (outside (traced_collector collect pod)) k)"
  unfolding traced_collector_def by (rule allowed_recorded) (use assms in simp_all)

lemma guards_deletion:
  assumes "being_deleted (pod_Meta pod)"
  shows "guards K seen (pod_handle_deletion_thread (traced K) (traced_collector collect) pod)"
  unfolding pod_handle_deletion_thread_def case_prod_beta traced_simps without_finalizer_def [symmetric]
  by (intro guards_collect guards_beside guards_release only_rules ensure_beside allowed_Over)
    (use assms in auto)

lemma guards_add:
  assumes "finalizer_laws K" and "\<And>a. guards K seen (k a)"
  shows "guards K seen (followed (pod_add_finalizer_thread (traced K) pod) k)"
proof -
  have "has_log_finalizer K (pod\<lparr>pod_Meta := AddFinalizer K (pod_Meta pod) logCollectorFinalizer\<rparr>)"
    using assms(1) by (simp add: has_log_finalizer_def finalizer_laws_def)
  with assms(2) show ?thesis
    by (auto simp: pod_add_finalizer_thread_def intro!: guards_release)
qed

lemma guards_found:
  "(\<And>a. guards K seen (k a)) \<Longrightarrow> guards K seen (call (outside (recorded (GetPod key) m)) k)"
  by (rule allowed_recorded) simp_all

lemma guards_gone: "(\<And>a. guards K seen (k a)) \<Longrightarrow> guards K seen (call (modify (\<lambda>p. p\<lparr>own := f p\<rparr>)) k)"
  by (rule allowed_quiet) simp_all

text \<open>C5: no pod loses the log finalizer before its logs were asked for, whatever comes in between. Let a
  Reconcile of the pod watcher be interrupted at every call and every access to the shared state, and
  let each of its steps find any world, any counter and any trackers: still every pod update it makes
  either leaves the finalizer on the pod, or follows its own CollectLogs of that very pod, which is in
  deletion, and changes nothing but the finalizer.\<close>

theorem release_guarded_under_interference:
  assumes "finalizer_laws K"
    and "may_make proc_calls (pod_Reconcile_thread (traced K) (traced_collector collect) key) cs"
  shows "releases_guarded K [] cs"
proof -
  have check: "only proc_calls beside_the_pod (pod_check_anomaly_thread (traced K) pod)" for pod
    unfolding pod_check_anomaly_thread_def Let_def by (intro only_rules anomaly_beside)
  have checks: "guards K [] (pod_check_anomaly_thread (traced K) pod)" for pod
    using check guarded_beside [of _ K "[]" "[]"] by (simp add: allowed_def)
  have rest: "guards K [] (call (pod_recordTransition (traced K) key pod) (\<lambda>u.
      if being_deleted (pod_Meta pod) \<and> has_log_finalizer (traced K) pod
      then pod_handle_deletion_thread (traced K) (traced_collector collect) pod
      else pod_check_anomaly_thread (traced K) pod))" for pod
    by (intro allowed_quiet allowed_if guards_deletion checks) (simp_all add: record_calls)
  have "guards K [] (pod_Reconcile_thread (traced K) (traced_collector collect) key)"
    unfolding pod_Reconcile_thread_def traced_simps
    by (intro guards_found allowed_if allowed_sum guards_add assms(1) rest guards_gone allowed_Over) simp_all
  with assms(2) show ?thesis by (simp add: allowed_def)
qed

text \<open>A Reconcile of a dying pod whose steps find different states: a counter that others used up,
  trackers that others filled, a server that has gone down when the finalizer is taken off.\<close>

lemma make_recorded:
  assumes "run_state m w = (a, w')" and "may_make proc_calls (k a) later"
  shows "may_make proc_calls (call (outside (recorded c m)) k) (c # later)"
proof -
  have "run_state (outside (recorded c m)) \<lparr>counter = n, own = h, world = (w, [])\<rparr> =
      (a, \<lparr>counter = n, own = h, world = (w', [c])\<rparr>)" for n h
    using assms(1) by simp
  from make_call [OF this, where tr = proc_calls and now = "[c]" and k = k and later = later] assms(2)
  show ?thesis by simp
qed

lemma make_quiet:
  assumes "tr (snd (run_state m s)) = tr s" and "may_make tr (k (fst (run_state m s))) later"
  shows "may_make tr (call m k) later"
  using make_call [where m = m and s = s and tr = tr and now = "[]" and k = k and later = later] assms
  by (metis append_Nil append_Nil2 prod.collapse)

lemma interrupted_deletion:
  "may_make proc_calls (pod_Reconcile_thread (traced sample_kube) (traced_collector (logs_of [])) pod_key)
     [GetPod pod_key, CollectLogsOf (dying_pod ph), UpdatePod (without_finalizer sample_kube (dying_pod ph))]"
proof -
  let ?pod = "dying_pod ph"
  have get: "run_state (find_pod pod_key) (one_pod ?pod) = (Inr ?pod, one_pod ?pod)"
    by (simp add: one_pod_def empty_cluster_def cluster_defs)
  have held: "has_log_finalizer (traced sample_kube) ?pod"
    using dying_pod_simps(3) by (simp add: has_log_finalizer_def)
  have collect: "run_state (logs_of [] ?pod) (empty_cluster\<lparr>cl_time := 1\<rparr>) = (([], None), empty_cluster\<lparr>cl_time := 1\<rparr>)"
    by (simp add: logs_of_def)
  have update: "run_state (update_pod q) (empty_cluster\<lparr>cl_down := [VUpdatePod]\<rparr>) =
      (Inl Conflict, empty_cluster\<lparr>cl_down := [VUpdatePod]\<rparr>)" for q
    by (simp add: update_pod_def)
  have deletion: "may_make proc_calls (pod_handle_deletion_thread (traced sample_kube) (traced_collector (logs_of [])) ?pod)
      [CollectLogsOf ?pod, UpdatePod (without_finalizer sample_kube ?pod)]"
    unfolding pod_handle_deletion_thread_def traced_collector_def
    by (rule make_recorded [OF collect])
      (auto simp: without_finalizer_def intro!: make_recorded [OF update] make_none)
  have "may_make proc_calls (call (pod_recordTransition (traced sample_kube) pod_key ?pod) (\<lambda>u.
      if being_deleted (pod_Meta ?pod) \<and> has_log_finalizer (traced sample_kube) ?pod
      then pod_handle_deletion_thread (traced sample_kube) (traced_collector (logs_of [])) ?pod
      else pod_check_anomaly_thread (traced sample_kube) ?pod))
      [CollectLogsOf ?pod, UpdatePod (without_finalizer sample_kube ?pod)]"
    using deletion held
    by (intro make_quiet [where s = "(fresh_pw (\<lambda>k. Some new_podTracker) empty_cluster)
        \<lparr>counter := \<lparr>ic_count = 3, ic_max = 3\<rparr>\<rparr>"]) (simp_all add: record_calls)
  then show ?thesis
    unfolding pod_Reconcile_thread_def traced_simps sample_kube_simps
    by (intro make_recorded [OF get]) (simp add: pod_add_finalizer_thread_def)
qed

theorem release_guarded_under_interference_witness:
  "releases_guarded sample_kube []
     [GetPod pod_key, CollectLogsOf (dying_pod ''Running''),
      UpdatePod (without_finalizer sample_kube (dying_pod ''Running''))]"
  by (rule release_guarded_under_interference [OF sample_finalizer_laws interrupted_deletion])

end
