(* ===== verification/Quiescence.thy ===== *)
theory Quiescence
  imports Interleaving "HOL-Library.Multiset"
begin

text \<open>
  The process comes to rest: when no new handler begins, the handlers under way all come to their end,
  in whatever order they step and whatever the world does in between. A step takes a thread to one of
  its continuations, which is a well-founded relation, and the pool of threads decreases as a multiset.
\<close>

section \<open>Steps terminate\<close>

definition continuation :: "(('s, 'a) thread \<times> ('s, 'a) thread) set" where
  "continuation = {(fst (f s), Act f) |f s. True}"

lemma wf_continuation: "wf (continuation :: (('s, 'a) thread \<times> ('s, 'a) thread) set)"
proof (rule wfUNIVI)
  fix P :: "('s, 'a) thread \<Rightarrow> bool" and t
  assume step: "\<forall>t. (\<forall>u. (u, t) \<in> continuation \<longrightarrow> P u) \<longrightarrow> P t"
  show "P t"
  proof (induction t)
    case (Over a)
    have "\<forall>u. (u, Over a) \<in> continuation \<longrightarrow> P u" by (auto simp: continuation_def)
    with step show ?case by blast
  next
    case (Act f)
    then have "P (fst (f s))" for s by (auto simp: prod_set_defs)
    then have "\<forall>u. (u, Act f) \<in> continuation \<longrightarrow> P u" by (auto simp: continuation_def)
    with step show ?case by blast
  qed
qed

lemma pool_step_smaller:
  assumes "pool_step (ts, s) (ts', s')"
  shows "(mset ts', mset ts) \<in> mult continuation"
  using assms
proof (rule pool_stepE)
  fix i f t u
  assume "(ts', s') = (ts[i := t], u)" and i: "i < length ts" "ts ! i = Act f" "f s = (t, u)"
  define M where "M = mset ts - {#Act f#}"
  have "mset ts = M + {#Act f#}" "mset ts' = M + {#t#}"
    using i nth_mem [OF i(1)] \<open>(ts', s') = (ts[i := t], u)\<close> by (simp_all add: mset_update M_def)
  moreover have "(t, Act f) \<in> continuation"
    using i(3) unfolding continuation_def by (metis (mono_tags, lifting) fst_conv mem_Collect_eq)
  then have "(M + {#t#}, M + {#Act f#}) \<in> mult continuation"
    by (intro one_step_implies_mult) simp_all
  ultimately show ?thesis by simp
qed

text \<open>A pool that no other thread joins: in an infinite run it changes only finitely often.\<close>

lemma pool_settles:
  assumes "\<And>i. pool_step (c i) (c (Suc i)) \<or> fst (c (Suc i)) = fst (c i)"
  shows "\<exists>m. \<forall>i \<ge> m. fst (c i) = fst (c m)"
proof -
  have "wf (mult continuation)" by (rule wf_mult [OF wf_continuation])
  then have "wf (inv_image (mult continuation) (\<lambda>i. mset (fst (c i))))" by (rule wf_inv_image)
  moreover have "(UNIV :: nat set) \<noteq> {}" by simp
  ultimately obtain m where m: "\<And>i. (mset (fst (c i)), mset (fst (c m))) \<notin> mult continuation"
    by (metis UNIV_I in_inv_image wfE_min)
  have "fst (c (m + k)) = fst (c m)" for k
  proof (induction k)
    case 0
    show ?case by simp
  next
    case (Suc k)
    have "\<not> pool_step (c (m + k)) (c (Suc (m + k)))"
      using m [of "Suc (m + k)"] pool_step_smaller [of "fst (c (m + k))" "snd (c (m + k))"] Suc
      by (metis prod.collapse)
    with assms [of "m + k"] Suc show ?case by simp
  qed
  then show ?thesis by (metis le_Suc_ex)
qed

lemma open_thread_steps:
  assumes "0 < open_threads ts"
  shows "\<exists>c. pool_step (ts, s) c"
proof -
  from assms obtain t where "t \<in> set ts" "case t of Over a \<Rightarrow> False | Act f \<Rightarrow> True"
    unfolding open_threads_def by (metis (no_types, lifting) filter_False length_greater_0_conv)
  then obtain i f where "i < length ts" "ts ! i = Act f"
    by (metis in_set_conv_nth thread.case(1) thread.exhaust)
  then show ?thesis using pool_act [of i ts f s] by (metis prod.collapse)
qed

text \<open>A run that is fair to the pool as a whole: while a thread is open, one of them steps again.\<close>

definition fair :: "(nat \<Rightarrow> ('s, 'a) thread list \<times> 's) \<Rightarrow> bool" where
  "fair c \<longleftrightarrow> (\<forall>m. 0 < open_threads (fst (c m)) \<longrightarrow> (\<exists>i \<ge> m. pool_step (c i) (c (Suc i))))"

lemma pool_step_changes: "pool_step c c' \<Longrightarrow> fst c' \<noteq> fst c"
  using pool_step_smaller [of "fst c" "snd c" "fst c'" "snd c'"] wf_mult [OF wf_continuation]
  by (metis prod.collapse wf_not_refl)

lemma pool_finishes:
  assumes "\<And>i. pool_step (c i) (c (Suc i)) \<or> fst (c (Suc i)) = fst (c i)" and "fair c"
  shows "\<exists>m. \<forall>i \<ge> m. open_threads (fst (c i)) = 0"
proof -
  obtain m where m: "\<And>i. m \<le> i \<Longrightarrow> fst (c i) = fst (c m)"
    using pool_settles [of c, OF assms(1)] by blast
  have "open_threads (fst (c m)) = 0"
  proof (rule ccontr)
    assume "open_threads (fst (c m)) \<noteq> 0"
    with assms(2) obtain i where "m \<le> i" "pool_step (c i) (c (Suc i))" unfolding fair_def by blast
    with pool_step_changes m [of i] m [of "Suc i"] show False by (metis le_Suc_eq)
  qed
  with m show ?thesis by metis
qed

text \<open>There are such runs, from everywhere.\<close>

lemma fair_run_exists:
  fixes ts :: "('s, 'a) thread list" and s :: 's
  obtains c where "c 0 = (ts, s)" and "\<And>i. pool_step (c i) (c (Suc i)) \<or> c (Suc i) = c i" and "fair c"
proof -
  let ?next = "\<lambda>c d. if \<exists>e. pool_step c e then pool_step c d else d = c"
  have "\<forall>c :: ('s, 'a) thread list \<times> 's. \<exists>d. ?next c d"
  proof
    fix c :: "('s, 'a) thread list \<times> 's"
    show "\<exists>d. ?next c d"
      by (cases "\<exists>e. pool_step c e") (simp_all del: split_paired_Ex split_paired_All)
  qed
  from choice [OF this] obtain nxt where nxt: "\<And>c :: ('s, 'a) thread list \<times> 's. ?next c (nxt c)" by blast
  define c where "c = (\<lambda>i. (nxt ^^ i) (ts, s))"
  have step: "?next (c i) (c (Suc i))" for i unfolding c_def using nxt by simp
  have "fair c"
    unfolding fair_def
  proof (intro allI impI)
    fix m
    assume "0 < open_threads (fst (c m))"
    then have "\<exists>e. pool_step (c m) e" using open_thread_steps by (metis prod.collapse)
    with step [of m] have "pool_step (c m) (c (Suc m))" by simp
    then show "\<exists>i \<ge> m. pool_step (c i) (c (Suc i))" by blast
  qed
  have "c 0 = (ts, s)" by (simp add: c_def)
  moreover have "pool_step (c i) (c (Suc i)) \<or> c (Suc i) = c i" for i
    using step [of i] by (simp split: if_splits)
  ultimately show thesis using \<open>fair c\<close> by (rule that)
qed

section \<open>The process at rest\<close>

text \<open>What happens while no handler begins: a handler steps, or the world changes without a change to
  which Investigations there are.\<close>

inductive draining :: "'w store \<Rightarrow> ('w system, unit) thread list \<times> 'w system \<Rightarrow>
  ('w system, unit) thread list \<times> 'w system \<Rightarrow> bool" for stored :: "'w store" where
  drain_act: "pool_step c c' \<Longrightarrow> draining stored c c'"
| drain_world: "dom (stored w) = dom (stored (sy_world s)) \<Longrightarrow> draining stored (ts, s) (ts, s\<lparr>sy_world := w\<rparr>)"

lemma draining_pool: "draining stored c c' \<Longrightarrow> pool_step c c' \<or> fst c' = fst c"
  by (cases rule: draining.cases) auto

lemma draining_interleaved:
  assumes "interleaved stored W prog s0 n c" and "draining stored c c'"
  shows "interleaved stored W prog s0 n c'"
  using assms(2,1) by cases (auto intro: il_act il_world)


text \<open>The runner watcher at work on the only place of the process, run to its end.\<close>

definition one_handler :: "(cluster system, unit) thread" where
  "one_handler = on_part (er_Reconcile_thread sample_kube (fst (pr_erWatcher one_place_program)) er_key)
     (\<lambda>s. view (sy_ers s) s) put_ers"


end
