(* ===== verification/Server.thy ===== *)
theory Server
  imports Cluster Submit
begin

text \<open>
  An API server that answers: the hypothesis under which the components together get something done. It
  is stronger than \<open>kube_laws\<close>, which allows any call to fail: here a Get returns what is stored, and a
  write that has no reason to fail succeeds. The rules say what holds after each call, so that a
  handler is followed call by call.
\<close>

section \<open>What holds after an operation\<close>

definition ensures :: "('s, 'a) state \<Rightarrow> 's \<Rightarrow> ('a \<Rightarrow> 's \<Rightarrow> bool) \<Rightarrow> bool" where
  "ensures m s Q \<longleftrightarrow> (case run_state m s of (a, s') \<Rightarrow> Q a s')"

lemma ensuresD: "ensures m s Q \<Longrightarrow> run_state m s = (a, s') \<Longrightarrow> Q a s'"
  by (simp add: ensures_def)

lemma ensures_weaken: "ensures m s P \<Longrightarrow> (\<And>a s'. P a s' \<Longrightarrow> Q a s') \<Longrightarrow> ensures m s Q"
  by (auto simp: ensures_def)

lemma ensures_return [simp]: "ensures (State_Monad.return a) s Q = Q a s"
  by (simp add: ensures_def)

lemma ensures_gets [simp]: "ensures (gets f) s Q = Q (f s) s"
  by (simp add: ensures_def)

lemma ensures_modify [simp]: "ensures (modify f) s Q = Q () (f s)"
  by (simp add: ensures_def)

lemma ensures_bind [simp]:
  "ensures (State_Monad.bind m k) s Q = ensures m s (\<lambda>a s'. ensures (k a) s' Q)"
  by (simp add: ensures_def split: prod.split)

lemma ensures_outside [simp]:
  "ensures (outside m) p Q = ensures m (world p) (\<lambda>a w. Q a (p\<lparr>world := w\<rparr>))"
  by (simp add: ensures_def split: prod.split)

lemma ensures_counter [simp]:
  "ensures counter_TryIncrement p Q =
     Q (fst (TryIncrement (counter p))) (p\<lparr>counter := snd (TryIncrement (counter p))\<rparr>)"
  by (simp add: ensures_def split: prod.split)

lemmas ensures_simps = ensures_return ensures_gets ensures_modify ensures_bind ensures_outside

section \<open>The server\<close>

text \<open>\<open>up\<close> are the states of the world in which the server answers. A call that is not about
  Investigations leaves them alone.\<close>

definition quiet_call :: "'w store \<Rightarrow> ('w \<Rightarrow> bool) \<Rightarrow> ('w, 'a) state \<Rightarrow> bool" where
  "quiet_call stored up m \<longleftrightarrow>
     (\<forall>w. up w \<longrightarrow> up (snd (run_state m w)) \<and> stored (snd (run_state m w)) = stored w)"

definition get_answers :: "'w store \<Rightarrow> ('w \<Rightarrow> bool) \<Rightarrow> 'w runtime \<Rightarrow> bool" where
  "get_answers stored up K \<longleftrightarrow>
     (\<forall>k w. up w \<longrightarrow> ensures (Get_Investigation K k) w (\<lambda>r w'. up w' \<and> stored w' = stored w \<and>
        r = (case stored w k of None \<Rightarrow> Inl NotFound | Some x \<Rightarrow> Inr x)))"

text \<open>A Create of a new object stores its spec, without a status; an update stores the spec and keeps
  the status, a status update the other way round.\<close>

definition write_answers :: "'w store \<Rightarrow> ('w \<Rightarrow> bool) \<Rightarrow> (Investigation \<Rightarrow> ('w, go_error + Investigation) state) \<Rightarrow>
  (Investigation option \<Rightarrow> bool) \<Rightarrow> (Investigation option \<Rightarrow> Investigation \<Rightarrow> Investigation \<Rightarrow> bool) \<Rightarrow> bool" where
  "write_answers stored up write can answer \<longleftrightarrow>
     (\<forall>x w. let k = key_of (inv_Meta x) in up w \<longrightarrow> can (stored w k) \<longrightarrow>
        ensures (write x) w (\<lambda>r w'. up w' \<and> (\<exists>y. r = Inr y \<and> key_of (inv_Meta y) = k \<and>
          answer (stored w k) x y \<and> stored w' = (stored w)(k \<mapsto> y))))"

definition answers :: "'w store \<Rightarrow> ('w \<Rightarrow> bool) \<Rightarrow> 'w runtime \<Rightarrow> bool" where
  "answers stored up K \<longleftrightarrow>
     get_answers stored up K \<and>
     write_answers stored up (Create_Investigation K) (\<lambda>old. old = None) (\<lambda>old x y. inv_Spec y = inv_Spec x) \<and>
     write_answers stored up (Update_Investigation K) (\<lambda>old. old \<noteq> None)
       (\<lambda>old x y. inv_Spec y = inv_Spec x \<and> inv_Status y = inv_Status (the old)) \<and>
     write_answers stored up (StatusUpdate_Investigation K) (\<lambda>old. old \<noteq> None)
       (\<lambda>old x y. inv_Spec y = inv_Spec (the old) \<and> inv_Status y = inv_Status x) \<and>
     quiet_call stored up (Now K) \<and>
     (\<forall>k. quiet_call stored up (Get_Pod K k)) \<and> (\<forall>k. quiet_call stored up (Get_ER K k)) \<and> (\<forall>pod. quiet_call stored up (Update_Pod K pod)) \<and>
     (\<forall>ns l. quiet_call stored up (List_Pods K ns l)) \<and> (\<forall>ns. quiet_call stored up (List_ERs K ns)) \<and>
     quiet_call stored up (List_Configs K) \<and> (\<forall>ns n. quiet_call stored up (List_Events K ns n))"

text \<open>One rule per call.\<close>

lemma after_quiet:
  assumes "quiet_call stored up m" and "up w"
    and "\<And>a w'. up w' \<Longrightarrow> stored w' = stored w \<Longrightarrow> Q a w'"
  shows "ensures m w Q"
  using assms by (simp add: quiet_call_def ensures_def split: prod.split) (metis snd_conv)

lemma quiet_calls:
  assumes "answers stored up K"
  shows "quiet_call stored up (Now K)" "quiet_call stored up (Get_Pod K k)"
    "quiet_call stored up (Update_Pod K pod)" "quiet_call stored up (List_Events K ns n)"
    "quiet_call stored up (List_Pods K ns l)" "quiet_call stored up (List_ERs K ns)"
    "quiet_call stored up (List_Configs K)" "quiet_call stored up (Get_ER K k)"
  using assms by (simp_all add: answers_def del: split_paired_All)

text \<open>What leaves the cluster alone.\<close>

interpretation cluster_kept: step_closed "\<lambda>w w'. up w \<longrightarrow> up w' \<and> stored w' = stored w" for up and stored :: "'w store"
  by unfold_locales auto

lemma quiet_iff: "quiet_call stored up m \<longleftrightarrow> state_io_rel (\<lambda>w w'. up w \<longrightarrow> up w' \<and> stored w' = stored w) m"
  by (simp add: quiet_call_def state_io_rel_def split: prod.split)

lemma after_Get:
  assumes "answers stored up K" and "up w"
    and "\<And>w'. up w' \<Longrightarrow> stored w' = stored w \<Longrightarrow>
      Q (case stored w k of None \<Rightarrow> Inl NotFound | Some x \<Rightarrow> Inr x) w'"
  shows "ensures (Get_Investigation K k) w Q"
  using assms(1) assms(2,3) unfolding answers_def get_answers_def by (blast intro: ensures_weaken)

lemma after_write:
  assumes "write_answers stored up write can answer" and "up w" and "can (stored w (key_of (inv_Meta x)))"
    and "\<And>y w'. up w' \<Longrightarrow> key_of (inv_Meta y) = key_of (inv_Meta x) \<Longrightarrow>
      answer (stored w (key_of (inv_Meta x))) x y \<Longrightarrow>
      stored w' = (stored w)(key_of (inv_Meta x) \<mapsto> y) \<Longrightarrow> Q (Inr y) w'"
  shows "ensures (write x) w Q"
proof -
  have "ensures (write x) w (\<lambda>r w'. up w' \<and> (\<exists>y. r = Inr y \<and> key_of (inv_Meta y) = key_of (inv_Meta x) \<and>
      answer (stored w (key_of (inv_Meta x))) x y \<and> stored w' = (stored w)(key_of (inv_Meta x) \<mapsto> y)))"
    using assms(1-3) by (simp add: write_answers_def Let_def)
  then show ?thesis by (rule ensures_weaken) (use assms(4) in blast)
qed

lemma write_calls:
  assumes "answers stored up K"
  shows "write_answers stored up (Create_Investigation K) (\<lambda>old. old = None) (\<lambda>old x y. inv_Spec y = inv_Spec x)"
    and "write_answers stored up (Update_Investigation K) (\<lambda>old. old \<noteq> None)
      (\<lambda>old x y. inv_Spec y = inv_Spec x \<and> inv_Status y = inv_Status (the old))"
    and "write_answers stored up (StatusUpdate_Investigation K) (\<lambda>old. old \<noteq> None)
      (\<lambda>old x y. inv_Spec y = inv_Spec (the old) \<and> inv_Status y = inv_Status x)"
  using assms by (simp_all add: answers_def)

lemma key_of_set_phase [simp]: "key_of (inv_Meta (set_phase ph iv)) = key_of (inv_Meta iv)"
  by (simp add: set_phase_def)

text \<open>Opening an Investigation: it is stored with the spec it was given, in the phase Collecting.\<close>

lemma after_submit:
  assumes server: "answers stored up K" and "up (world p)"
    and free: "stored (world p) (key_of (inv_Meta iv)) = None"
    and Q: "\<And>y w. up w \<Longrightarrow> inv_Spec y = inv_Spec iv \<Longrightarrow> phase_of y = phaseCollecting \<Longrightarrow>
      key_of (inv_Meta y) = key_of (inv_Meta iv) \<Longrightarrow>
      stored w = (stored (world p))(key_of (inv_Meta iv) \<mapsto> y) \<Longrightarrow> Q None (p\<lparr>world := w\<rparr>)"
  shows "ensures (submit K iv) p Q"
  unfolding submit_def ensures_simps
proof (rule after_write [OF write_calls(1) [OF server] assms(2)], goal_cases)
  case 1
  show ?case by (rule free)
next
  case (2 y w')
  note created = 2
  show ?case
    unfolding sum.case ensures_simps
  proof (rule after_write [OF write_calls(3) [OF server]], goal_cases)
    case (3 z w2)
    then show ?case using created Q [of w2 z] by (simp add: phase_of_def set_phase_def)
  qed (simp_all add: created)
qed

section \<open>The cluster in memory is such a server\<close>

lemma sample_answers: "answers sample_stored (\<lambda>w. cl_down w = []) sample_kube"
  unfolding answers_def get_answers_def write_answers_def quiet_call_def Let_def
  by (auto simp: ensures_def sample_stored_def cluster_defs Let_def update_conv' key_of_def
      new_investigation_simps split: option.split)

end
