(* ===== verification/Lifecycle.thy ===== *)
theory Lifecycle
  imports Server Correlator
begin

text \<open>
  The life of an Investigation across the components: opened by the pod watcher, taken up by the
  correlator, diagnosed by the classifier. The API server answers (theory Server); what lies between
  the two handlers is anything that leaves this one Investigation alone.
\<close>

section \<open>The pod watcher opens it\<close>

text \<open>What the watcher has stored of a pod with an anomaly.\<close>

definition opened_for :: "Pod \<Rightarrow> Investigation \<Rightarrow> bool" where
  "opened_for pod iv \<longleftrightarrow>
     key_of (inv_Meta iv) = pod_inv_key pod \<and> phase_of iv = phaseCollecting \<and>
     tr_Type (sp_Trigger (inv_Spec iv)) = detectAnomaly pod \<and>
     (\<exists>h. sp_Pod (inv_Spec iv) = Some (buildPodInfo h pod)) \<and>
     sp_EphemeralRunner (inv_Spec iv) = None \<and> sp_Job (inv_Spec iv) = None \<and>
     sp_Diagnosis (inv_Spec iv) = None"

lemma new_key: "key_of (new_meta (om_Namespace (pod_Meta pod)) (pod_inv_name pod)) = pod_inv_key pod"
  by (simp add: pod_inv_key_def)

lemma after_createAnomaly:
  assumes server: "answers stored up K" and "up (world p)"
    and free: "stored (world p) (pod_inv_key pod) = None"
    and room: "ic_count (counter p) < ic_max (counter p)"
  shows "ensures (createAnomalyInvestigation K pod (detectAnomaly pod)) p (\<lambda>r p'. up (world p') \<and>
     (\<exists>iv. opened_for pod iv \<and> stored (world p') = (stored (world p))(pod_inv_key pod \<mapsto> iv)))"
proof -
  have granted: "fst (TryIncrement (counter p))"
    using room by (simp add: TryIncrement_def)
  show ?thesis
    unfolding createAnomalyInvestigation_def ensures_simps
  proof (rule after_Get [OF server assms(2)], goal_cases)
    case (1 w)
    note w = 1
    note now = after_quiet [OF quiet_calls(1) [OF server]]
    have opened: "ensures (submit K (new_investigation (new_meta (om_Namespace (pod_Meta pod)) (pod_inv_name pod))
          ((new_spec (detectAnomaly pod) src)\<lparr>sp_Pod := Some (buildPodInfo h pod), sp_Timeline := tl\<rparr>))) q
        (\<lambda>r p'. up (world p') \<and>
          (\<exists>iv. opened_for pod iv \<and> stored (world p') = (stored (world p))(pod_inv_key pod \<mapsto> iv)))"
      if "up (world q)" "stored (world q) = stored (world p)" for q src h tl
    proof (rule after_submit [OF server that(1)], goal_cases)
      case 1
      show ?case using that free by (simp add: pod_inv_key_def)
    next
      case (2 y w')
      then have "opened_for pod y" by (auto simp: opened_for_def new_spec_def pod_inv_key_def)
      with 2 that show ?case by (auto simp: pod_inv_key_def)
    qed
    from w show ?case by (auto simp: free granted intro!: now opened)
  qed
qed

text \<open>A Reconcile of a runner pod that is alive and has the finalizer.\<close>

lemma after_pod_Reconcile:
  assumes server: "answers stored up K" and "up (world p)"
    and found: "fst (run_state (Get_Pod K key) (world p)) = Inr pod"
    and runner: "label (pod_Meta pod) arcRunnerLabel = ''True''"
    and alive: "\<not> being_deleted (pod_Meta pod)" and held: "has_log_finalizer K pod"
    and anomaly: "detectAnomaly pod \<noteq> []"
    and free: "stored (world p) (pod_inv_key pod) = None"
    and room: "ic_count (counter p) < ic_max (counter p)"
  shows "ensures (pod_Reconcile K collect key) p (\<lambda>r p'. r = Inr no_requeue \<and> up (world p') \<and>
     (\<exists>iv. opened_for pod iv \<and> stored (world p') = (stored (world p))(pod_inv_key pod \<mapsto> iv)))"
proof -
  obtain w where get: "run_state (Get_Pod K key) (world p) = (Inr pod, w)"
    using found by (metis prod.collapse)
  have w: "up w" "stored w = stored (world p)"
    using quiet_calls(2) [OF server, of key] assms(2) get unfolding quiet_call_def by (metis snd_conv)+
  define p1 where "p1 = p\<lparr>world := w\<rparr>"
  have tracked: "ensures (pod_recordTransition K key pod) p1
      (\<lambda>u p2. up (world p2) \<and> stored (world p2) = stored (world p) \<and> counter p2 = counter p)"
    unfolding pod_recordTransition_def Let_def
    using w by (auto simp: p1_def intro!: after_quiet [OF quiet_calls(1) [OF server]])
  have "ensures (pod_check_anomaly K pod) p2 (\<lambda>r p'. r = Inr no_requeue \<and> up (world p') \<and>
     (\<exists>iv. opened_for pod iv \<and> stored (world p') = (stored (world p))(pod_inv_key pod \<mapsto> iv)))"
    if "up (world p2) \<and> stored (world p2) = stored (world p) \<and> counter p2 = counter p" for p2
    unfolding pod_check_anomaly_def Let_def
    using after_createAnomaly [OF server, of p2 pod] that free room anomaly
    by (auto intro: ensures_weaken)
  with tracked have "ensures (pod_recordTransition K key pod) p1 (\<lambda>u p2.
     ensures (pod_check_anomaly K pod) p2 (\<lambda>r p'. r = Inr no_requeue \<and> up (world p') \<and>
     (\<exists>iv. opened_for pod iv \<and> stored (world p') = (stored (world p))(pod_inv_key pod \<mapsto> iv))))"
    by (rule ensures_weaken)
  then show ?thesis
    using runner alive held
    by (simp add: pod_Reconcile_def ensures_def get p1_def pod_add_finalizer_def split: prod.splits)
qed

section \<open>The correlator settles it\<close>

lemma add_events_parts:
  "sp_Trigger (add_events evts sp) = sp_Trigger sp \<and> sp_EphemeralRunner (add_events evts sp) = sp_EphemeralRunner sp \<and>
   sp_Job (add_events evts sp) = sp_Job sp \<and> sp_Diagnosis (add_events evts sp) = sp_Diagnosis sp \<and>
   sp_LogPaths (add_events evts sp) = sp_LogPaths sp \<and>
   (\<forall>info. sp_Pod sp = Some info \<longrightarrow> (\<exists>evs. sp_Pod (add_events evts sp) = Some (with_events info evs)))"
proof (induction evts arbitrary: sp)
  case Nil
  show ?case by (auto simp: pod_kept)
next
  case (Cons evt evts)
  show ?case
    using Cons [of "sp\<lparr>sp_Pod := map_option (\<lambda>pod. pod\<lparr>pi_Events := pi_Events pod @ [event_snapshot evt]\<rparr>) (sp_Pod sp),
        sp_Timeline := sp_Timeline sp @ [event_entry evt]\<rparr>"]
    by (auto simp: with_events_def)
qed

text \<open>An Investigation of a pod alone: nothing names a runner or a job, so only events are looked for.\<close>

definition of_pod_alone :: "PodInfo \<Rightarrow> InvestigationSpec \<Rightarrow> bool" where
  "of_pod_alone info sp \<longleftrightarrow>
     (\<exists>evs. sp_Pod sp = Some (with_events info evs)) \<and> sp_EphemeralRunner sp = None \<and> sp_Job sp = None \<and>
     sp_Diagnosis sp = None"

lemma after_gather:
  assumes server: "answers stored up K" and "up w" and alone: "of_pod_alone info (inv_Spec iv)"
  shows "ensures (gather K g iv) w (\<lambda>iv' w'. up w' \<and> stored w' = stored w \<and> enriched iv iv' \<and>
     of_pod_alone info (inv_Spec iv'))"
proof -
  obtain evs where pod: "sp_Pod (inv_Spec iv) = Some (with_events info evs)"
    and none: "sp_EphemeralRunner (inv_Spec iv) = None" "sp_Job (inv_Spec iv) = None"
    using alone by (auto simp: of_pod_alone_def)
  have "of_pod_alone info (add_events evts (inv_Spec iv))" for evts
    using add_events_parts [of evts "inv_Spec iv"] alone by (auto simp: of_pod_alone_def)
  with pod none alone assms(2) show ?thesis
    by (auto simp: gather_def enrichFromK8s_def find_er_def find_runner_pod_def enrichFromGitHub_def
        collectPodEvents_def enriched_refl split: option.split sum.split
        intro!: after_quiet [OF quiet_calls(4) [OF server]] enriched_map_spec richer_add_events)
qed

lemma opened_alone:
  assumes "opened_for pod iv"
  shows "\<exists>h. of_pod_alone (buildPodInfo h pod) (inv_Spec iv)"
  using assms pod_kept unfolding opened_for_def of_pod_alone_def by metis

text \<open>What is stored when a Reconcile is over; \<open>P\<close> is what is known of the gathered evidence.\<close>

definition settled_from :: "(InvestigationSpec \<Rightarrow> bool) \<Rightarrow> Investigation \<Rightarrow> Investigation \<Rightarrow> bool" where
  "settled_from P iv iv' \<longleftrightarrow>
     key_of (inv_Meta iv') = key_of (inv_Meta iv) \<and> phase_of iv' = phaseComplete \<and>
     sp_Trigger (inv_Spec iv') = sp_Trigger (inv_Spec iv) \<and>
     sp_LogPaths (inv_Spec iv') = sp_LogPaths (inv_Spec iv) \<and>
     (\<exists>sp. richer (inv_Spec iv) sp \<and> P sp \<and> sp_Pod (inv_Spec iv') = sp_Pod sp \<and> sp_Job (inv_Spec iv') = sp_Job sp \<and>
        sp_Diagnosis (inv_Spec iv') = Some (settled sp))"

lemma after_corr_Reconcile:
  assumes server: "answers stored up K" and "up w"
    and "stored w (key_of (inv_Meta iv)) = Some iv" and "phase_of iv = phaseCollecting"
    and gathered: "\<And>w. up w \<Longrightarrow> ensures (gather K g iv) w (\<lambda>iv' w'. up w' \<and> stored w' = stored w \<and>
      enriched iv iv' \<and> P (inv_Spec iv'))"
  shows "ensures (corr_Reconcile K g srt (key_of (inv_Meta iv))) w (\<lambda>r w'. r = Inr no_requeue \<and> up w' \<and>
     (\<exists>iv'. settled_from P iv iv' \<and> stored w' = (stored w)(key_of (inv_Meta iv) \<mapsto> iv')))"
proof -
  let ?k = "key_of (inv_Meta iv)"
  have saved: "ensures (save K ?k (conclude srt iv1)) w1 (\<lambda>r w'. r = Inr no_requeue \<and> up w' \<and>
     (\<exists>iv'. settled_from P iv iv' \<and> stored w' = (stored w)(?k \<mapsto> iv')))"
    if w1: "up w1" "stored w1 = stored w" and iv1: "enriched iv iv1" "P (inv_Spec iv1)" for iv1 w1
    unfolding save_def ensures_simps
  proof (rule after_write [OF write_calls(2) [OF server] w1(1)], goal_cases)
    case 1
    show ?case using assms(3) iv1 by (simp add: w1 conclude_parts enriched_def)
  next
    case (2 y w2)
    note updated = 2
    have meta: "inv_Meta iv1 = inv_Meta iv" using iv1 by (simp add: enriched_def)
    show ?case
      unfolding sum.case ensures_simps
    proof (rule after_Get [OF server updated(1)], simp add: updated w1 meta conclude_parts,
        rule after_write [OF write_calls(3) [OF server]], assumption, goal_cases)
      case (1 w3)
      then show ?case using updated by (simp add: meta conclude_parts w1)
    next
      case (2 w3 z w4)
      then have "settled_from P iv z"
        using updated iv1
        by (auto simp: settled_from_def enriched_def richer_def conclude_parts w1 phase_of_def set_phase_def)
      with 2 updated show ?case
        by (auto simp: conclude_parts w1 meta)
    qed
  qed
  show ?thesis
    unfolding corr_Reconcile_def ensures_simps
    by (rule after_Get [OF server assms(2)])
      (auto simp: assms(3,4) intro!: ensures_weaken [OF gathered] saved)
qed

section \<open>The verdict on a pod\<close>

text \<open>What the diagnosis of a pod should be, read off its statuses.\<close>

definition terminated_with :: "Pod \<Rightarrow> (string \<Rightarrow> int32 \<Rightarrow> bool) \<Rightarrow> bool" where
  "terminated_with pod P \<longleftrightarrow>
     (\<exists>cs \<in> set (pod_ContainerStatuses pod). \<exists>reason code. cs_Terminated cs = Some (reason, code) \<and> P reason code)"

definition pull_failing :: "Pod \<Rightarrow> bool" where
  "pull_failing pod \<longleftrightarrow> (\<exists>cs \<in> set (pod_ContainerStatuses pod).
     cs_Waiting cs \<in> {Some ''ImagePullBackOff'', Some ''ErrImagePull''})"

definition verdict :: "Pod \<Rightarrow> string" where
  "verdict pod =
     (if terminated_with pod (\<lambda>reason code. reason = reasonOOMKilled \<or> code = 137) then ''pod-oomkilled''
      else if terminated_with pod (\<lambda>reason code. code \<noteq> 0) then ''pod-crashed''
      else if pod_Phase pod = ''Terminating'' then ''pod-stuck-terminating''
      else if pod_Phase pod \<in> {''Pending'', ''Failed''} \<and> pull_failing pod then ''pod-init-timeout''
      else ''unknown'')"

lemma snapshot_with_events:
  "sp_Pod sp = Some (with_events (buildPodInfo h pod) evs) \<Longrightarrow>
   snapshot_spec sp pod (with_events (buildPodInfo h pod) evs)"
  by (simp add: snapshot_spec_def buildPodInfo_def buildPodInfoFromPod_def)

lemma settled_verdict:
  assumes alone: "of_pod_alone (buildPodInfo h pod) sp"
    and states: "\<forall>cs \<in> set (pod_ContainerStatuses pod). one_state cs"
  shows "dg_FailureType (settled sp) = verdict pod"
proof -
  obtain evs where pod: "sp_Pod sp = Some (with_events (buildPodInfo h pod) evs)"
    and none: "sp_EphemeralRunner sp = None" "sp_Job sp = None" "sp_Diagnosis sp = None"
    using alone by (auto simp: of_pod_alone_def)
  note snap = snapshot_with_events [OF pod]
  have "pi_Phase (with_events (buildPodInfo h pod) evs) = pod_Phase pod"
    using snap by (simp add: snapshot_spec_def)
  then have phase: "pod_phase_is sp ph \<longleftrightarrow> pod_Phase pod = ph" for ph
    using pod by (simp add: pod_phase_is_def)
  have evidence: "out_of_memory sp = terminated_with pod (\<lambda>reason code. reason = reasonOOMKilled \<or> code = 137)"
    "crashed sp = terminated_with pod (\<lambda>reason code. code \<noteq> 0)" "image_missing sp = pull_failing pod"
    by (simp_all add: oom_snapshot [OF snap states] crashed_snapshot [OF snap states] image_snapshot [OF snap]
        terminated_with_def pull_failing_def)
  show ?thesis
    by (simp add: settled_def none Classify_report diagnose_def evidence phase runner_phase_is_def
        job_status_is_def report_def verdict_def unknown_diagnosis_def)
qed

section \<open>From the anomaly to the diagnosis\<close>

text \<open>C2: an anomaly of a runner pod ends in its diagnosis. Take a pod that is alive, has the finalizer
  and shows an anomaly, no Investigation for it yet, a free place in the counter, and an API server
  that answers. The Reconcile of the pod watcher opens an Investigation with that anomaly as its
  trigger; when the correlator comes to it later, whatever happened to other objects in between, its
  Reconcile succeeds too and leaves the Investigation Complete, with the diagnosis that the statuses of
  the pod stand for: out of memory before crash, crash before a pull failure, and unknown only where
  the classifier has no pattern.\<close>

theorem anomaly_ends_in_its_diagnosis:
  assumes server: "answers stored up K" "up (world p)"
    and found: "fst (run_state (Get_Pod K key) (world p)) = Inr pod"
    and runner: "label (pod_Meta pod) arcRunnerLabel = ''True''"
    and alive: "\<not> being_deleted (pod_Meta pod)" "has_log_finalizer K pod"
    and anomaly: "detectAnomaly pod \<noteq> []" "\<forall>cs \<in> set (pod_ContainerStatuses pod). one_state cs"
    and free: "stored (world p) (pod_inv_key pod) = None" "ic_count (counter p) < ic_max (counter p)"
    and first: "run_state (pod_Reconcile K collect key) p = (r, p')"
    and later: "up w" "stored w (pod_inv_key pod) = stored (world p') (pod_inv_key pod)"
    and second: "run_state (corr_Reconcile K g srt (pod_inv_key pod)) w = (r', w')"
  shows "r = Inr no_requeue \<and> r' = Inr no_requeue \<and>
    (\<exists>iv d. stored w' (pod_inv_key pod) = Some iv \<and> phase_of iv = phaseComplete \<and>
       tr_Type (sp_Trigger (inv_Spec iv)) = detectAnomaly pod \<and>
       sp_Diagnosis (inv_Spec iv) = Some d \<and> dg_FailureType d = verdict pod)"
proof -
  from ensuresD [OF after_pod_Reconcile [OF server found runner alive anomaly(1) free] first]
  obtain iv where iv: "r = Inr no_requeue" "opened_for pod iv" "stored (world p') (pod_inv_key pod) = Some iv"
    by auto
  obtain h where alone: "of_pod_alone (buildPodInfo h pod) (inv_Spec iv)"
    using opened_alone [OF iv(2)] by blast
  have key: "key_of (inv_Meta iv) = pod_inv_key pod" and phase: "phase_of iv = phaseCollecting"
    and trigger: "tr_Type (sp_Trigger (inv_Spec iv)) = detectAnomaly pod"
    using iv(2) by (simp_all add: opened_for_def)
  have "stored w (key_of (inv_Meta iv)) = Some iv" using later iv(3) key by simp
  from ensuresD [OF after_corr_Reconcile [OF server(1) later(1) this phase after_gather [OF server(1) _ alone]]
      second [folded key]]
  obtain iv' where "r' = Inr no_requeue" "settled_from (of_pod_alone (buildPodInfo h pod)) iv iv'"
    "stored w' = (stored w)(pod_inv_key pod \<mapsto> iv')"
    unfolding key by blast
  with iv(1) trigger settled_verdict [OF _ anomaly(2)] show ?thesis
    by (auto simp: settled_from_def)
qed

definition crashed_pod :: Pod where
  "crashed_pod =
     \<lparr>pod_Meta = (new_meta ''ns'' ''runner'')\<lparr>
        om_Labels := [arcRunnerLabel \<mapsto> ''True''], om_Finalizers := [logCollectorFinalizer]\<rparr>,
      pod_NodeName = [], pod_InitContainers = [], pod_Containers = [''main''], pod_Phase = ''Failed'',
      pod_Conditions = [],
      pod_ContainerStatuses = [\<lparr>cs_Name = ''main'', cs_RestartCount = 0, cs_Waiting = None,
        cs_Running = False, cs_Terminated = Some (''Error'', 137)\<rparr>]\<rparr>"

theorem anomaly_ends_in_its_diagnosis_witness:
  "let p = \<lparr>counter = \<lparr>ic_count = 0, ic_max = 3\<rparr>, own = Map.empty, world = one_pod crashed_pod\<rparr>;
       w = world (snd (run_state (pod_Reconcile sample_kube (logs_of []) pod_key) p));
       w' = snd (run_state (corr_Reconcile sample_kube None insertion_sort (pod_inv_key crashed_pod)) w) in
   \<exists>iv d. sample_stored w' (pod_inv_key crashed_pod) = Some iv \<and> phase_of iv = phaseComplete \<and>
     tr_Type (sp_Trigger (inv_Spec iv)) = ''pod-crash'' \<and>
     sp_Diagnosis (inv_Spec iv) = Some d \<and> dg_FailureType d = ''pod-oomkilled''"
proof -
  let ?p = "\<lparr>counter = \<lparr>ic_count = 0, ic_max = 3\<rparr>, own = Map.empty, world = one_pod crashed_pod\<rparr>
    :: cluster pw"
  let ?r = "run_state (pod_Reconcile sample_kube (logs_of []) pod_key) ?p"
  let ?w = "world (snd ?r)"
  let ?s = "run_state (corr_Reconcile sample_kube None insertion_sort (pod_inv_key crashed_pod)) ?w"
  have up: "cl_down (world ?p) = []" by (simp add: one_pod_def empty_cluster_def)
  have found: "fst (run_state (Get_Pod sample_kube pod_key) (world ?p)) = Inr crashed_pod"
    by (simp add: one_pod_def empty_cluster_def cluster_defs crashed_pod_def pod_key_def key_of_def new_meta_def)
  have pod: "label (pod_Meta crashed_pod) arcRunnerLabel = ''True''" "\<not> being_deleted (pod_Meta crashed_pod)"
    "has_log_finalizer sample_kube crashed_pod"
    by (simp_all add: crashed_pod_def label_def being_deleted_def has_log_finalizer_def new_meta_def)
  have bad: "detectAnomaly crashed_pod = ''pod-crash''" "\<forall>cs \<in> set (pod_ContainerStatuses crashed_pod). one_state cs"
    "verdict crashed_pod = ''pod-oomkilled''"
    by (simp_all add: detectAnomaly_def crashed_pod_def one_state_def verdict_def terminated_with_def
        reasonOOMKilled_def)
  have free: "sample_stored (world ?p) (pod_inv_key crashed_pod) = None" "ic_count (counter ?p) < ic_max (counter ?p)"
    by (simp_all add: sample_stored_def one_pod_def empty_cluster_def)
  have anomaly: "detectAnomaly crashed_pod \<noteq> []" using bad(1) by simp
  from ensuresD [OF after_pod_Reconcile [OF sample_answers up found pod anomaly free], of "logs_of []" "fst ?r" "snd ?r"]
  have later: "cl_down ?w = []" by simp
  from anomaly_ends_in_its_diagnosis [OF sample_answers up found pod anomaly bad(2) free _ later refl,
      of "logs_of []" "fst ?r" None insertion_sort "fst ?s" "snd ?s"]
  show ?thesis unfolding Let_def bad by simp
qed

end
