(* ===== verification/RunnerLifecycle.thy ===== *)
theory RunnerLifecycle
  imports Lifecycle ERWatcher
begin

text \<open>
  The life of the Investigation of a runner: opened by the runner watcher when the tolerated time is
  over, taken up by the correlator, which looks for the pod of the runner and its job on GitHub,
  and diagnosed. The cluster answers; GitHub may answer anything or nothing.
\<close>

section \<open>Gathering any evidence\<close>

definition client_quiet :: "'w store \<Rightarrow> ('w \<Rightarrow> bool) \<Rightarrow> 'w GHClient \<Rightarrow> bool" where
  "client_quiet stored up g \<longleftrightarrow>
     (\<forall>owner repo opts. quiet_call stored up (gh_ListWorkflowRuns g owner repo opts)) \<and>
     (\<forall>owner repo i. quiet_call stored up (gh_ListJobsForRun g owner repo i))"

lemma gather_quiet:
  assumes server: "answers stored up K" and client: "\<And>c. g = Some c \<Longrightarrow> client_quiet stored up c"
  shows "quiet_call stored up (gather K g iv)"
proof -
  note calls = quiet_calls [OF server, unfolded quiet_iff]
  note rules = cluster_kept.io_rules calls
  have k8s: "state_io_rel (\<lambda>w w'. up w \<longrightarrow> up w' \<and> stored w' = stored w) (enrichFromK8s K iv)" for iv
    unfolding enrichFromK8s_def find_er_def find_runner_pod_def by (intro rules)
  have github: "state_io_rel (\<lambda>w w'. up w \<longrightarrow> up w' \<and> stored w' = stored w) (enrichFromGitHub K c iv)"
    if "g = Some c" for c iv
    using client [OF that] unfolding client_quiet_def quiet_iff enrichFromGitHub_def search_repo_def search_run_def
      case_prod_beta
    by (intro rules) auto
  have events: "state_io_rel (\<lambda>w w'. up w \<longrightarrow> up w' \<and> stored w' = stored w) (collectPodEvents K iv)" for iv
    unfolding collectPodEvents_def by (intro rules)
  show ?thesis
    unfolding quiet_iff gather_def case_prod_beta by (intro rules k8s github events)
qed

lemma after_any_gather:
  assumes "answers stored up K" and "\<And>c. g = Some c \<Longrightarrow> client_quiet stored up c" and "up w"
  shows "ensures (gather K g iv) w (\<lambda>iv' w'. up w' \<and> stored w' = stored w \<and> enriched iv iv' \<and> True)"
  using gather_quiet [of stored up K g iv] gather_enriches [of K g iv] assms
  by (simp add: ensures_def quiet_call_def returns_def split: prod.split) (metis fst_conv snd_conv)

section \<open>The runner watcher opens it\<close>

definition opened_for_runner :: "Unstructured \<Rightarrow> Investigation \<Rightarrow> bool" where
  "opened_for_runner er iv \<longleftrightarrow>
     key_of (inv_Meta iv) = er_inv_key er \<and> phase_of iv = phaseCollecting \<and>
     tr_Type (sp_Trigger (inv_Spec iv)) = ''runner-stuck'' \<and>
     (\<exists>info. sp_EphemeralRunner (inv_Spec iv) = Some info \<and> er_Phase info = er_phase er) \<and>
     sp_Diagnosis (inv_Spec iv) = None"

lemma after_er_create:
  assumes server: "answers stored up K" and "up (world p)"
    and free: "stored (world p) (er_inv_key er) = None"
    and room: "ic_count (counter p) < ic_max (counter p)"
  shows "ensures (er_createInvestigation K er ''runner-stuck'' (er_phase er)) p (\<lambda>r p'. r = None \<and> up (world p') \<and>
     (\<exists>iv. opened_for_runner er iv \<and> stored (world p') = (stored (world p))(er_inv_key er \<mapsto> iv)))"
proof -
  have granted: "fst (TryIncrement (counter p))"
    using room by (simp add: TryIncrement_def)
  have key: "key_of (inv_Meta (er_new_investigation h now er t ph)) = er_inv_key er" for h now t ph
    by (simp add: er_new_investigation_def Let_def er_inv_key_def)
  have opened: "ensures (submit K (er_new_investigation h now er ''runner-stuck'' (er_phase er))) q
      (\<lambda>r p'. r = None \<and> up (world p') \<and>
        (\<exists>iv. opened_for_runner er iv \<and> stored (world p') = (stored (world p))(er_inv_key er \<mapsto> iv)))"
    if "up (world q)" "stored (world q) = stored (world p)" for q h now
  proof (rule after_submit [OF server that(1)], unfold key, goal_cases)
    case 1
    show ?case using that free by simp
  next
    case (2 y w)
    then have "opened_for_runner er y"
      by (auto simp: opened_for_runner_def er_new_investigation_def Let_def new_spec_def)
    with 2 that show ?case by auto
  qed
  show ?thesis
    unfolding er_createInvestigation_def ensures_simps
    by (rule after_Get [OF server assms(2)])
      (auto simp: free granted intro!: after_quiet [OF quiet_calls(1) [OF server]] opened)
qed

text \<open>A Reconcile of a runner whose tolerated time is over; \<open>t\<close> is its tracker once the phase is recorded.\<close>

definition overdue :: "EphemeralRunnerWatcher \<Rightarrow> Unstructured \<Rightarrow> erTracker \<Rightarrow> time \<Rightarrow> bool" where
  "overdue r er t now \<longleftrightarrow>
     (\<exists>since. er_since er t = Some since \<and> \<not> Sub now since < er_tolerated r er)"

lemma run_er_record:
  assumes "reads_clock K clk"
  shows "run_state (er_recordTransition K key phase) p =
    ((), p\<lparr>own := (own p)(key \<mapsto> observe_er phase (clk (world p)) (clk (world p)) (er_tracker_of (own p) key))\<rparr>)"
  by (cases p) (auto simp: er_recordTransition_def observe_er_def Let_def reads_clockD [OF assms])

lemma after_er_Reconcile:
  assumes server: "answers stored up K" "reads_clock K clk" and "up w"
    and world: "world p = w0" "run_state (Get_ER K key) w0 = (Inr er, w)"
    and due: "overdue r er (observe_er (er_phase er) (clk w) (clk w) (er_tracker_of (own p) key)) (clk w)"
    and free: "stored w (er_inv_key er) = None"
    and room: "ic_count (counter p) < ic_max (counter p)"
  shows "ensures (er_Reconcile K r key) p (\<lambda>res p'. res = Inr no_requeue \<and> up (world p') \<and>
     (\<exists>iv. opened_for_runner er iv \<and> stored (world p') = (stored w)(er_inv_key er \<mapsto> iv)))"
proof -
  let ?t = "observe_er (er_phase er) (clk w) (clk w) (er_tracker_of (own p) key)"
  let ?p = "p\<lparr>own := (own p)(key \<mapsto> ?t), world := w\<rparr>"
  have create: "ensures (er_createInvestigation K er ''runner-stuck'' (er_phase er)) ?p (\<lambda>e p'. e = None \<and> up (world p') \<and>
     (\<exists>iv. opened_for_runner er iv \<and> stored (world p') = (stored w)(er_inv_key er \<mapsto> iv)))"
    using after_er_create [OF server(1), of ?p er] \<open>up w\<close> free room by simp
  have clock: "ensures (Now K) v Q = Q (clk v) v" for v Q
    by (simp add: ensures_def reads_clockD [OF server(2)])
  have phase: "er_phase er = ''Failed'' \<or> er_phase er = ''Running''"
    using due by (auto simp: overdue_def er_since_def split: if_splits)
  then have "ensures (if er_phase er = ''Failed'' then handleFailed K r er (er_phase er)
      else if er_phase er = ''Running'' then handleRunning K r key er (er_phase er) else ret (Inr no_requeue)) ?p
     (\<lambda>res p'. res = Inr no_requeue \<and> up (world p') \<and>
       (\<exists>iv. opened_for_runner er iv \<and> stored (world p') = (stored w)(er_inv_key er \<mapsto> iv)))"
    using due create
    by (auto simp: handleFailed_def handleRunning_def Let_def clock overdue_def er_since_def er_tolerated_def result_of_def
        elim!: ensures_weaken)
  with phase show ?thesis
    using world by (auto simp: er_Reconcile_def ensures_def Let_def run_er_record [OF server(2)]
        er_phase_def [symmetric] split: prod.splits)
qed

section \<open>From the stuck runner to the diagnosis\<close>

text \<open>The diagnoses a stuck runner can get: the one its phase stands for, unless its pod tells more.\<close>

definition runner_verdicts :: "Unstructured \<Rightarrow> string set" where
  "runner_verdicts er =
     {''pod-oomkilled'', ''pod-crashed'', ''pod-stuck-terminating'', ''pod-init-timeout'',
      if er_phase er = ''Running'' then ''runner-stuck-running'' else ''runner-stuck-failed''}"

lemma settled_runner:
  assumes "opened_for_runner er iv" and "er_phase er \<in> {''Failed'', ''Running''}" and "richer (inv_Spec iv) sp"
  shows "dg_FailureType (settled sp) \<in> runner_verdicts er"
    and "sp_Pod sp = None \<Longrightarrow> dg_FailureType (settled sp) =
      (if er_phase er = ''Running'' then ''runner-stuck-running'' else ''runner-stuck-failed'')"
proof -
  obtain info where "sp_EphemeralRunner sp = Some info" "er_Phase info = er_phase er"
    and sp: "tr_Type (sp_Trigger sp) = ''runner-stuck''" "sp_Diagnosis sp = None"
    using assms(1,3) by (auto simp: opened_for_runner_def richer_def)
  then have phase: "runner_phase_is sp ph \<longleftrightarrow> er_phase er = ph" for ph
    by (simp add: runner_phase_is_def)
  show "dg_FailureType (settled sp) \<in> runner_verdicts er"
    using assms(2)
    by (auto simp: settled_def sp Classify_report diagnose_def phase report_def runner_verdicts_def)
  assume "sp_Pod sp = None"
  then show "dg_FailureType (settled sp) =
      (if er_phase er = ''Running'' then ''runner-stuck-running'' else ''runner-stuck-failed'')"
    using assms(2)
    by (auto simp: settled_def sp Classify_report diagnose_def phase report_def out_of_memory_def
        crashed_def exited_def pod_phase_is_def image_missing_def)
qed



end
