(* ===== verification/JobLifecycle.thy ===== *)
theory JobLifecycle
  imports RunnerLifecycle System
begin

text \<open>
  The life of the Investigation of a job: GitHub lists a job that waits in the queue for too long, a
  poll goes through its four nested loops and opens an Investigation, the correlator takes it up and it
  is diagnosed. Of the rest of the poll, before and after this job, nothing is assumed but that
  the server answers: other runs and other jobs may be listed or fail to be listed.
\<close>

section \<open>What a poll may do\<close>

text \<open>What is stored for a job when it is reported, and what a part of a poll changes.\<close>

definition opened_for_job :: "NamespacedName \<Rightarrow> Investigation \<Rightarrow> bool" where
  "opened_for_job k iv \<longleftrightarrow>
     key_of (inv_Meta iv) = k \<and> phase_of iv = phaseCollecting \<and>
     tr_Type (sp_Trigger (inv_Spec iv)) = ''job-stuck-queued'' \<and>
     sp_Pod (inv_Spec iv) = None \<and> sp_EphemeralRunner (inv_Spec iv) = None \<and>
     sp_Diagnosis (inv_Spec iv) = None \<and>
     (\<exists>ns job. k = gh_inv_key ns job \<and> sp_Job (inv_Spec iv) = Some (job_info job) \<and>
        job_Status job = ''queued'')"

definition poll_step :: "'w store \<Rightarrow> ('w \<Rightarrow> bool) \<Rightarrow> 'w ghp \<Rightarrow> 'w ghp \<Rightarrow> bool" where
  "poll_step stored up p p' \<longleftrightarrow>
     (up (world p) \<and> counter_ok (counter p) \<longrightarrow>
        up (world p') \<and> counter_ok (counter p') \<and>
        ic_max (counter p') = ic_max (counter p) \<and> ic_count (counter p) \<le> ic_count (counter p') \<and>
        (\<forall>k. stored (world p') k = stored (world p) k \<or>
           stored (world p) k = None \<and> (\<exists>iv. stored (world p') k = Some iv \<and> opened_for_job k iv)))"

lemma poll_step_trans:
  assumes "poll_step stored up p q" and "poll_step stored up q r"
  shows "poll_step stored up p r"
  using assms unfolding poll_step_def by (metis option.distinct(1) order_trans)

interpretation polled: step_closed "poll_step stored up" for stored :: "'w store" and up
  by unfold_locales (simp add: poll_step_def, rule poll_step_trans)

lemma poll_step_outside: "quiet_call stored up m \<Longrightarrow> state_io_rel (poll_step stored up) (outside m)"
  by (auto simp: quiet_call_def poll_step_def state_io_rel_def split: prod.splits)

section \<open>The job is reported\<close>

text \<open>What a check of an overdue job reaches: its Investigation is there, or there is no place for it.\<close>

definition reported :: "'w store \<Rightarrow> NamespacedName \<Rightarrow> 'w ghp \<Rightarrow> bool" where
  "reported stored k p \<longleftrightarrow> stored (world p) k \<noteq> None \<or> ic_max (counter p) \<le> ic_count (counter p)"

lemma reported_stays:
  assumes "reported stored k p" and "poll_step stored up p p'" and "up (world p)" "counter_ok (counter p)"
  shows "reported stored k p'"
  using assms unfolding poll_step_def reported_def by (metis order_trans)

definition reports :: "'w store \<Rightarrow> ('w \<Rightarrow> bool) \<Rightarrow> NamespacedName \<Rightarrow> ('w ghp, 'a) state \<Rightarrow> bool" where
  "reports stored up k m \<longleftrightarrow>
     (\<forall>p. up (world p) \<and> counter_ok (counter p) \<longrightarrow> reported stored k (snd (run_state m p)))"

lemma reports_bind_left:
  fixes stored :: "'w store"
  assumes "reports stored up k m" and "state_io_rel (poll_step stored up) m"
    and "\<And>a. state_io_rel (poll_step stored up) (f a)"
  shows "reports stored up k (State_Monad.bind m f)"
  unfolding reports_def
proof (intro allI impI)
  fix p :: "'w ghp"
  assume p: "up (world p) \<and> counter_ok (counter p)"
  obtain a q where m: "run_state m p = (a, q)" by (meson surj_pair)
  have "reported stored k q" and q: "up (world q)" "counter_ok (counter q)"
    using assms(1) state_io_rel_run [OF assms(2), of p] p m by (auto simp: reports_def poll_step_def)
  then show "reported stored k (snd (run_state (State_Monad.bind m f) p))"
    using reported_stays [OF _ state_io_rel_run [OF assms(3) [of a], of q] q] m by simp
qed

lemma reports_bind_right:
  fixes stored :: "'w store"
  assumes "state_io_rel (poll_step stored up) m" and "\<And>a. reports stored up k (f a)"
  shows "reports stored up k (State_Monad.bind m f)"
  unfolding reports_def
proof (intro allI impI)
  fix p :: "'w ghp"
  assume p: "up (world p) \<and> counter_ok (counter p)"
  obtain a q where m: "run_state m p = (a, q)" by (meson surj_pair)
  have "up (world q)" "counter_ok (counter q)"
    using state_io_rel_run [OF assms(1), of p] p m by (auto simp: poll_step_def)
  then show "reported stored k (snd (run_state (State_Monad.bind m f) p))"
    using assms(2) [of a] m by (simp add: reports_def)
qed

lemma reports_for_each:
  assumes "x \<in> set xs" and "reports stored up k (f x)" and "\<And>y. state_io_rel (poll_step stored up) (f y)"
  shows "reports stored up k (for_each f xs)"
  using assms(1)
proof (induction xs)
  case (Cons y ys)
  show ?case
  proof (cases "y = x")
    case True
    then show ?thesis
      using assms by (auto intro!: reports_bind_left polled.io_for_each)
  next
    case False
    with Cons assms(3) show ?thesis by (auto intro!: reports_bind_right)
  qed
qed simp

text \<open>A loop over what a call lists, where the call lists \<open>x\<close> in every state.\<close>

definition always_lists :: "('w \<Rightarrow> bool) \<Rightarrow> ('w, go_error + 'a list) state \<Rightarrow> 'a \<Rightarrow> bool" where
  "always_lists up m x \<longleftrightarrow> (\<forall>w. up w \<longrightarrow> (\<exists>xs. fst (run_state m w) = Inr xs \<and> x \<in> set xs))"

lemma reports_listed:
  fixes stored :: "'w store"
  assumes "quiet_call stored up m" and "always_lists up m x"
    and "\<And>xs. x \<in> set xs \<Longrightarrow> reports stored up k (h (Inr xs))"
  shows "reports stored up k (State_Monad.bind (outside m) h)"
  unfolding reports_def
proof (intro allI impI)
  fix p :: "'w ghp"
  assume p: "up (world p) \<and> counter_ok (counter p)"
  obtain xs w where m: "run_state m (world p) = (Inr xs, w)" and x: "x \<in> set xs"
    using assms(2) p unfolding always_lists_def by (metis prod.collapse)
  have "up w" using assms(1) p m unfolding quiet_call_def by (metis snd_conv)
  with p m assms(3) [OF x] show "reported stored k (snd (run_state (State_Monad.bind (outside m) h) p))"
    by (simp add: reports_def)
qed

section \<open>Through the loops of a poll\<close>

lemma job_key: "key_of (inv_Meta (gh_new_investigation owner repo ns now run job t)) = gh_inv_key ns job"
  by (simp add: gh_new_investigation_def Let_def gh_inv_key_def)

lemma after_createJob:
  assumes server: "answers stored up K" and "up (world p)" "counter_ok (counter p)" and "job_Status job = ''queued''"
  shows "ensures (createJobInvestigation K owner repo ns run job ''job-stuck-queued'') p (\<lambda>r p'.
    poll_step stored up p p' \<and> reported stored (gh_inv_key ns job) p')"
proof -
  let ?k = "gh_inv_key ns job"
  have opened: "ensures (submit K (gh_new_investigation owner repo ns now run job ''job-stuck-queued'')) q
      (\<lambda>r p'. poll_step stored up p p' \<and> reported stored ?k p')"
    if "up (world q)" "stored (world q) = stored (world p)" "stored (world p) ?k = None"
      "counter q = snd (TryIncrement (counter p))" for q now
  proof (rule after_submit [OF server that(1)], unfold job_key, goal_cases)
    case 1
    show ?case using that by simp
  next
    case (2 y w)
    then have "opened_for_job ?k y"
      using assms(4) by (auto simp: opened_for_job_def gh_new_investigation_def Let_def new_spec_def)
    with 2 that assms(3) show ?case
      by (auto simp: poll_step_def reported_def TryIncrement_count counter_ok_TryIncrement)
  qed
  have idle: "poll_step stored up p q"
    if "up (world q)" "stored (world q) = stored (world p)" "counter q \<in> {counter p, snd (TryIncrement (counter p))}" for q
    using that assms(3) by (auto simp: poll_step_def TryIncrement_count counter_ok_TryIncrement)
  have there: "reported stored ?k q"
    if "stored (world q) = stored (world p)" "stored (world p) ?k \<noteq> None \<or> \<not> fst (TryIncrement (counter p))"
      "counter q = snd (TryIncrement (counter p)) \<or> stored (world p) ?k \<noteq> None" for q
    using that assms(3) by (auto simp: reported_def TryIncrement_fst TryIncrement_count)
  show ?thesis
    unfolding createJobInvestigation_def ensures_simps
    by (rule after_Get [OF server assms(2)])
      (auto split: option.split intro!: after_quiet [OF quiet_calls(1) [OF server]] opened idle there)
qed

lemma check_steps:
  assumes server: "answers stored up K"
  shows "state_io_rel (poll_step stored up) (checkJob K q owner repo ns run job)"
proof -
  have "state_io_rel (poll_step stored up) (createJobInvestigation K owner repo ns run job ''job-stuck-queued'')"
    if "job_Status job = ''queued''"
  proof (rule state_io_relI)
    fix r p p'
    assume run: "run_state (createJobInvestigation K owner repo ns run job ''job-stuck-queued'') p = (r, p')"
    show "poll_step stored up p p'"
    proof (cases "up (world p) \<and> counter_ok (counter p)")
      case True
      then show ?thesis
        using ensuresD [OF after_createJob [OF server _ _ that] run] by simp
    next
      case False
      then show ?thesis by (auto simp: poll_step_def)
    qed
  qed
  then show ?thesis
    unfolding checkJob_def
    by (intro polled.io_rules poll_step_outside quiet_calls [OF server]) simp_all
qed

lemma check_reports:
  assumes server: "answers stored up K" "reads_clock K clk" and job: "job_Status job = ''queued''" "\<not> IsZero (job_StartedAt job)"
    and due: "\<And>w. up w \<Longrightarrow> queuedThresh q < Sub (clk w) (job_StartedAt job)"
  shows "reports stored up (gh_inv_key ns job) (checkJob K q owner repo ns run job)"
  unfolding reports_def
proof (intro allI impI)
  fix p :: "'a ghp"
  assume "up (world p) \<and> counter_ok (counter p)"
  with after_createJob [OF server(1) _ _ job(1), of p owner repo ns run] due [of "world p"] job
  show "reported stored (gh_inv_key ns job) (snd (run_state (checkJob K q owner repo ns run job) p))"
    by (simp add: checkJob_def reads_clockD [OF server(2)] ensures_def split: prod.splits)
qed

text \<open>What is assumed of a job that waits: in every state in which the server answers, the config, the
  run and the job itself are listed, the quota is not used up, and the tolerated time is over.\<close>

definition job_waits :: "('w \<Rightarrow> bool) \<Rightarrow> ('w \<Rightarrow> time) \<Rightarrow> 'w runtime \<Rightarrow> 'w GHClient \<Rightarrow> GitHubPoller \<Rightarrow>
    DetectiveConfig \<Rightarrow> RepositoryRef \<Rightarrow> WorkflowRun \<Rightarrow> Job \<Rightarrow> bool" where
  "job_waits up clk K g q config repo run job \<longleftrightarrow>
     (\<forall>w. up w \<longrightarrow> \<not> fst (run_state (gh_IsRateLimited g) w)) \<and>
     always_lists up (List_Configs K) config \<and> repo \<in> set (dc_Repositories (cfg_Spec config)) \<and>
     (\<exists>status \<in> {''in_progress'', ''queued''}.
        always_lists up (gh_ListWorkflowRuns g (rr_Owner repo) (rr_Name repo) \<lparr>lo_Status = status\<rparr>) run) \<and>
     always_lists up (gh_ListJobsForRun g (rr_Owner repo) (rr_Name repo) (run_ID run)) job \<and>
     job_Status job = ''queued'' \<and> \<not> IsZero (job_StartedAt job) \<and>
     (\<forall>w. up w \<longrightarrow> queuedThresh q < Sub (clk w) (job_StartedAt job))"

lemma poll_reports:
  fixes stored :: "'w store"
  assumes server: "answers stored up K" "reads_clock K clk"
    and client: "client_quiet stored up g" "quiet_call stored up (gh_IsRateLimited g)"
    and waits: "job_waits up clk K g q config repo run job"
  shows "state_io_rel (poll_step stored up) (poll K g q)"
    and "reports stored up (gh_inv_key (om_Namespace (cfg_Meta config)) job) (poll K g q)"
proof -
  let ?k = "gh_inv_key (om_Namespace (cfg_Meta config)) job"
  have listing: "quiet_call stored up (gh_ListWorkflowRuns g owner name opts)"
    "quiet_call stored up (gh_ListJobsForRun g owner name i)" for owner name opts i
    using client(1) by (simp_all add: client_quiet_def)
  note quiet = quiet_calls(7) [OF server(1)] listing client(2)
  have run_steps: "state_io_rel (poll_step stored up) (pollRun K g q owner name ns r)" for owner name ns r
    unfolding pollRun_def by (intro polled.io_rules poll_step_outside quiet check_steps [OF server(1)])
  have repo_steps: "state_io_rel (poll_step stored up) (pollRepo K g q owner name ns)" for owner name ns
    unfolding pollRepo_def by (intro polled.io_rules poll_step_outside quiet run_steps)
  show "state_io_rel (poll_step stored up) (poll K g q)"
    unfolding poll_def by (intro polled.io_rules poll_step_outside quiet repo_steps)
  let ?ns = "om_Namespace (cfg_Meta config)"
  have run: "reports stored up ?k (pollRun K g q (rr_Owner repo) (rr_Name repo) ?ns run)"
    unfolding pollRun_def
    by (rule reports_listed [where x = job])
      (use waits in \<open>auto simp: job_waits_def intro!: quiet reports_for_each [where x = job] check_steps check_reports server\<close>)
  obtain status where status: "status \<in> set [''in_progress'', ''queued'']"
    "always_lists up (gh_ListWorkflowRuns g (rr_Owner repo) (rr_Name repo) \<lparr>lo_Status = status\<rparr>) run"
    using waits by (auto simp: job_waits_def)
  have visited: "reports stored up ?k (pollRepo K g q (rr_Owner repo) (rr_Name repo) ?ns)"
    unfolding pollRepo_def
  proof (rule reports_for_each [OF status(1)], goal_cases)
    case 1
    show ?case
      by (rule reports_listed [where x = run, OF listing(1) status(2)])
        (simp add: reports_for_each [where x = run] run run_steps)
  next
    case (2 y)
    show ?case by (intro polled.io_rules poll_step_outside quiet run_steps)
  qed
  define body where "body = (do {
       r \<leftarrow> outside (List_Configs K);
       (case r of
          Inl err \<Rightarrow> ret (Some (Wrapped ''listing DetectiveConfigs'' err))
        | Inr configs \<Rightarrow> do {
            for_each (\<lambda>config. for_each (\<lambda>repo.
                pollRepo K g q (rr_Owner repo) (rr_Name repo) (om_Namespace (cfg_Meta config)))
              (dc_Repositories (cfg_Spec config))) configs;
            ret None
          })
     })"
  have listed: "reports stored up ?k body"
    unfolding body_def
  proof (rule reports_listed [where x = config, OF quiet(1)], goal_cases)
    case 1
    show ?case using waits by (simp add: job_waits_def)
  next
    case (2 configs)
    have "repo \<in> set (dc_Repositories (cfg_Spec config))" using waits by (simp add: job_waits_def)
    then have "reports stored up ?k (for_each (\<lambda>repo. pollRepo K g q (rr_Owner repo) (rr_Name repo) ?ns)
        (dc_Repositories (cfg_Spec config)))"
      by (rule reports_for_each) (rule visited, rule repo_steps)
    then have "reports stored up ?k (for_each (\<lambda>config. for_each (\<lambda>repo.
        pollRepo K g q (rr_Owner repo) (rr_Name repo) (om_Namespace (cfg_Meta config)))
        (dc_Repositories (cfg_Spec config))) configs)"
      by (intro reports_for_each [OF 2] polled.io_for_each repo_steps)
    then show ?case
      unfolding sum.case by (intro reports_bind_left polled.io_rules repo_steps)
  qed
  show "reports stored up ?k (poll K g q)"
    unfolding reports_def
  proof (intro allI impI)
    fix p :: "'w ghp"
    assume p: "up (world p) \<and> counter_ok (counter p)"
    obtain limited w where ask: "run_state (gh_IsRateLimited g) (world p) = (limited, w)" by (meson surj_pair)
    have "up w" using client(2) [unfolded quiet_call_def, rule_format, of "world p"] p ask by simp
    have "\<not> fst (run_state (gh_IsRateLimited g) (world p))" using waits p by (simp add: job_waits_def)
    with ask have "run_state (gh_IsRateLimited g) (world p) = (False, w)" by simp
    moreover have "poll K g q = do { limited \<leftarrow> outside (gh_IsRateLimited g); if limited then ret None else body }"
      unfolding poll_def body_def by (rule refl)
    moreover have "reported stored ?k (snd (run_state body (p\<lparr>world := w\<rparr>)))"
      using listed [unfolded reports_def, rule_format, of "p\<lparr>world := w\<rparr>"] p \<open>up w\<close> by simp
    ultimately show "reported stored ?k (snd (run_state (poll K g q) p))" by simp
  qed
qed

section \<open>From the waiting job to the diagnosis\<close>

definition without_runner :: "Investigation \<Rightarrow> bool" where
  "without_runner iv \<longleftrightarrow> (\<exists>ji. sp_Job (inv_Spec iv) = Some ji \<and> ji_RunnerName ji = [])"

lemma after_job_gather:
  assumes server: "answers stored up K" and client: "\<And>c. g = Some c \<Longrightarrow> client_quiet stored up c" and "up w"
    and opened: "opened_for_job k iv"
  shows "ensures (gather K g iv) w (\<lambda>iv' w'. up w' \<and> stored w' = stored w \<and> enriched iv iv' \<and>
    (without_runner iv \<longrightarrow> inv_Spec iv' = inv_Spec iv))"
proof (cases "without_runner iv")
  case True
  then have "gather K g iv = ret iv"
    using opened by (auto simp: gather_def enrichFromK8s_def find_er_def find_runner_pod_def without_runner_def
        opened_for_job_def split: option.split)
  with \<open>up w\<close> show ?thesis by (simp add: enriched_refl)
next
  case False
  with after_any_gather [OF server client \<open>up w\<close>, where g = g] show ?thesis by simp
qed

lemma settled_job:
  assumes "opened_for_job k iv"
  shows "dg_FailureType (settled (inv_Spec iv)) = ''job-stuck-queued''"
  using assms
  by (auto simp: opened_for_job_def settled_def Classify_report diagnose_def evidence_defs report_def job_info_def)

text \<open>C4: a job that waits ends in its diagnosis. Take a job that GitHub lists as queued for longer than
  tolerated, in a run of a repository of some DetectiveConfig, no Investigation for it yet, and an API server
  that answers. Wherever in the lists of a poll it stands, either the poll uses up the places in the counter, or
  it opens an Investigation for the id of the job; when the correlator comes to that later, whatever
  happened to other objects in between, it leaves it Complete and with a diagnosis, which is
  job-stuck-queued when GitHub names no runner for the queued job.\<close>

theorem waiting_job_ends_in_its_diagnosis:
  assumes server: "answers stored up K" "reads_clock K clk" "up (world p)" "counter_ok (counter p)"
    and client: "client_quiet stored up c" "quiet_call stored up (gh_IsRateLimited c)"
    and waits: "job_waits up clk K c q config repo run job"
    and key: "k = gh_inv_key (om_Namespace (cfg_Meta config)) job" and free: "stored (world p) k = None"
    and first: "run_state (poll K c q) p = (r, p')" and room: "ic_count (counter p') < ic_max (counter p')"
    and github: "\<And>c. g = Some c \<Longrightarrow> client_quiet stored up c"
    and later: "up w" "stored w k = stored (world p') k"
    and second: "run_state (corr_Reconcile K g srt k) w = (r', w')"
  shows "r' = Inr no_requeue \<and>
    (\<exists>iv0 ji iv d. stored (world p') k = Some iv0 \<and> sp_Job (inv_Spec iv0) = Some ji \<and>
       stored w' k = Some iv \<and> phase_of iv = phaseComplete \<and>
       tr_Type (sp_Trigger (inv_Spec iv)) = ''job-stuck-queued'' \<and>
       sp_Job (inv_Spec iv) = Some ji \<and> ji_ID ji = job_ID job \<and> ji_Status ji = ''queued'' \<and>
       sp_Diagnosis (inv_Spec iv) = Some d \<and>
       (ji_RunnerName ji = [] \<longrightarrow> dg_FailureType d = ''job-stuck-queued''))"
proof -
  note polled = poll_reports [OF server(1,2) client waits, folded key]
  have "stored (world p') k \<noteq> None" and "poll_step stored up p p'"
    using polled(2) state_io_rel_run [OF polled(1), of p] server(3,4) first room
    by (auto simp: reports_def reported_def)
  with free server(3,4) obtain iv where iv: "stored (world p') k = Some iv" "opened_for_job k iv"
    unfolding poll_step_def by metis
  then have meta: "key_of (inv_Meta iv) = k" and phase: "phase_of iv = phaseCollecting"
    and trigger: "tr_Type (sp_Trigger (inv_Spec iv)) = ''job-stuck-queued''"
    by (simp_all add: opened_for_job_def)
  obtain ji where ji: "sp_Job (inv_Spec iv) = Some ji" "ji_ID ji = job_ID job" "ji_Status ji = ''queued''"
    using iv(2) investigation_keys_disjoint by (auto simp: opened_for_job_def key job_info_def)
  have "stored w (key_of (inv_Meta iv)) = Some iv" using later iv(1) meta by simp
  from ensuresD [OF after_corr_Reconcile [OF server(1) later(1) this phase
      after_job_gather [OF server(1) github _ iv(2)]] second [folded meta]]
  obtain iv' where "r' = Inr no_requeue" "stored w' = (stored w)(k \<mapsto> iv')"
    "settled_from (\<lambda>sp. without_runner iv \<longrightarrow> sp = inv_Spec iv) iv iv'"
    unfolding meta by blast
  with iv(1) trigger ji settled_job [OF iv(2)] show ?thesis
    by (auto simp: settled_from_def without_runner_def richer_def)
qed

text \<open>The cluster in memory answers, keeps its configs and its time.\<close>

lemma sample_answers_at: "answers sample_stored (\<lambda>w. cl_down w = [] \<and> cl_configs w = cs \<and> cl_time w = t) sample_kube"
  unfolding answers_def get_answers_def write_answers_def quiet_call_def Let_def
  by (auto simp: ensures_def sample_stored_def cluster_defs Let_def update_conv' key_of_def
      new_investigation_simps split: option.split)

text \<open>The poll on it, for one job that is listed in both statuses: the second time it is there already.\<close>

definition sample_check :: "(cluster ghp, unit) state" where
  "sample_check = checkJob sample_kube (NewGitHubPoller 0) ''o'' ''r'' ''ns'' sample_run (sample_job ''queued'' [] 5)"

lemma sample_poll_checks:
  "cl_down (world p) = [] \<Longrightarrow> cl_configs (world p) = [sample_config] \<Longrightarrow>
   run_state (poll sample_kube (sample_gh False [sample_run] [sample_job ''queued'' [] 5]) (NewGitHubPoller 0)) p =
   run_state (do { sample_check; sample_check; ret None }) p"
  by (simp add: poll_def pollRepo_def pollRun_def list_of_def sample_check_def split: prod.splits)
    (auto simp: sample_config_def new_meta_def pollRun_def split: prod.splits)

lemma sample_check_first:
  assumes "cl_down w = []" "cl_invs w = []" "cl_time w = 11 * Minute"
  shows "\<exists>iv. run_state sample_check \<lparr>counter = \<lparr>ic_count = 0, ic_max = 3\<rparr>, own = (), world = w\<rparr> =
      ((), \<lparr>counter = \<lparr>ic_count = 1, ic_max = 3\<rparr>, own = (),
        world = w\<lparr>cl_invs := [(gh_inv_key ''ns'' (sample_job ''queued'' [] 5), iv)]\<rparr>\<rparr>) \<and>
      sp_Job (inv_Spec iv) = Some (job_info (sample_job ''queued'' [] 5))"
proof -
  have due: "queuedThresh (NewGitHubPoller 0) < Sub (11 * Minute) 5"
    by (simp add: NewGitHubPoller_def defaultQueuedThreshold_def Sub_def maxDuration_def minDuration_def duration_units)
  have job: "job_Status (sample_job ''queued'' [] 5) = ''queued''" "job_StartedAt (sample_job ''queued'' [] 5) = 5"
    by (simp_all add: sample_job_def)
  have key: "key_of (inv_Meta (gh_new_investigation ow rp ns t r j k)) = gh_inv_key ns j" for ow rp ns t r j k
    by (rule job_key)
  have key_kept: "key_of (m\<lparr>om_CreationTimestamp := t\<rparr>) = key_of m" for m t by (simp add: key_of_def)
  have spec: "sp_Job (inv_Spec (gh_new_investigation ow rp ns t r j k)) = Some (job_info j)" for ow rp ns t r j k
    by (simp add: gh_new_investigation_def Let_def)
  show ?thesis
    using assms
    by (simp add: sample_check_def checkJob_def createJobInvestigation_def due job IsZero_def find_in_def
        TryIncrement_def submit_def store_def on_create_def on_status_def key spec Let_def set_phase_def key_kept)
      (rule exI, rule conjI, rule refl, simp add: spec)
qed

lemma sample_check_again:
  assumes "cl_down (world p) = []" "sample_stored (world p) (gh_inv_key ''ns'' (sample_job ''queued'' [] 5)) \<noteq> None"
  shows "run_state sample_check p = ((), p)"
  using assms by (cases p) (auto simp: sample_check_def checkJob_def createJobInvestigation_def find_in_def sample_stored_def)

lemma sample_poll:
  assumes "cl_down w = []" "cl_invs w = []" "cl_time w = 11 * Minute" "cl_configs w = [sample_config]"
  shows "\<exists>iv. run_state (poll sample_kube (sample_gh False [sample_run] [sample_job ''queued'' [] 5]) (NewGitHubPoller 0))
      \<lparr>counter = \<lparr>ic_count = 0, ic_max = 3\<rparr>, own = (), world = w\<rparr> =
      (None, \<lparr>counter = \<lparr>ic_count = 1, ic_max = 3\<rparr>, own = (),
        world = w\<lparr>cl_invs := [(gh_inv_key ''ns'' (sample_job ''queued'' [] 5), iv)]\<rparr>\<rparr>) \<and>
      sp_Job (inv_Spec iv) = Some (job_info (sample_job ''queued'' [] 5))"
proof -
  from sample_check_first [OF assms(1-3)] obtain iv where
    "run_state sample_check \<lparr>counter = \<lparr>ic_count = 0, ic_max = 3\<rparr>, own = (), world = w\<rparr> =
      ((), \<lparr>counter = \<lparr>ic_count = 1, ic_max = 3\<rparr>, own = (),
        world = w\<lparr>cl_invs := [(gh_inv_key ''ns'' (sample_job ''queued'' [] 5), iv)]\<rparr>\<rparr>)"
    "sp_Job (inv_Spec iv) = Some (job_info (sample_job ''queued'' [] 5))" by blast
  with assms show ?thesis
    by (simp add: sample_poll_checks sample_check_again sample_stored_def) blast
qed

theorem waiting_job_ends_in_its_diagnosis_witness:
  "let job = sample_job ''queued'' [] 5; c = sample_gh False [sample_run] [job]; k = gh_inv_key ''ns'' job;
       p = \<lparr>counter = \<lparr>ic_count = 0, ic_max = 3\<rparr>, own = (), world = waiting_cluster (11 * Minute)\<rparr>;
       w = world (snd (run_state (poll sample_kube c (NewGitHubPoller 0)) p));
       w' = snd (run_state (corr_Reconcile sample_kube (Some c) insertion_sort k) w) in
   \<exists>iv d. sample_stored w' k = Some iv \<and> phase_of iv = phaseComplete \<and>
     sp_Diagnosis (inv_Spec iv) = Some d \<and> dg_FailureType d = ''job-stuck-queued''"
proof -
  let ?job = "sample_job ''queued'' [] 5" and ?w0 = "waiting_cluster (11 * Minute)"
  let ?c = "sample_gh False [sample_run] [?job] :: cluster GHClient" and ?k = "gh_inv_key ''ns'' ?job"
  let ?p = "\<lparr>counter = \<lparr>ic_count = 0, ic_max = 3\<rparr>, own = (), world = ?w0\<rparr> :: cluster ghp"
  let ?r = "run_state (poll sample_kube ?c (NewGitHubPoller 0)) ?p"
  let ?s = "run_state (corr_Reconcile sample_kube (Some ?c) insertion_sort ?k) (world (snd ?r))"
  define up where "up = (\<lambda>w :: cluster. cl_down w = [] \<and> cl_configs w = [sample_config] \<and> cl_time w = 11 * Minute)"
  note answers = sample_answers_at [of "[sample_config]" "11 * Minute", folded up_def]
  have start: "up (world ?p)" "counter_ok (counter ?p)" "sample_stored (world ?p) ?k = None"
    by (simp_all add: up_def waiting_cluster_def empty_cluster_def counter_ok_def is_int64_def sample_stored_def)
  have client: "client_quiet sample_stored up ?c" "quiet_call sample_stored up (gh_IsRateLimited ?c)"
    by (simp_all add: client_quiet_def quiet_call_def)
  have ns: "om_Namespace (cfg_Meta sample_config) = ''ns''" by (simp add: sample_config_def new_meta_def)
  have waits: "job_waits up cl_time sample_kube ?c (NewGitHubPoller 0) sample_config
      \<lparr>rr_Owner = ''o'', rr_Name = ''r''\<rparr> sample_run ?job"
    by (simp add: job_waits_def always_lists_def list_of_def up_def NewGitHubPoller_def defaultQueuedThreshold_def
        duration_units)
      (auto simp: sample_config_def sample_job_def Sub_def maxDuration_def minDuration_def IsZero_def)
  have "ic_count (counter (snd ?r)) = 1 \<and> ic_max (counter (snd ?r)) = 3 \<and>
      map_option (sp_Job \<circ> inv_Spec) (sample_stored (world (snd ?r)) ?k) = Some (Some (job_info ?job))"
    using sample_poll [of ?w0] by (auto simp: waiting_cluster_def empty_cluster_def sample_stored_def)
  note polled = this
  have later: "up (world (snd ?r))"
    using state_io_rel_run [OF poll_reports(1) [OF answers sample_clock client waits], of ?p] start
    by (simp add: poll_step_def)
  have room: "ic_count (counter (snd ?r)) < ic_max (counter (snd ?r))" using polled by simp
  have key: "?k = gh_inv_key (om_Namespace (cfg_Meta sample_config)) ?job" by (simp add: ns)
  have github: "client_quiet sample_stored up c" if "Some ?c = Some c" for c using that client(1) by simp
  have first: "?r = (fst ?r, snd ?r)" and second: "?s = (fst ?s, snd ?s)" by simp_all
  from waiting_job_ends_in_its_diagnosis [OF answers sample_clock start(1,2) client waits key
      start(3) first room github later refl second]
  show ?thesis unfolding Let_def using polled by (auto simp: job_info_def sample_job_def)
qed

end
