(* ===== verification/LogTrail.thy ===== *)
theory LogTrail
  imports Server PodWatcher LogCollector StorageLimit
begin

text \<open>
  The trail of the logs of a deleted pod across the components: written to the disk by the collector,
  recorded in the Investigation by the pod watcher. The world is the cluster beside the disk.
\<close>

section \<open>The cluster beside the disk\<close>

text \<open>The disk keeps its contract as the second part of a pair.\<close>

interpretation beside: log_storage "second_storage (disk_storage srt s)" "\<lambda>wd. disk_ok s (snd wd)" valid_path
  "\<lambda>wd. log_at s (snd wd)" for srt s
proof (unfold_locales, goal_cases)
  case (1 w p data err r w')
  obtain d where "run_state (st_Write (disk_storage srt s) p (data, err)) (snd w) = (r, d)" "w' = (fst w, d)"
    using 1(3) by (auto simp: second_storage_def split: prod.splits)
  with disk.write_ok [OF 1(1,2)] show ?case by simp
next
  case (2 w p data w')
  have "run_state (st_Read (second_storage (disk_storage srt s)) p) w = (Inr (Some data), w') \<longleftrightarrow>
      run_state (st_Read (disk_storage srt s) p) (snd w) = (Inr (Some data), snd w') \<and> fst w' = fst w"
    by (auto simp: second_storage_def prod_eq_iff split: prod.splits)
  with disk.read_holds [OF 2] show ?case by (auto simp: prod_eq_iff)
next
  case (3 w p r w')
  obtain d where "run_state (st_Delete (disk_storage srt s) p) (snd w) = (r, d)" "w' = (fst w, d)"
    using 3(3) by (auto simp: second_storage_def split: prod.splits)
  with disk.delete_ok [OF 3(1,2)] show ?case by simp
qed

text \<open>The server answers beside a disk, whatever is said of the disk, which it does not touch.\<close>

abbreviation stored_beside :: "'w store \<Rightarrow> ('w \<times> 'd) store" where
  "stored_beside stored \<equiv> (\<lambda>wd. stored (fst wd))"

abbreviation up_beside :: "('w \<Rightarrow> bool) \<Rightarrow> ('d \<Rightarrow> bool) \<Rightarrow> 'w \<times> 'd \<Rightarrow> bool" where
  "up_beside up J \<equiv> (\<lambda>wd. up (fst wd) \<and> J (snd wd))"

lemma ensures_on_first [simp]:
  "ensures (on_first m) wd Q = ensures m (fst wd) (\<lambda>a w. Q a (w, snd wd))"
  by (simp add: ensures_def split: prod.split)

lemma quiet_beside: "quiet_call stored up m \<Longrightarrow> quiet_call (stored_beside stored) (up_beside up J) (on_first m)"
  by (auto simp: quiet_call_def split: prod.split)

lemma write_beside:
  assumes "write_answers stored up write can answer"
  shows "write_answers (stored_beside stored) (up_beside up J) (\<lambda>iv. on_first (write iv)) can answer"
  unfolding write_answers_def Let_def ensures_on_first
  using assms by (auto simp: write_answers_def Let_def elim!: ensures_weaken)

lemma answers_beside:
  assumes "answers stored up K"
  shows "answers (stored_beside stored) (up_beside up J) (first_runtime K)"
proof -
  have "get_answers (stored_beside stored) (up_beside up J) (first_runtime K)"
    using assms by (auto simp: answers_def get_answers_def first_runtime_def elim!: ensures_weaken)
  with assms show ?thesis
    unfolding answers_def first_runtime_def by (simp add: write_beside quiet_beside)
qed

section \<open>Collecting the logs\<close>

lemma CollectLogs_quiet:
  assumes "quiet_call (stored_beside stored) (\<lambda>wd. up (fst wd)) now"
    and "\<And>ns n c. quiet_call (stored_beside stored) (\<lambda>wd. up (fst wd)) (GetLogs ns n c)"
  shows "quiet_call (stored_beside stored) (\<lambda>wd. up (fst wd)) (CollectLogs now GetLogs (second_storage st) pod)"
proof -
  have "quiet_call (stored_beside stored) (\<lambda>wd. up (fst wd)) (st_Write (second_storage st) p b)" for p b
    by (simp add: quiet_call_def second_storage_def split: prod.split)
  then show ?thesis
    using assms unfolding CollectLogs_def Let_def collect_one_def quiet_iff
    by (intro cluster_kept.io_rules) auto
qed

section \<open>Recording the paths\<close>

text \<open>The paths an Investigation has, none where there is no Investigation.\<close>

definition recorded_paths :: "Investigation option \<Rightarrow> string list" where
  "recorded_paths old = (case old of None \<Rightarrow> [] | Some iv \<Rightarrow> sp_LogPaths (inv_Spec iv))"

text \<open>Its Investigation can be opened or extended.\<close>

definition can_record :: "'w store \<Rightarrow> Pod \<Rightarrow> 'w pw \<Rightarrow> bool" where
  "can_record stored pod p \<longleftrightarrow>
     (case stored (world p) (pod_inv_key pod) of
        None \<Rightarrow> ic_count (counter p) < ic_max (counter p)
      | Some iv \<Rightarrow> key_of (inv_Meta iv) = pod_inv_key pod)"

lemma after_ensureInvestigation:
  assumes server: "answers stored up K" and "up (world p)" and can: "can_record stored pod p"
  shows "ensures (ensureInvestigation K pod paths) p (\<lambda>r p'. r = None \<and> up (world p') \<and>
    (\<exists>iv. stored (world p') (pod_inv_key pod) = Some iv \<and>
       sp_LogPaths (inv_Spec iv) = recorded_paths (stored (world p) (pod_inv_key pod)) @ paths))"
  unfolding ensureInvestigation_def ensures_simps
proof (rule after_Get [OF server assms(2)], goal_cases)
  case (1 w)
  show ?case
  proof (cases "stored (world p) (pod_inv_key pod)")
    case None
    with can have granted: "fst (TryIncrement (counter p))"
      by (simp add: can_record_def TryIncrement_def)
    from None 1 show ?thesis
      by (auto simp: granted pod_inv_key_def recorded_paths_def new_spec_def intro!: after_submit [OF server])
  next
    case (Some iv)
    with can have key: "key_of (inv_Meta iv) = pod_inv_key pod" by (simp add: can_record_def)
    from Some 1 show ?thesis
      by (auto simp: Let_def key recorded_paths_def intro!: after_write [OF write_calls(2) [OF server]])
  qed
qed

section \<open>The deletion\<close>

text \<open>The collector of the process, on a disk beside the cluster.\<close>

abbreviation disk_collector ::
  "'w runtime \<Rightarrow> ('w \<times> disk) log_source \<Rightarrow> entry_sort \<Rightarrow> DiskStorage \<Rightarrow> ('w \<times> disk) collector" where
  "disk_collector K GetLogs srt s \<equiv>
     CollectLogs (Now (first_runtime K)) GetLogs (second_storage (disk_storage srt s))"

text \<open>What the collector leaves: the cluster as it was, a sound disk, and the logs under the paths.\<close>

definition logs_kept :: "DiskStorage \<Rightarrow> ('w \<times> disk) log_source \<Rightarrow> Pod \<Rightarrow> string list \<Rightarrow> disk \<Rightarrow> bool" where
  "logs_kept s GetLogs pod paths d \<longleftrightarrow>
     disk_ok s d \<and> (\<forall>path \<in> set paths. \<exists>c \<in> set (allContainerNames pod). \<exists>data.
        streamed GetLogs pod c data \<and> run_state (disk_Read s path) d = (Inr (Some data), d))"

text \<open>A kubelet that serves logs and touches neither the cluster nor the disk.\<close>

definition serves_logs ::
  "'w store \<Rightarrow> ('w \<Rightarrow> bool) \<Rightarrow> DiskStorage \<Rightarrow> ('w \<times> disk) log_source \<Rightarrow> bool" where
  "serves_logs stored up s GetLogs \<longleftrightarrow>
     (\<forall>ns n c. quiet_call (stored_beside stored) (\<lambda>wd. up (fst wd)) (GetLogs ns n c) \<and>
        spares (\<lambda>wd. disk_ok s (snd wd)) (\<lambda>wd. log_at s (snd wd)) (GetLogs ns n c))"

lemma after_collect:
  assumes server: "answers stored up K" and "up (fst wd)" and "disk_ok s (snd wd)"
    and names: "dns_names pod" "distinct (allContainerNames pod)"
    and kubelet: "serves_logs stored up s GetLogs"
    and run: "run_state (disk_collector K GetLogs srt s pod) wd = ((paths, err), wd')"
  shows "up (fst wd') \<and> stored (fst wd') = stored (fst wd) \<and> logs_kept s GetLogs pod paths (snd wd')"
proof -
  note beside = answers_beside [OF server, of "\<lambda>d. True", simplified]
  have now: "Now (first_runtime K) = on_first (Now K)" by (simp add: first_runtime_def)
  have spare: "spares (\<lambda>wd. disk_ok s (snd wd)) (\<lambda>wd. log_at s (snd wd)) (Now (first_runtime K))"
    by (simp add: spares_def now split: prod.split)
  have dist: "distinct (map (\<lambda>c. log_path pod c (Format_stamp t)) (allContainerNames pod))" for t
    using names log_path_inject by (auto simp: distinct_map inj_on_def dns_names_def propers_def)
  have valid: "\<forall>c \<in> set (allContainerNames pod). \<forall>t. valid_path (log_path pod c (Format_stamp t))"
    using log_path_valid [OF names(1)] by blast
  have "disk_ok s (snd wd') \<and> (\<exists>t. beside.collected s GetLogs pod (Format_stamp t) (allContainerNames pod) wd' paths)"
    using beside.CollectLogs_effect [OF assms(3) valid _ spare dist run] kubelet by (simp add: serves_logs_def)
  then have "logs_kept s GetLogs pod paths (snd wd')"
    by (auto simp: logs_kept_def beside.collected_def disk_Read_holds) metis
  moreover have "quiet_call (stored_beside stored) (\<lambda>wd. up (fst wd)) (disk_collector K GetLogs srt s pod)"
    by (rule CollectLogs_quiet [OF quiet_calls(1) [OF beside]]) (use kubelet in \<open>simp add: serves_logs_def\<close>)
  ultimately show ?thesis
    using assms(2) run unfolding quiet_call_def by (metis snd_conv)
qed

text \<open>A Reconcile of a pod in deletion, from the collector on.\<close>

definition record_and_release ::
  "'w runtime \<Rightarrow> Pod \<Rightarrow> string list \<Rightarrow> ('w pw, go_error + Result) state" where
  "record_and_release K pod paths = do {
     e \<leftarrow> (if paths \<noteq> [] then ensureInvestigation K pod paths else ret None);
     r \<leftarrow> outside (Update_Pod K (without_finalizer K pod));
     ret (case r of Inl e \<Rightarrow> Inl e | Inr _ \<Rightarrow> Inr no_requeue)
   }"

lemma run_deletion:
  assumes "run_state (Get_Pod K key) (world p) = (Inr pod, w1)"
    and "label (pod_Meta pod) arcRunnerLabel = ''True''"
    and "being_deleted (pod_Meta pod)" "has_log_finalizer K pod"
    and "p1 = snd (run_state (pod_recordTransition K key pod) (p\<lparr>world := w1\<rparr>))"
    and "run_state (collect pod) (world p1) = ((paths, err), wd)"
  shows "run_state (pod_Reconcile K collect key) p = run_state (record_and_release K pod paths) (p1\<lparr>world := wd\<rparr>)"
proof -
  have "run_state (pod_Reconcile K collect key) p = run_state (pod_handle_deletion K collect pod) p1"
    using assms(1-5) by (simp add: pod_Reconcile_def pod_add_finalizer_def case_prod_beta)
  also have "\<dots> = run_state (record_and_release K pod paths) (p1\<lparr>world := wd\<rparr>)"
    using assms(6) by (simp add: pod_handle_deletion_def record_and_release_def without_finalizer_def case_prod_beta)
  finally show ?thesis .
qed

lemma after_record_and_release:
  assumes server: "answers stored up K" and "up (world p)" and "can_record stored pod p"
  shows "ensures (record_and_release K pod paths) p (\<lambda>r p'. up (world p') \<and>
    (paths \<noteq> [] \<longrightarrow> (\<exists>iv. stored (world p') (pod_inv_key pod) = Some iv \<and>
       sp_LogPaths (inv_Spec iv) = recorded_paths (stored (world p) (pod_inv_key pod)) @ paths)))"
  using after_ensureInvestigation [OF assms, of paths] assms(2) unfolding record_and_release_def
  by (auto intro!: after_quiet [OF quiet_calls(3) [OF server]] elim!: ensures_weaken)


text \<open>A kubelet with one line of log for every container.\<close>

definition one_line :: "(cluster \<times> disk) log_source" where
  "one_line ns n c = ret (Inr (''done'', None))"

definition beside_disk :: "Pod \<Rightarrow> (cluster \<times> disk) pw" where
  "beside_disk pod = \<lparr>counter = \<lparr>ic_count = 0, ic_max = 3\<rparr>, own = Map.empty,
     world = (one_pod pod, empty_disk)\<rparr>"

lemma one_path:
  "fst (fst (run_state (disk_collector sample_kube one_line insertion_sort sample_storage (dying_pod ''Running''))
     (world (snd (run_state (pod_recordTransition (first_runtime sample_kube) pod_key (dying_pod ''Running''))
       (beside_disk (dying_pod ''Running''))))))) = [''ns/runner/main/0001-01-01T00-00-00.log'']"
  by code_simp


end
