(* ===== verification/Names.thy ===== *)
theory Names
  imports System
begin

text \<open>
  The names of the Investigations. Kubernetes documents that the name of such an object is a DNS-1123
  subdomain: labels of lower case letters, digits and hyphens that begin and end with a letter or a
  digit, separated by dots, 253 characters at most.
\<close>

section \<open>DNS-1123 subdomains\<close>

definition lower_alnum :: "char \<Rightarrow> bool" where
  "lower_alnum c \<longleftrightarrow> c \<in> set ''abcdefghijklmnopqrstuvwxyz0123456789''"

text \<open>What the name read so far ends with.\<close>

datatype name_end = LabelStart | InLabel | AfterHyphen

fun dns_scan :: "name_end \<Rightarrow> string \<Rightarrow> bool" where
  "dns_scan e [] = (e = InLabel)"
| "dns_scan e (c # cs) =
     (if lower_alnum c then dns_scan InLabel cs
      else if c = CHR ''-'' then e \<noteq> LabelStart \<and> dns_scan AfterHyphen cs
      else if c = CHR ''.'' then e = InLabel \<and> dns_scan LabelStart cs
      else False)"

definition dns_subdomain :: "string \<Rightarrow> bool" where
  "dns_subdomain s \<longleftrightarrow> length s \<le> 253 \<and> dns_scan LabelStart s"

text \<open>A name may follow a hyphen as well as it may begin.\<close>

lemma dns_scan_after_hyphen: "dns_scan LabelStart s \<Longrightarrow> dns_scan AfterHyphen s"
  by (cases s) (auto split: if_splits)

lemma dns_scan_alnum: "\<forall>c \<in> set s. lower_alnum c \<Longrightarrow> s \<noteq> [] \<or> e = InLabel \<Longrightarrow> dns_scan e s"
  by (induction s arbitrary: e) auto

section \<open>Numbers in names\<close>

lemma nat_digits_alnum: "c \<in> set (nat_digits n) \<Longrightarrow> lower_alnum c"
proof (induction n rule: nat_digits.induct)
  case (1 n)
  have "lower_alnum (digit_char d)" if "d < 10" for d
    using less_10_cases [OF that] by (auto simp: digit_char_def lower_alnum_def)
  then show ?case
    using 1 by (subst (asm) (2) nat_digits.simps) (auto split: if_splits)
qed

lemma length_nat_digits: "n < 10 ^ Suc k \<Longrightarrow> length (nat_digits n) \<le> Suc k"
proof (induction k arbitrary: n)
  case 0
  then show ?case by (simp add: nat_digits.simps)
next
  case (Suc k)
  then have "n div 10 < 10 ^ Suc k" by (simp add: less_mult_imp_div_less mult.commute)
  from Suc.IH [OF this] show ?case by (subst nat_digits.simps) simp
qed

lemma fmt_d_name:
  assumes "is_int64 i"
  shows "dns_scan AfterHyphen (fmt_d i)" and "length (fmt_d i) \<le> 20"
proof -
  have digits: "dns_scan AfterHyphen (nat_digits n)" for n
    by (rule dns_scan_alnum) (simp_all add: nat_digits_alnum nat_digits_not_Nil)
  have "length (nat_digits (nat \<bar>i\<bar>)) \<le> Suc 18"
    using assms by (intro length_nat_digits) (simp add: is_int64_def nat_less_iff abs_less_iff)
  with digits show "dns_scan AfterHyphen (fmt_d i)" and "length (fmt_d i) \<le> 20"
    by (auto simp: fmt_d_def lower_alnum_def abs_if split: if_splits)
qed

section \<open>The names of the controllers\<close>

text \<open>C39: every Investigation has a name of its own that Kubernetes accepts, unless it is too long. The name
  of the Investigation of a job is always valid; those of a pod and of a runner, whose own names
  are valid, are so exactly up to 249 and 250 characters of the own name, although 253 are allowed for
  a pod and for a runner. The three controllers never use the same name, and one controller uses a name
  twice in a namespace only for the same object.\<close>

theorem investigation_names_valid_and_apart:
  assumes pod: "dns_subdomain (om_Name (pod_Meta pod))" and er: "dns_subdomain (om_Name (un_Meta er))"
  shows "dns_subdomain (gh_inv_name job) \<and>
    (dns_subdomain (pod_inv_name pod) \<longleftrightarrow> length (om_Name (pod_Meta pod)) \<le> 249) \<and>
    (dns_subdomain (er_inv_name er) \<longleftrightarrow> length (om_Name (un_Meta er)) \<le> 250) \<and>
    pod_inv_key pod \<noteq> er_inv_key er \<and> pod_inv_key pod \<noteq> gh_inv_key ns job \<and> er_inv_key er \<noteq> gh_inv_key ns job \<and>
    (pod_inv_key pod = pod_inv_key pod' \<longleftrightarrow> key_of (pod_Meta pod) = key_of (pod_Meta pod')) \<and>
    (er_inv_key er = er_inv_key er' \<longleftrightarrow> key_of (un_Meta er) = key_of (un_Meta er')) \<and>
    (gh_inv_key ns job = gh_inv_key ns' job' \<longleftrightarrow> ns = ns' \<and> job_ID job = job_ID job')"
proof -
  have "dns_scan AfterHyphen (om_Name (pod_Meta pod))" "dns_scan AfterHyphen (om_Name (un_Meta er))"
    using pod er by (simp_all add: dns_subdomain_def dns_scan_after_hyphen)
  then have own: "dns_subdomain (pod_inv_name pod) \<longleftrightarrow> length (om_Name (pod_Meta pod)) \<le> 249"
    "dns_subdomain (er_inv_name er) \<longleftrightarrow> length (om_Name (un_Meta er)) \<le> 250"
    by (simp_all add: dns_subdomain_def pod_inv_name_def er_inv_name_def lower_alnum_def)
  have "is_int64 (sint (job_ID job))"
    using sint_greater_eq [of "job_ID job"] sint_less [of "job_ID job"] by (simp add: is_int64_def)
  then have "dns_subdomain (gh_inv_name job)"
    using fmt_d_name [of "sint (job_ID job)"]
    by (simp add: dns_subdomain_def gh_inv_name_def lower_alnum_def fmt_id_def)
  with own investigation_keys_disjoint show ?thesis by blast
qed

text \<open>A pod with the longest name its Investigation can have, and one with a longer name.\<close>

definition named_pod :: "string \<Rightarrow> Pod" where
  "named_pod name =
     \<lparr>pod_Meta = new_meta ''ns'' name, pod_NodeName = [], pod_InitContainers = [], pod_Containers = [],
      pod_Phase = ''Failed'', pod_Conditions = [], pod_ContainerStatuses = []\<rparr>"

definition named_runner :: "string \<Rightarrow> Unstructured" where
  "named_runner name = \<lparr>un_Meta = new_meta ''ns'' name, un_NestedString = (\<lambda>path. None)\<rparr>"

definition long_name :: "nat \<Rightarrow> string" where
  "long_name n = replicate n (CHR ''a'')"

lemma long_name_valid: "0 < n \<Longrightarrow> n \<le> 253 \<Longrightarrow> dns_subdomain (long_name n)"
  by (auto simp: dns_subdomain_def long_name_def lower_alnum_def intro!: dns_scan_alnum)

theorem investigation_names_valid_and_apart_witness:
  "dns_subdomain (pod_inv_name (named_pod (long_name 249))) \<and>
   dns_subdomain (long_name 250) \<and> \<not> dns_subdomain (pod_inv_name (named_pod (long_name 250)))"
proof -
  have name: "om_Name (pod_Meta (named_pod s)) = s" "om_Name (un_Meta (named_runner s)) = s" for s
    by (simp_all add: named_pod_def named_runner_def new_meta_def)
  have valid: "dns_subdomain (long_name 249)" "dns_subdomain (long_name 250)"
    by (simp_all add: long_name_valid)
  have len: "length (long_name n) = n" for n by (simp add: long_name_def)
  show ?thesis
    using valid
      investigation_names_valid_and_apart [of "named_pod (long_name 249)" "named_runner (long_name 249)"]
      investigation_names_valid_and_apart [of "named_pod (long_name 250)" "named_runner (long_name 250)"]
    unfolding name len by simp
qed

end
