(* ===== verification/GoHeap.thy ===== *)
theory GoHeap
  imports Prelude "HOL-Library.Sublist"
begin

text \<open>
  Memory, for the code whose point is which objects share it: a heap is the list of the cells allocated
  so far, an address is a position in it, a pointer that may be nil is an optional address, and a slice
  is a window on the array a cell holds. The locale \<open>memory_type\<close> says what a type of values with
  pointers in them is, the locale \<open>deep_copier\<close> what a deep copy promises; both are proved for pointers and
  slices once, and the rules at the end do it for the fields of a struct.
\<close>

section \<open>Heaps\<close>

type_synonym ptr = "nat option"

record slice =
  sl_array :: nat
  sl_off :: nat
  sl_len :: nat
  sl_cap :: nat

text \<open>The elements a slice shows of its array.\<close>

definition window :: "slice \<Rightarrow> 'a list \<Rightarrow> 'a list" where
  "window s xs = take (sl_len s) (drop (sl_off s) xs)"

definition alloc :: "'c \<Rightarrow> ('c list, nat) state" where
  "alloc c = State (\<lambda>h. (length h, h @ [c]))"

definition load :: "('c \<Rightarrow> 'a) \<Rightarrow> nat \<Rightarrow> ('c list, 'a) state" where
  "load sel a = gets (\<lambda>h. sel (h ! a))"

lemma run_alloc [simp]: "run_state (alloc c) h = (length h, h @ [c])"
  by (simp add: alloc_def)

lemma run_load [simp]: "run_state (load sel a) h = (sel (h ! a), h)"
  by (simp add: load_def)

fun map_copy :: "('a \<Rightarrow> ('s, 'b) state) \<Rightarrow> 'a list \<Rightarrow> ('s, 'b list) state" where
  "map_copy into [] = ret []"
| "map_copy into (x # xs) = do { y \<leftarrow> into x; ys \<leftarrow> map_copy into xs; ret (y # ys) }"

text \<open>
  A new cell with a copy of what \<open>p\<close> points to (\<open>mk\<close> and \<open>sel\<close> wrap and unwrap the cell), and a new array with
  copies of what the slice \<open>s\<close> shows. The cell is allocated when its contents are known; the code
  allocates it first and fills it, which nobody else can see.
\<close>

definition clone_ptr ::
  "('a \<Rightarrow> 'c) \<Rightarrow> ('c \<Rightarrow> 'a) \<Rightarrow> ('a \<Rightarrow> ('c list, 'a) state) \<Rightarrow> ptr \<Rightarrow> ('c list, ptr) state" where
  "clone_ptr mk sel into p =
     (case p of
        None \<Rightarrow> ret None
      | Some a \<Rightarrow> do {
          x \<leftarrow> load sel a;
          y \<leftarrow> into x;
          b \<leftarrow> alloc (mk y);
          ret (Some b)
        })"

definition clone_slice ::
  "('a list \<Rightarrow> 'c) \<Rightarrow> ('c \<Rightarrow> 'a list) \<Rightarrow> ('a \<Rightarrow> ('c list, 'a) state) \<Rightarrow>
   slice option \<Rightarrow> ('c list, slice option) state"
where
  "clone_slice mk sel into s =
     (case s of
        None \<Rightarrow> ret None
      | Some sl \<Rightarrow> do {
          xs \<leftarrow> load sel (sl_array sl);
          ys \<leftarrow> map_copy into (window sl xs);
          a \<leftarrow> alloc (mk ys);
          ret (Some \<lparr>sl_array = a, sl_off = 0, sl_len = length ys, sl_cap = length ys\<rparr>)
        })"

section \<open>Types of values with pointers\<close>

text \<open>Two heaps with the same cells at the addresses \<open>A\<close>.\<close>

definition same_at :: "nat set \<Rightarrow> 'c list \<Rightarrow> 'c list \<Rightarrow> bool" where
  "same_at A h h' \<longleftrightarrow> (\<forall>a \<in> A. a < length h' \<and> h' ! a = h ! a)"

lemma same_at_Un [simp]: "same_at (A \<union> B) h h' \<longleftrightarrow> same_at A h h' \<and> same_at B h h'"
  by (auto simp: same_at_def)

lemma same_at_insert [simp]:
  "same_at (insert a A) h h' \<longleftrightarrow> a < length h' \<and> h' ! a = h ! a \<and> same_at A h h'"
  by (auto simp: same_at_def)

lemma same_at_empty [simp]: "same_at {} h h'"
  by (simp add: same_at_def)

lemma same_at_UN: "same_at (\<Union>x \<in> X. f x) h h' \<longleftrightarrow> (\<forall>x \<in> X. same_at (f x) h h')"
  by (auto simp: same_at_def)

lemma same_at_prefix:
  assumes "A \<subseteq> {..<length h}" and "prefix h h'"
  shows "same_at A h h'"
proof -
  obtain k where "h' = h @ k" using assms(2) by (auto elim: prefixE)
  with assms(1) show ?thesis by (auto simp: same_at_def nth_append)
qed

text \<open>
  \<open>ok h x\<close>: all pointers of \<open>x\<close>, and of what they lead to, are to cells of the right type; \<open>val h x\<close>: the value
  they make up; \<open>refs h x\<close>: the cells they reach. These depend on the cells reached only.
\<close>

locale memory_type =
  fixes ok :: "'c list \<Rightarrow> 'm \<Rightarrow> bool" and val :: "'c list \<Rightarrow> 'm \<Rightarrow> 'v"
    and refs :: "'c list \<Rightarrow> 'm \<Rightarrow> nat set"
  assumes in_heap: "ok h x \<Longrightarrow> refs h x \<subseteq> {..<length h}"
    and local: "ok h x \<Longrightarrow> same_at (refs h x) h h' \<Longrightarrow>
      ok h' x \<and> val h' x = val h x \<and> refs h' x = refs h x"
begin

lemma longer: "ok h x \<Longrightarrow> prefix h h' \<Longrightarrow> ok h' x \<and> val h' x = val h x \<and> refs h' x = refs h x"
  by (rule local) (simp_all add: same_at_prefix in_heap)

end

text \<open>
  A deep copy: the heap only grows, the copy has the value of the original, and every cell it
  reaches is new.
\<close>

locale deep_copier = memory_type ok val refs
  for ok :: "'c list \<Rightarrow> 'm \<Rightarrow> bool" and val :: "'c list \<Rightarrow> 'm \<Rightarrow> 'v"
    and refs :: "'c list \<Rightarrow> 'm \<Rightarrow> nat set" +
  fixes into :: "'m \<Rightarrow> ('c list, 'm) state"
  assumes deep: "ok h x \<Longrightarrow> run_state (into x) h = (y, h') \<Longrightarrow>
    prefix h h' \<and> ok h' y \<and> val h' y = val h x \<and> refs h' y \<subseteq> {length h..<length h'}"
begin

text \<open>Original and copy have no cell in common, so a change to the cells of one is not seen through the
  other.\<close>

lemma disjoint:
  assumes "ok h x" and "run_state (into x) h = (y, h')"
  shows "refs h' x \<inter> refs h' y = {}"
proof -
  have "prefix h h'" "refs h' y \<subseteq> {length h..<length h'}" using deep [OF assms] by simp_all
  moreover have "refs h' x \<subseteq> {..<length h}"
    using longer [OF assms(1)] in_heap [OF assms(1)] calculation(1) by metis
  moreover have "{..<length h} \<inter> {length h..<length h'} = {}" by auto
  ultimately show ?thesis by blast
qed

lemma same_elsewhere:
  assumes "ok h' z" and "refs h' z \<inter> A = {}" and "length h' \<le> length h''"
    and "\<forall>a < length h'. a \<notin> A \<longrightarrow> h'' ! a = h' ! a"
  shows "ok h'' z \<and> val h'' z = val h' z"
proof -
  have "same_at (refs h' z) h' h''"
    unfolding same_at_def
  proof
    fix a
    assume "a \<in> refs h' z"
    then have "a < length h'" "a \<notin> A" using in_heap [OF assms(1)] assms(2) by auto
    then show "a < length h'' \<and> h'' ! a = h' ! a" using assms(3,4) by simp
  qed
  from local [OF assms(1) this] show ?thesis by simp
qed

lemma change_to_copy:
  assumes "ok h x" and "run_state (into x) h = (y, h')"
    and "length h' \<le> length h''" and "\<forall>a < length h'. a \<notin> refs h' y \<longrightarrow> h'' ! a = h' ! a"
  shows "ok h'' x \<and> val h'' x = val h x"
proof -
  have "ok h' x \<and> val h' x = val h x" using longer [OF assms(1)] deep [OF assms(1,2)] by blast
  with same_elsewhere [OF _ disjoint [OF assms(1,2)] assms(3,4)] show ?thesis by simp
qed

lemma change_to_original:
  assumes "ok h x" and "run_state (into x) h = (y, h')"
    and "length h' \<le> length h''" and "\<forall>a < length h'. a \<notin> refs h' x \<longrightarrow> h'' ! a = h' ! a"
  shows "ok h'' y \<and> val h'' y = val h x"
proof -
  have "ok h' y \<and> val h' y = val h x" using deep [OF assms(1,2)] by blast
  moreover have "refs h' y \<inter> refs h' x = {}" using disjoint [OF assms(1,2)] by blast
  ultimately show ?thesis using same_elsewhere [OF _ _ assms(3,4), of y] by simp
qed

end

section \<open>Steps of a copy\<close>

text \<open>
  \<open>y\<close> is, in the heap \<open>h\<close>, a deep copy of the \<open>x\<close> of the heap \<open>h0\<close>; \<open>kept\<close> is what holds however the heap grows.
  \<open>copying P h0 m Q\<close>: when the heap has grown from \<open>h0\<close> and \<open>P\<close> is kept, the step \<open>m\<close> lets it grow, to one
  that satisfies \<open>Q\<close>.
\<close>

definition is_copy ::
  "('c list \<Rightarrow> 'm \<Rightarrow> bool) \<Rightarrow> ('c list \<Rightarrow> 'm \<Rightarrow> 'v) \<Rightarrow> ('c list \<Rightarrow> 'm \<Rightarrow> nat set) \<Rightarrow>
   'c list \<Rightarrow> 'm \<Rightarrow> 'm \<Rightarrow> 'c list \<Rightarrow> bool"
where
  "is_copy ok val refs h0 x y h \<longleftrightarrow>
     ok h y \<and> val h y = val h0 x \<and> refs h y \<subseteq> {length h0..<length h}"

definition kept :: "('c list \<Rightarrow> bool) \<Rightarrow> 'c list \<Rightarrow> bool" where
  "kept P h \<longleftrightarrow> (\<forall>h'. prefix h h' \<longrightarrow> P h')"

definition copying ::
  "('c list \<Rightarrow> bool) \<Rightarrow> 'c list \<Rightarrow> ('c list, 'a) state \<Rightarrow> ('a \<Rightarrow> 'c list \<Rightarrow> bool) \<Rightarrow> bool"
where
  "copying P h0 m Q \<longleftrightarrow>
     (\<forall>h. prefix h0 h \<longrightarrow> kept P h \<longrightarrow> (case run_state m h of (y, h') \<Rightarrow> prefix h h' \<and> Q y h'))"

lemma kept_now: "kept P h \<Longrightarrow> P h"
  by (simp add: kept_def)

lemma kept_later: "kept P h \<Longrightarrow> prefix h h' \<Longrightarrow> kept P h'"
  by (auto simp: kept_def intro: prefix_order.trans)

lemma copying_ret: "(\<And>h. P h \<Longrightarrow> Q y h) \<Longrightarrow> copying P h0 (ret y) Q"
  by (simp add: copying_def kept_now)

context deep_copier
begin

lemma kept_copy:
  assumes "ok h0 x" and "prefix h0 h" and "run_state (into x) h = (y, h')"
  shows "prefix h h'" and "kept (is_copy ok val refs h0 x y) h'"
proof -
  have x: "ok h x" "val h x = val h0 x" using longer [OF assms(1,2)] by simp_all
  note d = deep [OF x(1) assms(3)]
  show "prefix h h'" using d by blast
  show "kept (is_copy ok val refs h0 x y) h'"
    unfolding kept_def is_copy_def
  proof (intro allI impI)
    fix h1
    assume h1: "prefix h' h1"
    from h1 assms(2) have "{length h..<length h'} \<subseteq> {length h0..<length h1}"
      by (auto dest: prefix_length_le)
    moreover have "ok h1 y \<and> val h1 y = val h' y \<and> refs h1 y = refs h' y"
      using longer [OF _ h1] d by blast
    ultimately show "ok h1 y \<and> val h1 y = val h0 x \<and> refs h1 y \<subseteq> {length h0..<length h1}"
      using d x(2) by (metis subset_trans)
  qed
qed

text \<open>A field is copied, and stays copied while the others are.\<close>

lemma copying_field:
  assumes "ok h0 x" and "\<And>y. copying (\<lambda>h. P h \<and> is_copy ok val refs h0 x y h) h0 (f y) Q"
  shows "copying P h0 (State_Monad.bind (into x) f) Q"
  unfolding copying_def
proof (intro allI impI, goal_cases)
  case (1 h)
  obtain y h1 where y: "run_state (into x) h = (y, h1)" by fastforce
  note c = kept_copy [OF assms(1) 1(1) y]
  have "prefix h0 h1" using 1(1) c(1) by (rule prefix_order.trans)
  moreover have "kept (\<lambda>h. P h \<and> is_copy ok val refs h0 x y h) h1"
    using kept_later [OF 1(2) c(1)] c(2) by (simp add: kept_def)
  ultimately show ?case
    using assms(2) [of y] c(1) y unfolding copying_def
    by (auto split: prod.splits intro: prefix_order.trans)
qed

end

text \<open>A struct is deeply copied when its fields are.\<close>

lemma deep_copierI:
  assumes "memory_type ok val refs"
    and "\<And>h x. ok h x \<Longrightarrow> copying (\<lambda>h. True) h (into x) (is_copy ok val refs h x)"
  shows "deep_copier ok val refs into"
proof (rule deep_copier.intro [OF assms(1) deep_copier_axioms.intro], goal_cases)
  case (1 h x y h')
  have "kept (\<lambda>h. True) h" by (simp add: kept_def)
  from assms(2) [OF 1(1), unfolded copying_def, rule_format, OF prefix_order.refl this] 1(2)
  show ?case by (simp add: is_copy_def)
qed

section \<open>Pointers and slices\<close>

definition ptr_ok :: "('c \<Rightarrow> bool) \<Rightarrow> ('c \<Rightarrow> 'a) \<Rightarrow> ('c list \<Rightarrow> 'a \<Rightarrow> bool) \<Rightarrow> 'c list \<Rightarrow> ptr \<Rightarrow> bool" where
  "ptr_ok is sel ok h p \<longleftrightarrow>
     (case p of None \<Rightarrow> True | Some a \<Rightarrow> a < length h \<and> is (h ! a) \<and> ok h (sel (h ! a)))"

definition ptr_val :: "('c \<Rightarrow> 'a) \<Rightarrow> ('c list \<Rightarrow> 'a \<Rightarrow> 'v) \<Rightarrow> 'c list \<Rightarrow> ptr \<Rightarrow> 'v option" where
  "ptr_val sel val h p = map_option (\<lambda>a. val h (sel (h ! a))) p"

definition ptr_refs :: "('c \<Rightarrow> 'a) \<Rightarrow> ('c list \<Rightarrow> 'a \<Rightarrow> nat set) \<Rightarrow> 'c list \<Rightarrow> ptr \<Rightarrow> nat set" where
  "ptr_refs sel refs h p = (case p of None \<Rightarrow> {} | Some a \<Rightarrow> insert a (refs h (sel (h ! a))))"

definition slice_ok ::
  "('c \<Rightarrow> bool) \<Rightarrow> ('c \<Rightarrow> 'a list) \<Rightarrow> ('c list \<Rightarrow> 'a \<Rightarrow> bool) \<Rightarrow> 'c list \<Rightarrow> slice option \<Rightarrow> bool" where
  "slice_ok is sel ok h s \<longleftrightarrow>
     (case s of
        None \<Rightarrow> True
      | Some sl \<Rightarrow> sl_array sl < length h \<and> is (h ! sl_array sl) \<and> sl_len sl \<le> sl_cap sl \<and>
          sl_off sl + sl_cap sl \<le> length (sel (h ! sl_array sl)) \<and>
          (\<forall>x \<in> set (window sl (sel (h ! sl_array sl))). ok h x))"

definition slice_val ::
  "('c \<Rightarrow> 'a list) \<Rightarrow> ('c list \<Rightarrow> 'a \<Rightarrow> 'v) \<Rightarrow> 'c list \<Rightarrow> slice option \<Rightarrow> 'v list" where
  "slice_val sel val h s =
     (case s of None \<Rightarrow> [] | Some sl \<Rightarrow> map (val h) (window sl (sel (h ! sl_array sl))))"

definition slice_refs ::
  "('c \<Rightarrow> 'a list) \<Rightarrow> ('c list \<Rightarrow> 'a \<Rightarrow> nat set) \<Rightarrow> 'c list \<Rightarrow> slice option \<Rightarrow> nat set" where
  "slice_refs sel refs h s =
     (case s of
        None \<Rightarrow> {}
      | Some sl \<Rightarrow> insert (sl_array sl) (\<Union>x \<in> set (window sl (sel (h ! sl_array sl))). refs h x))"

lemmas ptr_defs = ptr_ok_def ptr_val_def ptr_refs_def
lemmas slice_defs = slice_ok_def slice_val_def slice_refs_def

context memory_type
begin

lemma pointer: "memory_type (ptr_ok is sel ok) (ptr_val sel val) (ptr_refs sel refs)"
proof (unfold_locales, goal_cases)
  case (1 h p)
  then show ?case using in_heap by (fastforce simp: ptr_defs split: option.splits)
next
  case (2 h p h')
  show ?case
  proof (cases p)
    case None
    then show ?thesis by (simp add: ptr_defs)
  next
    case (Some a)
    with 2 local [of h "sel (h ! a)" h'] show ?thesis by (simp add: ptr_defs)
  qed
qed

lemma sliced: "memory_type (slice_ok is sel ok) (slice_val sel val) (slice_refs sel refs)"
proof (unfold_locales, goal_cases)
  case (1 h s)
  then show ?case using in_heap by (fastforce simp: slice_defs split: option.splits)
next
  case (2 h s h')
  show ?case
  proof (cases s)
    case None
    then show ?thesis by (simp add: slice_defs)
  next
    case (Some sl)
    with 2 have "ok h' x \<and> val h' x = val h x \<and> refs h' x = refs h x"
      if "x \<in> set (window sl (sel (h ! sl_array sl)))" for x
      using that by (intro local) (auto simp: slice_defs same_at_UN)
    with 2 Some show ?thesis by (auto simp: slice_defs)
  qed
qed

end

context deep_copier
begin

lemma kept_list:
  assumes "list_all (ok h0) xs" and "prefix h0 h" and "run_state (map_copy into xs) h = (ys, h')"
  shows "prefix h h' \<and> list_all2 (\<lambda>x y. kept (is_copy ok val refs h0 x y) h') xs ys"
  using assms
proof (induction xs arbitrary: h ys)
  case Nil
  then show ?case by simp
next
  case (Cons x xs)
  obtain y h1 where y: "run_state (into x) h = (y, h1)" by fastforce
  obtain zs where zs: "run_state (map_copy into xs) h1 = (zs, h')" "ys = y # zs"
    using Cons.prems(3) y by (auto split: prod.splits)
  have x: "ok h0 x" "list_all (ok h0) xs" using Cons.prems(1) by simp_all
  note c = kept_copy [OF x(1) Cons.prems(2) y]
  have "prefix h1 h' \<and> list_all2 (\<lambda>x y. kept (is_copy ok val refs h0 x y) h') xs zs"
    using Cons.IH [OF x(2) _ zs(1)] Cons.prems(2) c(1) by (blast intro: prefix_order.trans)
  with kept_later [OF c(2)] c(1) zs(2) show ?case by (auto intro: prefix_order.trans)
qed

text \<open>For any constructor of cells, the copy of a pointer and of a slice are deep copies.\<close>

lemma deep_pointer:
  assumes cell: "\<And>y. is (mk y) \<and> sel (mk y) = y"
  shows "deep_copier (ptr_ok is sel ok) (ptr_val sel val) (ptr_refs sel refs) (clone_ptr mk sel into)"
proof (rule deep_copier.intro [OF pointer], unfold_locales, goal_cases)
  case (1 h p q h')
  show ?case
  proof (cases p)
    case None
    with 1 show ?thesis by (simp add: clone_ptr_def ptr_defs)
  next
    case (Some a)
    obtain y h1 where y: "run_state (into (sel (h ! a))) h = (y, h1)" by fastforce
    have x: "ok h (sel (h ! a))" using 1(1) Some by (simp add: ptr_ok_def)
    have q: "q = Some (length h1)" "h' = h1 @ [mk y]"
      using 1(2) Some y by (simp_all add: clone_ptr_def)
    note c = kept_copy [OF x prefix_order.refl y]
    have le: "length h \<le> length h1" using c(1) by (rule prefix_length_le)
    have "ok h' y \<and> val h' y = val h (sel (h ! a)) \<and> refs h' y \<subseteq> {length h..<length h'}"
      using kept_now [OF kept_later [OF c(2), of h']] q(2) by (simp add: is_copy_def)
    with c(1) le show ?thesis by (auto simp: q Some ptr_defs cell intro: prefix_order.trans)
  qed
qed

lemma deep_slice:
  assumes cell: "\<And>ys. is (mk ys) \<and> sel (mk ys) = ys"
  shows "deep_copier (slice_ok is sel ok) (slice_val sel val) (slice_refs sel refs) (clone_slice mk sel into)"
proof (rule deep_copier.intro [OF sliced], unfold_locales, goal_cases)
  case (1 h s t h')
  show ?case
  proof (cases s)
    case None
    with 1 show ?thesis by (simp add: clone_slice_def slice_defs)
  next
    case (Some sl)
    let ?xs = "window sl (sel (h ! sl_array sl))"
    obtain ys h1 where ys: "run_state (map_copy into ?xs) h = (ys, h1)" by fastforce
    have xs: "list_all (ok h) ?xs" using 1(1) Some by (simp add: slice_ok_def list_all_iff)
    have t: "t = Some \<lparr>sl_array = length h1, sl_off = 0, sl_len = length ys, sl_cap = length ys\<rparr>"
      "h' = h1 @ [mk ys]"
      using 1(2) Some ys by (simp_all add: clone_slice_def)
    note c = kept_list [OF xs prefix_order.refl ys]
    have le: "length h \<le> length h1" using c by (auto dest: prefix_length_le)
    have each: "list_all2 (\<lambda>x y. ok h' y \<and> val h' y = val h x \<and> refs h' y \<subseteq> {length h..<length h'}) ?xs ys"
      by (rule list_all2_mono [OF conjunct2 [OF c]])
        (drule kept_later [of _ h1 h'], simp add: t(2), drule kept_now, simp add: is_copy_def)
    then have "map (val h') ys = map (val h) ?xs"
      by (induction rule: list_all2_induct) simp_all
    moreover have "\<forall>y \<in> set ys. ok h' y \<and> refs h' y \<subseteq> {length h..<length h'}"
      using each by (induction rule: list_all2_induct) auto
    moreover have "window \<lparr>sl_array = length h1, sl_off = 0, sl_len = length ys, sl_cap = length ys\<rparr> ys = ys"
      by (simp add: window_def)
    ultimately show ?thesis
      using c le by (auto simp: t Some slice_defs cell intro: prefix_order.trans)
  qed
qed

end

section \<open>Values without pointers\<close>

definition flat_ok :: "'c list \<Rightarrow> 'a \<Rightarrow> bool" where "flat_ok h x = True"
definition flat_val :: "'c list \<Rightarrow> 'a \<Rightarrow> 'a" where "flat_val h x = x"
definition flat_refs :: "'c list \<Rightarrow> 'a \<Rightarrow> nat set" where "flat_refs h x = {}"

lemmas flat_defs = flat_ok_def flat_val_def flat_refs_def

text \<open>An assignment copies them, and so does every copier that returns them as they are.\<close>

lemma flat_copier:
  assumes "\<And>h x. fst (run_state (into x) h) = x \<and> prefix h (snd (run_state (into x) h))"
  shows "deep_copier flat_ok flat_val flat_refs into"
proof (unfold_locales, goal_cases)
  case (3 h x y h')
  then show ?case using assms [of x h] by (simp add: flat_defs)
qed (simp_all add: flat_defs)

lemma flat_assign: "deep_copier flat_ok flat_val flat_refs ret"
  by (rule flat_copier) simp

end
