(* ===== verification/DeepCopy.thy ===== *)
theory DeepCopy
  imports GoHeap Types
begin

text \<open>
  \<open>api/v1alpha1/zz_generated.deepcopy.go\<close>: the copies that the cache of the client hands out, so that a
  controller may change what it got. Here a struct is what lies in memory: a pointer is an address, a
  slice a window on an array; structs without pointers are those of theory Types. \<open>X_DeepCopyInto\<close>
  gives the new contents of \<open>*out\<close>; it starts from the struct as it is (\<open>*out = *in\<close>) and replaces
  what the code replaces. The copies of \<open>metav1.Time\<close>, \<open>ObjectMeta\<close> and \<open>ListMeta\<close> are the
  library's: parameters, with the types of the two metadata.
\<close>

section \<open>Structs in memory\<close>

record TypeMeta =
  tm_Kind :: string
  tm_APIVersion :: string

record mContainerStateTransition =
  mcst_From :: string
  mcst_To :: string
  mcst_Reason :: string
  mcst_ExitCode :: ptr
  mcst_Timestamp :: time

record mContainerStatusInfo =
  mcsi_Name :: string
  mcsi_State :: string
  mcsi_Reason :: string
  mcsi_ExitCode :: ptr
  mcsi_RestartCount :: int32
  mcsi_OOMKilled :: bool
  mcsi_StateHistory :: "slice option"

record mLogStorageSpec =
  mls_PVCName :: string
  mls_MaxSizeMB :: ptr

record mDetectiveConfigSpec =
  mdc_Repositories :: "slice option"
  mdc_PollInterval :: ptr
  mdc_LogStorage :: mLogStorageSpec
  mdc_RetentionPeriod :: ptr
  mdc_MaxInvestigations :: ptr

record mEphemeralRunnerInfo =
  mer_Name :: string
  mer_Namespace :: string
  mer_Phase :: string
  mer_StatusHistory :: "slice option"

record mJobInfo =
  mji_ID :: int64
  mji_Name :: string
  mji_Status :: string
  mji_Conclusion :: string
  mji_RunnerName :: string
  mji_StartedAt :: ptr
  mji_CompletedAt :: ptr
  mji_Steps :: "slice option"

record mPodInfo =
  mpi_Name :: string
  mpi_Namespace :: string
  mpi_Phase :: string
  mpi_PhaseHistory :: "slice option"
  mpi_ConditionTransitions :: "slice option"
  mpi_Conditions :: "slice option"
  mpi_ContainerStatuses :: "slice option"
  mpi_Events :: "slice option"
  mpi_NodeName :: string

record mInvestigationSpec =
  msp_Trigger :: InvestigationTrigger
  msp_WorkflowRun :: ptr
  msp_Job :: ptr
  msp_EphemeralRunner :: ptr
  msp_Pod :: ptr
  msp_Timeline :: "slice option"
  msp_Diagnosis :: ptr
  msp_LogPaths :: "slice option"

record 'm mDetectiveConfig =
  mcfg_TypeMeta :: TypeMeta
  mcfg_Meta :: 'm
  mcfg_Spec :: mDetectiveConfigSpec
  mcfg_Status :: DetectiveConfigStatus

record 'm mInvestigation =
  minv_TypeMeta :: TypeMeta
  minv_Meta :: 'm
  minv_Spec :: mInvestigationSpec
  minv_Status :: InvestigationStatus

record 'l mDetectiveConfigList =
  mcfgs_TypeMeta :: TypeMeta
  mcfgs_Meta :: 'l
  mcfgs_Items :: "slice option"

record 'l mInvestigationList =
  minvs_TypeMeta :: TypeMeta
  minvs_Meta :: 'l
  minvs_Items :: "slice option"

section \<open>Cells\<close>

text \<open>What an address holds: a basic value, a struct, or the array of a slice.\<close>

datatype plain =
    ConditionTransitionPlain (the_ConditionTransitionPlain: ConditionTransition)
  | DetectiveConfigStatusPlain (the_DetectiveConfigStatusPlain: DetectiveConfigStatus)
  | DiagnosisPlain (the_DiagnosisPlain: Diagnosis)
  | EventSnapshotPlain (the_EventSnapshotPlain: EventSnapshot)
  | InvestigationStatusPlain (the_InvestigationStatusPlain: InvestigationStatus)
  | InvestigationTriggerPlain (the_InvestigationTriggerPlain: InvestigationTrigger)
  | JobStepPlain (the_JobStepPlain: JobStep)
  | PodConditionSnapshotPlain (the_PodConditionSnapshotPlain: PodConditionSnapshot)
  | RepositoryRefPlain (the_RepositoryRefPlain: RepositoryRef)
  | StatusTransitionPlain (the_StatusTransitionPlain: StatusTransition)
  | TimelineEventPlain (the_TimelineEventPlain: TimelineEvent)
  | WorkflowRunInfoPlain (the_WorkflowRunInfoPlain: WorkflowRunInfo)

datatype 'm array =
    StringArray (the_StringArray: "string list")
  | RepositoryRefArray (the_RepositoryRefArray: "RepositoryRef list")
  | StatusTransitionArray (the_StatusTransitionArray: "StatusTransition list")
  | ConditionTransitionArray (the_ConditionTransitionArray: "ConditionTransition list")
  | PodConditionSnapshotArray (the_PodConditionSnapshotArray: "PodConditionSnapshot list")
  | EventSnapshotArray (the_EventSnapshotArray: "EventSnapshot list")
  | ContainerStateTransitionArray (the_ContainerStateTransitionArray: "mContainerStateTransition list")
  | ContainerStatusInfoArray (the_ContainerStatusInfoArray: "mContainerStatusInfo list")
  | JobStepArray (the_JobStepArray: "JobStep list")
  | TimelineEventArray (the_TimelineEventArray: "TimelineEvent list")
  | DetectiveConfigArray (the_DetectiveConfigArray: "'m mDetectiveConfig list")
  | InvestigationArray (the_InvestigationArray: "'m mInvestigation list")

datatype ('m, 'l) cell =
    Int32Cell (the_Int32Cell: int32)
  | IntCell (the_IntCell: int)
  | DurationCell (the_DurationCell: duration)
  | TimeCell (the_TimeCell: time)
  | ContainerStateTransitionCell (the_ContainerStateTransitionCell: mContainerStateTransition)
  | ContainerStatusInfoCell (the_ContainerStatusInfoCell: mContainerStatusInfo)
  | LogStorageSpecCell (the_LogStorageSpecCell: mLogStorageSpec)
  | DetectiveConfigSpecCell (the_DetectiveConfigSpecCell: mDetectiveConfigSpec)
  | EphemeralRunnerInfoCell (the_EphemeralRunnerInfoCell: mEphemeralRunnerInfo)
  | JobInfoCell (the_JobInfoCell: mJobInfo)
  | PodInfoCell (the_PodInfoCell: mPodInfo)
  | InvestigationSpecCell (the_InvestigationSpecCell: mInvestigationSpec)
  | DetectiveConfigCell (the_DetectiveConfigCell: "'m mDetectiveConfig")
  | InvestigationCell (the_InvestigationCell: "'m mInvestigation")
  | DetectiveConfigListCell (the_DetectiveConfigListCell: "'l mDetectiveConfigList")
  | InvestigationListCell (the_InvestigationListCell: "'l mInvestigationList")
  | PlainCell (the_PlainCell: plain)
  | ArrayCell (the_ArrayCell: "'m array")

abbreviation clone_plain ::
  "('a \<Rightarrow> plain) \<Rightarrow> (plain \<Rightarrow> 'a) \<Rightarrow> ('a \<Rightarrow> (('m, 'l) cell list, 'a) state) \<Rightarrow>
   ptr \<Rightarrow> (('m, 'l) cell list, ptr) state"
where
  "clone_plain mk sel \<equiv> clone_ptr (\<lambda>y. PlainCell (mk y)) (\<lambda>c. sel (the_PlainCell c))"

abbreviation clone_array ::
  "('a list \<Rightarrow> 'm array) \<Rightarrow> ('m array \<Rightarrow> 'a list) \<Rightarrow> ('a \<Rightarrow> (('m, 'l) cell list, 'a) state) \<Rightarrow>
   slice option \<Rightarrow> (('m, 'l) cell list, slice option) state"
where
  "clone_array mk sel \<equiv> clone_slice (\<lambda>ys. ArrayCell (mk ys)) (\<lambda>c. sel (the_ArrayCell c))"

text \<open>The library's copies: \<open>DeepCopyInto\<close> of a time, \<open>DeepCopy\<close> of a pointer to one, \<open>DeepCopyInto\<close> of metadata.\<close>

record ('m, 'l) apimachinery =
  am_Time :: "time \<Rightarrow> (('m, 'l) cell list, time) state"
  am_TimePtr :: "ptr \<Rightarrow> (('m, 'l) cell list, ptr) state"
  am_ObjectMeta :: "'m \<Rightarrow> (('m, 'l) cell list, 'm) state"
  am_ListMeta :: "'l \<Rightarrow> (('m, 'l) cell list, 'l) state"

section \<open>The copies\<close>

definition ConditionTransition_DeepCopyInto ::
  "('m, 'l) apimachinery \<Rightarrow> ConditionTransition \<Rightarrow>
   (('m, 'l) cell list, ConditionTransition) state"
where
  "ConditionTransition_DeepCopyInto lib x = do {
     t \<leftarrow> am_Time lib (ct_Timestamp x);
     ret (x\<lparr>ct_Timestamp := t\<rparr>)
   }"

definition ConditionTransition_DeepCopy ::
  "('m, 'l) apimachinery \<Rightarrow> ptr \<Rightarrow> (('m, 'l) cell list, ptr) state"
where
  "ConditionTransition_DeepCopy lib =
     clone_plain ConditionTransitionPlain the_ConditionTransitionPlain
       (ConditionTransition_DeepCopyInto lib)"

definition DetectiveConfigStatus_DeepCopyInto ::
  "DetectiveConfigStatus \<Rightarrow> (('m, 'l) cell list, DetectiveConfigStatus) state"
where
  "DetectiveConfigStatus_DeepCopyInto x = ret x"

definition DetectiveConfigStatus_DeepCopy ::
  "ptr \<Rightarrow> (('m, 'l) cell list, ptr) state"
where
  "DetectiveConfigStatus_DeepCopy =
     clone_plain DetectiveConfigStatusPlain the_DetectiveConfigStatusPlain
       DetectiveConfigStatus_DeepCopyInto"

definition Diagnosis_DeepCopyInto ::
  "Diagnosis \<Rightarrow> (('m, 'l) cell list, Diagnosis) state"
where
  "Diagnosis_DeepCopyInto x = ret x"

definition Diagnosis_DeepCopy ::
  "ptr \<Rightarrow> (('m, 'l) cell list, ptr) state"
where
  "Diagnosis_DeepCopy = clone_plain DiagnosisPlain the_DiagnosisPlain Diagnosis_DeepCopyInto"

definition EventSnapshot_DeepCopyInto ::
  "('m, 'l) apimachinery \<Rightarrow> EventSnapshot \<Rightarrow>
   (('m, 'l) cell list, EventSnapshot) state"
where
  "EventSnapshot_DeepCopyInto lib x = do {
     t0 \<leftarrow> am_Time lib (ev_FirstSeen x);
     t1 \<leftarrow> am_Time lib (ev_LastSeen x);
     ret (x\<lparr>ev_FirstSeen := t0, ev_LastSeen := t1\<rparr>)
   }"

definition EventSnapshot_DeepCopy ::
  "('m, 'l) apimachinery \<Rightarrow> ptr \<Rightarrow> (('m, 'l) cell list, ptr) state"
where
  "EventSnapshot_DeepCopy lib =
     clone_plain EventSnapshotPlain the_EventSnapshotPlain (EventSnapshot_DeepCopyInto lib)"

definition InvestigationStatus_DeepCopyInto ::
  "InvestigationStatus \<Rightarrow> (('m, 'l) cell list, InvestigationStatus) state"
where
  "InvestigationStatus_DeepCopyInto x = ret x"

definition InvestigationStatus_DeepCopy ::
  "ptr \<Rightarrow> (('m, 'l) cell list, ptr) state"
where
  "InvestigationStatus_DeepCopy =
     clone_plain InvestigationStatusPlain the_InvestigationStatusPlain InvestigationStatus_DeepCopyInto"

definition InvestigationTrigger_DeepCopyInto ::
  "InvestigationTrigger \<Rightarrow> (('m, 'l) cell list, InvestigationTrigger) state"
where
  "InvestigationTrigger_DeepCopyInto x = ret x"

definition InvestigationTrigger_DeepCopy ::
  "ptr \<Rightarrow> (('m, 'l) cell list, ptr) state"
where
  "InvestigationTrigger_DeepCopy =
     clone_plain InvestigationTriggerPlain the_InvestigationTriggerPlain
       InvestigationTrigger_DeepCopyInto"

definition JobStep_DeepCopyInto ::
  "JobStep \<Rightarrow> (('m, 'l) cell list, JobStep) state"
where
  "JobStep_DeepCopyInto x = ret x"

definition JobStep_DeepCopy ::
  "ptr \<Rightarrow> (('m, 'l) cell list, ptr) state"
where
  "JobStep_DeepCopy = clone_plain JobStepPlain the_JobStepPlain JobStep_DeepCopyInto"

definition PodConditionSnapshot_DeepCopyInto ::
  "PodConditionSnapshot \<Rightarrow> (('m, 'l) cell list, PodConditionSnapshot) state"
where
  "PodConditionSnapshot_DeepCopyInto x = ret x"

definition PodConditionSnapshot_DeepCopy ::
  "ptr \<Rightarrow> (('m, 'l) cell list, ptr) state"
where
  "PodConditionSnapshot_DeepCopy =
     clone_plain PodConditionSnapshotPlain the_PodConditionSnapshotPlain
       PodConditionSnapshot_DeepCopyInto"

definition RepositoryRef_DeepCopyInto ::
  "RepositoryRef \<Rightarrow> (('m, 'l) cell list, RepositoryRef) state"
where
  "RepositoryRef_DeepCopyInto x = ret x"

definition RepositoryRef_DeepCopy ::
  "ptr \<Rightarrow> (('m, 'l) cell list, ptr) state"
where
  "RepositoryRef_DeepCopy =
     clone_plain RepositoryRefPlain the_RepositoryRefPlain RepositoryRef_DeepCopyInto"

definition StatusTransition_DeepCopyInto ::
  "('m, 'l) apimachinery \<Rightarrow> StatusTransition \<Rightarrow>
   (('m, 'l) cell list, StatusTransition) state"
where
  "StatusTransition_DeepCopyInto lib x = do {
     t \<leftarrow> am_Time lib (st_Timestamp x);
     ret (x\<lparr>st_Timestamp := t\<rparr>)
   }"

definition StatusTransition_DeepCopy ::
  "('m, 'l) apimachinery \<Rightarrow> ptr \<Rightarrow> (('m, 'l) cell list, ptr) state"
where
  "StatusTransition_DeepCopy lib =
     clone_plain StatusTransitionPlain the_StatusTransitionPlain (StatusTransition_DeepCopyInto lib)"

definition TimelineEvent_DeepCopyInto ::
  "('m, 'l) apimachinery \<Rightarrow> TimelineEvent \<Rightarrow>
   (('m, 'l) cell list, TimelineEvent) state"
where
  "TimelineEvent_DeepCopyInto lib x = do {
     t \<leftarrow> am_Time lib (tl_Timestamp x);
     ret (x\<lparr>tl_Timestamp := t\<rparr>)
   }"

definition TimelineEvent_DeepCopy ::
  "('m, 'l) apimachinery \<Rightarrow> ptr \<Rightarrow> (('m, 'l) cell list, ptr) state"
where
  "TimelineEvent_DeepCopy lib =
     clone_plain TimelineEventPlain the_TimelineEventPlain (TimelineEvent_DeepCopyInto lib)"

definition WorkflowRunInfo_DeepCopyInto ::
  "WorkflowRunInfo \<Rightarrow> (('m, 'l) cell list, WorkflowRunInfo) state"
where
  "WorkflowRunInfo_DeepCopyInto x = ret x"

definition WorkflowRunInfo_DeepCopy ::
  "ptr \<Rightarrow> (('m, 'l) cell list, ptr) state"
where
  "WorkflowRunInfo_DeepCopy =
     clone_plain WorkflowRunInfoPlain the_WorkflowRunInfoPlain WorkflowRunInfo_DeepCopyInto"

definition ContainerStateTransition_DeepCopyInto ::
  "('m, 'l) apimachinery \<Rightarrow> mContainerStateTransition \<Rightarrow>
   (('m, 'l) cell list, mContainerStateTransition) state"
where
  "ContainerStateTransition_DeepCopyInto lib x = do {
     code \<leftarrow> clone_ptr Int32Cell the_Int32Cell ret (mcst_ExitCode x);
     t \<leftarrow> am_Time lib (mcst_Timestamp x);
     ret (x\<lparr>mcst_ExitCode := code,
       mcst_Timestamp := t\<rparr>)
   }"

definition ContainerStateTransition_DeepCopy ::
  "('m, 'l) apimachinery \<Rightarrow> ptr \<Rightarrow> (('m, 'l) cell list, ptr) state"
where
  "ContainerStateTransition_DeepCopy lib =
     clone_ptr ContainerStateTransitionCell the_ContainerStateTransitionCell
       (ContainerStateTransition_DeepCopyInto lib)"

definition ContainerStatusInfo_DeepCopyInto ::
  "('m, 'l) apimachinery \<Rightarrow> mContainerStatusInfo \<Rightarrow>
   (('m, 'l) cell list, mContainerStatusInfo) state"
where
  "ContainerStatusInfo_DeepCopyInto lib x = do {
     code \<leftarrow> clone_ptr Int32Cell the_Int32Cell ret (mcsi_ExitCode x);
     stateHistory \<leftarrow> clone_array ContainerStateTransitionArray the_ContainerStateTransitionArray
       (ContainerStateTransition_DeepCopyInto lib) (mcsi_StateHistory x);
     ret (x\<lparr>mcsi_ExitCode := code,
       mcsi_StateHistory := stateHistory\<rparr>)
   }"

definition ContainerStatusInfo_DeepCopy ::
  "('m, 'l) apimachinery \<Rightarrow> ptr \<Rightarrow> (('m, 'l) cell list, ptr) state"
where
  "ContainerStatusInfo_DeepCopy lib =
     clone_ptr ContainerStatusInfoCell the_ContainerStatusInfoCell
       (ContainerStatusInfo_DeepCopyInto lib)"

definition LogStorageSpec_DeepCopyInto ::
  "mLogStorageSpec \<Rightarrow> (('m, 'l) cell list, mLogStorageSpec) state"
where
  "LogStorageSpec_DeepCopyInto x = do {
     maxSizeMB \<leftarrow> clone_ptr IntCell the_IntCell ret (mls_MaxSizeMB x);
     ret (x\<lparr>mls_MaxSizeMB := maxSizeMB\<rparr>)
   }"

definition LogStorageSpec_DeepCopy ::
  "ptr \<Rightarrow> (('m, 'l) cell list, ptr) state"
where
  "LogStorageSpec_DeepCopy =
     clone_ptr LogStorageSpecCell the_LogStorageSpecCell LogStorageSpec_DeepCopyInto"

definition DetectiveConfigSpec_DeepCopyInto ::
  "mDetectiveConfigSpec \<Rightarrow> (('m, 'l) cell list, mDetectiveConfigSpec) state"
where
  "DetectiveConfigSpec_DeepCopyInto x = do {
     repositories \<leftarrow> clone_array RepositoryRefArray the_RepositoryRefArray
       ret (mdc_Repositories x);
     pollInterval \<leftarrow> clone_ptr DurationCell the_DurationCell ret (mdc_PollInterval x);
     logStorage \<leftarrow> LogStorageSpec_DeepCopyInto (mdc_LogStorage x);
     retentionPeriod \<leftarrow> clone_ptr DurationCell the_DurationCell ret (mdc_RetentionPeriod x);
     maxInvestigations \<leftarrow> clone_ptr IntCell the_IntCell ret (mdc_MaxInvestigations x);
     ret (x\<lparr>mdc_Repositories := repositories,
       mdc_PollInterval := pollInterval,
       mdc_LogStorage := logStorage,
       mdc_RetentionPeriod := retentionPeriod,
       mdc_MaxInvestigations := maxInvestigations\<rparr>)
   }"

definition DetectiveConfigSpec_DeepCopy ::
  "ptr \<Rightarrow> (('m, 'l) cell list, ptr) state"
where
  "DetectiveConfigSpec_DeepCopy =
     clone_ptr DetectiveConfigSpecCell the_DetectiveConfigSpecCell DetectiveConfigSpec_DeepCopyInto"

definition EphemeralRunnerInfo_DeepCopyInto ::
  "('m, 'l) apimachinery \<Rightarrow> mEphemeralRunnerInfo \<Rightarrow>
   (('m, 'l) cell list, mEphemeralRunnerInfo) state"
where
  "EphemeralRunnerInfo_DeepCopyInto lib x = do {
     statusHistory \<leftarrow> clone_array StatusTransitionArray the_StatusTransitionArray
       (StatusTransition_DeepCopyInto lib) (mer_StatusHistory x);
     ret (x\<lparr>mer_StatusHistory := statusHistory\<rparr>)
   }"

definition EphemeralRunnerInfo_DeepCopy ::
  "('m, 'l) apimachinery \<Rightarrow> ptr \<Rightarrow> (('m, 'l) cell list, ptr) state"
where
  "EphemeralRunnerInfo_DeepCopy lib =
     clone_ptr EphemeralRunnerInfoCell the_EphemeralRunnerInfoCell
       (EphemeralRunnerInfo_DeepCopyInto lib)"

definition JobInfo_DeepCopyInto ::
  "('m, 'l) apimachinery \<Rightarrow> mJobInfo \<Rightarrow> (('m, 'l) cell list, mJobInfo) state"
where
  "JobInfo_DeepCopyInto lib x = do {
     startedAt \<leftarrow> am_TimePtr lib (mji_StartedAt x);
     completedAt \<leftarrow> am_TimePtr lib (mji_CompletedAt x);
     steps \<leftarrow> clone_array JobStepArray the_JobStepArray ret (mji_Steps x);
     ret (x\<lparr>mji_StartedAt := startedAt,
       mji_CompletedAt := completedAt,
       mji_Steps := steps\<rparr>)
   }"

definition JobInfo_DeepCopy ::
  "('m, 'l) apimachinery \<Rightarrow> ptr \<Rightarrow> (('m, 'l) cell list, ptr) state"
where
  "JobInfo_DeepCopy lib = clone_ptr JobInfoCell the_JobInfoCell (JobInfo_DeepCopyInto lib)"

definition PodInfo_DeepCopyInto ::
  "('m, 'l) apimachinery \<Rightarrow> mPodInfo \<Rightarrow> (('m, 'l) cell list, mPodInfo) state"
where
  "PodInfo_DeepCopyInto lib x = do {
     phaseHistory \<leftarrow> clone_array StatusTransitionArray the_StatusTransitionArray
       (StatusTransition_DeepCopyInto lib) (mpi_PhaseHistory x);
     conditionTransitions \<leftarrow> clone_array ConditionTransitionArray the_ConditionTransitionArray
       (ConditionTransition_DeepCopyInto lib) (mpi_ConditionTransitions x);
     conditions \<leftarrow> clone_array PodConditionSnapshotArray the_PodConditionSnapshotArray
       ret (mpi_Conditions x);
     containerStatuses \<leftarrow> clone_array ContainerStatusInfoArray the_ContainerStatusInfoArray
       (ContainerStatusInfo_DeepCopyInto lib) (mpi_ContainerStatuses x);
     events \<leftarrow> clone_array EventSnapshotArray the_EventSnapshotArray
       (EventSnapshot_DeepCopyInto lib) (mpi_Events x);
     ret (x\<lparr>mpi_PhaseHistory := phaseHistory,
       mpi_ConditionTransitions := conditionTransitions,
       mpi_Conditions := conditions,
       mpi_ContainerStatuses := containerStatuses,
       mpi_Events := events\<rparr>)
   }"

definition PodInfo_DeepCopy ::
  "('m, 'l) apimachinery \<Rightarrow> ptr \<Rightarrow> (('m, 'l) cell list, ptr) state"
where
  "PodInfo_DeepCopy lib = clone_ptr PodInfoCell the_PodInfoCell (PodInfo_DeepCopyInto lib)"

definition InvestigationSpec_DeepCopyInto ::
  "('m, 'l) apimachinery \<Rightarrow> mInvestigationSpec \<Rightarrow>
   (('m, 'l) cell list, mInvestigationSpec) state"
where
  "InvestigationSpec_DeepCopyInto lib x = do {
     workflowRun \<leftarrow> clone_plain WorkflowRunInfoPlain the_WorkflowRunInfoPlain
       ret (msp_WorkflowRun x);
     job \<leftarrow> clone_ptr JobInfoCell the_JobInfoCell (JobInfo_DeepCopyInto lib) (msp_Job x);
     ephemeralRunner \<leftarrow> clone_ptr EphemeralRunnerInfoCell the_EphemeralRunnerInfoCell
       (EphemeralRunnerInfo_DeepCopyInto lib) (msp_EphemeralRunner x);
     pod \<leftarrow> clone_ptr PodInfoCell the_PodInfoCell (PodInfo_DeepCopyInto lib) (msp_Pod x);
     timeline \<leftarrow> clone_array TimelineEventArray the_TimelineEventArray
       (TimelineEvent_DeepCopyInto lib) (msp_Timeline x);
     diagnosis \<leftarrow> clone_plain DiagnosisPlain the_DiagnosisPlain ret (msp_Diagnosis x);
     logPaths \<leftarrow> clone_array StringArray the_StringArray ret (msp_LogPaths x);
     ret (x\<lparr>msp_WorkflowRun := workflowRun,
       msp_Job := job,
       msp_EphemeralRunner := ephemeralRunner,
       msp_Pod := pod,
       msp_Timeline := timeline,
       msp_Diagnosis := diagnosis,
       msp_LogPaths := logPaths\<rparr>)
   }"

definition InvestigationSpec_DeepCopy ::
  "('m, 'l) apimachinery \<Rightarrow> ptr \<Rightarrow> (('m, 'l) cell list, ptr) state"
where
  "InvestigationSpec_DeepCopy lib =
     clone_ptr InvestigationSpecCell the_InvestigationSpecCell (InvestigationSpec_DeepCopyInto lib)"

definition DetectiveConfig_DeepCopyInto ::
  "('m, 'l) apimachinery \<Rightarrow> 'm mDetectiveConfig \<Rightarrow>
   (('m, 'l) cell list, 'm mDetectiveConfig) state"
where
  "DetectiveConfig_DeepCopyInto lib x = do {
     meta \<leftarrow> am_ObjectMeta lib (mcfg_Meta x);
     spec \<leftarrow> DetectiveConfigSpec_DeepCopyInto (mcfg_Spec x);
     ret (x\<lparr>mcfg_TypeMeta := mcfg_TypeMeta x, mcfg_Meta := meta,
       mcfg_Spec := spec, mcfg_Status := mcfg_Status x\<rparr>)
   }"

definition DetectiveConfig_DeepCopy ::
  "('m, 'l) apimachinery \<Rightarrow> ptr \<Rightarrow> (('m, 'l) cell list, ptr) state"
where
  "DetectiveConfig_DeepCopy lib =
     clone_ptr DetectiveConfigCell the_DetectiveConfigCell (DetectiveConfig_DeepCopyInto lib)"

definition DetectiveConfig_DeepCopyObject ::
  "('m, 'l) apimachinery \<Rightarrow> ptr \<Rightarrow> (('m, 'l) cell list, ptr) state"
where
  "DetectiveConfig_DeepCopyObject lib p = do {
     c \<leftarrow> DetectiveConfig_DeepCopy lib p;
     ret (case c of Some a \<Rightarrow> Some a | None \<Rightarrow> None)
   }"

definition DetectiveConfigList_DeepCopyInto ::
  "('m, 'l) apimachinery \<Rightarrow> 'l mDetectiveConfigList \<Rightarrow>
   (('m, 'l) cell list, 'l mDetectiveConfigList) state"
where
  "DetectiveConfigList_DeepCopyInto lib x = do {
     meta \<leftarrow> am_ListMeta lib (mcfgs_Meta x);
     items \<leftarrow> clone_array DetectiveConfigArray the_DetectiveConfigArray
       (DetectiveConfig_DeepCopyInto lib) (mcfgs_Items x);
     ret (x\<lparr>mcfgs_TypeMeta := mcfgs_TypeMeta x, mcfgs_Meta := meta, mcfgs_Items := items\<rparr>)
   }"

definition DetectiveConfigList_DeepCopy ::
  "('m, 'l) apimachinery \<Rightarrow> ptr \<Rightarrow> (('m, 'l) cell list, ptr) state"
where
  "DetectiveConfigList_DeepCopy lib =
     clone_ptr DetectiveConfigListCell the_DetectiveConfigListCell
       (DetectiveConfigList_DeepCopyInto lib)"

definition DetectiveConfigList_DeepCopyObject ::
  "('m, 'l) apimachinery \<Rightarrow> ptr \<Rightarrow> (('m, 'l) cell list, ptr) state"
where
  "DetectiveConfigList_DeepCopyObject lib p = do {
     c \<leftarrow> DetectiveConfigList_DeepCopy lib p;
     ret (case c of Some a \<Rightarrow> Some a | None \<Rightarrow> None)
   }"

definition Investigation_DeepCopyInto ::
  "('m, 'l) apimachinery \<Rightarrow> 'm mInvestigation \<Rightarrow>
   (('m, 'l) cell list, 'm mInvestigation) state"
where
  "Investigation_DeepCopyInto lib x = do {
     meta \<leftarrow> am_ObjectMeta lib (minv_Meta x);
     spec \<leftarrow> InvestigationSpec_DeepCopyInto lib (minv_Spec x);
     ret (x\<lparr>minv_TypeMeta := minv_TypeMeta x, minv_Meta := meta,
       minv_Spec := spec, minv_Status := minv_Status x\<rparr>)
   }"

definition Investigation_DeepCopy ::
  "('m, 'l) apimachinery \<Rightarrow> ptr \<Rightarrow> (('m, 'l) cell list, ptr) state"
where
  "Investigation_DeepCopy lib =
     clone_ptr InvestigationCell the_InvestigationCell (Investigation_DeepCopyInto lib)"

definition Investigation_DeepCopyObject ::
  "('m, 'l) apimachinery \<Rightarrow> ptr \<Rightarrow> (('m, 'l) cell list, ptr) state"
where
  "Investigation_DeepCopyObject lib p = do {
     c \<leftarrow> Investigation_DeepCopy lib p;
     ret (case c of Some a \<Rightarrow> Some a | None \<Rightarrow> None)
   }"

definition InvestigationList_DeepCopyInto ::
  "('m, 'l) apimachinery \<Rightarrow> 'l mInvestigationList \<Rightarrow>
   (('m, 'l) cell list, 'l mInvestigationList) state"
where
  "InvestigationList_DeepCopyInto lib x = do {
     meta \<leftarrow> am_ListMeta lib (minvs_Meta x);
     items \<leftarrow> clone_array InvestigationArray the_InvestigationArray
       (Investigation_DeepCopyInto lib) (minvs_Items x);
     ret (x\<lparr>minvs_TypeMeta := minvs_TypeMeta x, minvs_Meta := meta, minvs_Items := items\<rparr>)
   }"

definition InvestigationList_DeepCopy ::
  "('m, 'l) apimachinery \<Rightarrow> ptr \<Rightarrow> (('m, 'l) cell list, ptr) state"
where
  "InvestigationList_DeepCopy lib =
     clone_ptr InvestigationListCell the_InvestigationListCell (InvestigationList_DeepCopyInto lib)"

definition InvestigationList_DeepCopyObject ::
  "('m, 'l) apimachinery \<Rightarrow> ptr \<Rightarrow> (('m, 'l) cell list, ptr) state"
where
  "InvestigationList_DeepCopyObject lib p = do {
     c \<leftarrow> InvestigationList_DeepCopy lib p;
     ret (case c of Some a \<Rightarrow> Some a | None \<Rightarrow> None)
   }"

end
