(* ===== verification/DeepCopyLaws.thy ===== *)
theory DeepCopyLaws
  imports DeepCopy
begin

text \<open>
  The generated copies are deep. For each struct: \<open>X_ok\<close>, its pointers lead to cells of the right type;
  \<open>X_val\<close>, the value of theory Types it stands for; \<open>X_refs\<close>, the cells it reaches; and that
  \<open>X_DeepCopyInto\<close> meets the contract \<open>deep_copier\<close> of theory GoHeap.
\<close>

section \<open>Layouts\<close>

text \<open>Pointers to structs without pointers, and slices of anything.\<close>

abbreviation plain_ok :: "(plain \<Rightarrow> bool) \<Rightarrow> (plain \<Rightarrow> 'a) \<Rightarrow> ('m, 'l) cell list \<Rightarrow> ptr \<Rightarrow> bool" where
  "plain_ok is sel \<equiv> ptr_ok (\<lambda>c. is_PlainCell c \<and> is (the_PlainCell c)) (\<lambda>c. sel (the_PlainCell c)) flat_ok"

abbreviation plain_val :: "(plain \<Rightarrow> 'a) \<Rightarrow> ('m, 'l) cell list \<Rightarrow> ptr \<Rightarrow> 'a option" where
  "plain_val sel \<equiv> ptr_val (\<lambda>c. sel (the_PlainCell c)) flat_val"

abbreviation plain_refs :: "(plain \<Rightarrow> 'a) \<Rightarrow> ('m, 'l) cell list \<Rightarrow> ptr \<Rightarrow> nat set" where
  "plain_refs sel \<equiv> ptr_refs (\<lambda>c. sel (the_PlainCell c)) flat_refs"

abbreviation array_ok ::
  "('m array \<Rightarrow> bool) \<Rightarrow> ('m array \<Rightarrow> 'a list) \<Rightarrow> (('m, 'l) cell list \<Rightarrow> 'a \<Rightarrow> bool) \<Rightarrow>
   ('m, 'l) cell list \<Rightarrow> slice option \<Rightarrow> bool"
where
  "array_ok is sel \<equiv> slice_ok (\<lambda>c. is_ArrayCell c \<and> is (the_ArrayCell c)) (\<lambda>c. sel (the_ArrayCell c))"

abbreviation array_val ::
  "('m array \<Rightarrow> 'a list) \<Rightarrow> (('m, 'l) cell list \<Rightarrow> 'a \<Rightarrow> 'v) \<Rightarrow>
   ('m, 'l) cell list \<Rightarrow> slice option \<Rightarrow> 'v list"
where
  "array_val sel \<equiv> slice_val (\<lambda>c. sel (the_ArrayCell c))"

abbreviation array_refs ::
  "('m array \<Rightarrow> 'a list) \<Rightarrow> (('m, 'l) cell list \<Rightarrow> 'a \<Rightarrow> nat set) \<Rightarrow>
   ('m, 'l) cell list \<Rightarrow> slice option \<Rightarrow> nat set"
where
  "array_refs sel \<equiv> slice_refs (\<lambda>c. sel (the_ArrayCell c))"

section \<open>Pointers and slices of flat values\<close>

interpretation flat: deep_copier flat_ok flat_val flat_refs ret
  by (rule flat_assign)

lemmas Int32_pointer = flat.pointer [of is_Int32Cell the_Int32Cell]
lemmas Int_pointer = flat.pointer [of is_IntCell the_IntCell]
lemmas Duration_pointer = flat.pointer [of is_DurationCell the_DurationCell]
lemmas Time_pointer = flat.pointer [of is_TimeCell the_TimeCell]
lemmas WorkflowRunInfo_pointer =
  flat.pointer [of "\<lambda>c. is_PlainCell c \<and> is_WorkflowRunInfoPlain (the_PlainCell c)" "\<lambda>c. the_WorkflowRunInfoPlain (the_PlainCell c)"]
lemmas Diagnosis_pointer =
  flat.pointer [of "\<lambda>c. is_PlainCell c \<and> is_DiagnosisPlain (the_PlainCell c)" "\<lambda>c. the_DiagnosisPlain (the_PlainCell c)"]
lemmas String_slice =
  flat.sliced [of "\<lambda>c. is_ArrayCell c \<and> is_StringArray (the_ArrayCell c)" "\<lambda>c. the_StringArray (the_ArrayCell c)"]
lemmas RepositoryRef_slice =
  flat.sliced [of "\<lambda>c. is_ArrayCell c \<and> is_RepositoryRefArray (the_ArrayCell c)" "\<lambda>c. the_RepositoryRefArray (the_ArrayCell c)"]
lemmas StatusTransition_slice =
  flat.sliced [of "\<lambda>c. is_ArrayCell c \<and> is_StatusTransitionArray (the_ArrayCell c)" "\<lambda>c. the_StatusTransitionArray (the_ArrayCell c)"]
lemmas ConditionTransition_slice =
  flat.sliced [of "\<lambda>c. is_ArrayCell c \<and> is_ConditionTransitionArray (the_ArrayCell c)" "\<lambda>c. the_ConditionTransitionArray (the_ArrayCell c)"]
lemmas PodConditionSnapshot_slice =
  flat.sliced [of "\<lambda>c. is_ArrayCell c \<and> is_PodConditionSnapshotArray (the_ArrayCell c)" "\<lambda>c. the_PodConditionSnapshotArray (the_ArrayCell c)"]
lemmas EventSnapshot_slice =
  flat.sliced [of "\<lambda>c. is_ArrayCell c \<and> is_EventSnapshotArray (the_ArrayCell c)" "\<lambda>c. the_EventSnapshotArray (the_ArrayCell c)"]
lemmas JobStep_slice =
  flat.sliced [of "\<lambda>c. is_ArrayCell c \<and> is_JobStepArray (the_ArrayCell c)" "\<lambda>c. the_JobStepArray (the_ArrayCell c)"]
lemmas TimelineEvent_slice =
  flat.sliced [of "\<lambda>c. is_ArrayCell c \<and> is_TimelineEventArray (the_ArrayCell c)" "\<lambda>c. the_TimelineEventArray (the_ArrayCell c)"]

lemmas flat_pointers =
  flat.deep_pointer [of is_Int32Cell Int32Cell the_Int32Cell]
  flat.deep_pointer [of is_IntCell IntCell the_IntCell]
  flat.deep_pointer [of is_DurationCell DurationCell the_DurationCell]
  flat.deep_pointer [of "\<lambda>c. is_PlainCell c \<and> is_WorkflowRunInfoPlain (the_PlainCell c)"
    "\<lambda>y. PlainCell (WorkflowRunInfoPlain y)" "\<lambda>c. the_WorkflowRunInfoPlain (the_PlainCell c)", simplified]
  flat.deep_pointer [of "\<lambda>c. is_PlainCell c \<and> is_DiagnosisPlain (the_PlainCell c)"
    "\<lambda>y. PlainCell (DiagnosisPlain y)" "\<lambda>c. the_DiagnosisPlain (the_PlainCell c)", simplified]

lemmas flat_slices =
  flat.deep_slice [of "\<lambda>c. is_ArrayCell c \<and> is_StringArray (the_ArrayCell c)"
    "\<lambda>y. ArrayCell (StringArray y)" "\<lambda>c. the_StringArray (the_ArrayCell c)", simplified]
  flat.deep_slice [of "\<lambda>c. is_ArrayCell c \<and> is_RepositoryRefArray (the_ArrayCell c)"
    "\<lambda>y. ArrayCell (RepositoryRefArray y)" "\<lambda>c. the_RepositoryRefArray (the_ArrayCell c)", simplified]
  flat.deep_slice [of "\<lambda>c. is_ArrayCell c \<and> is_PodConditionSnapshotArray (the_ArrayCell c)"
    "\<lambda>y. ArrayCell (PodConditionSnapshotArray y)" "\<lambda>c. the_PodConditionSnapshotArray (the_ArrayCell c)", simplified]
  flat.deep_slice [of "\<lambda>c. is_ArrayCell c \<and> is_JobStepArray (the_ArrayCell c)"
    "\<lambda>y. ArrayCell (JobStepArray y)" "\<lambda>c. the_JobStepArray (the_ArrayCell c)", simplified]

section \<open>What is asked of the library\<close>

text \<open>Its copies are deep copies, for whatever its metadata look like in memory.\<close>

definition library_copies ::
  "(('m, 'l) cell list \<Rightarrow> 'm \<Rightarrow> bool) \<Rightarrow> (('m, 'l) cell list \<Rightarrow> 'm \<Rightarrow> 'vm) \<Rightarrow> (('m, 'l) cell list \<Rightarrow> 'm \<Rightarrow> nat set) \<Rightarrow>
   (('m, 'l) cell list \<Rightarrow> 'l \<Rightarrow> bool) \<Rightarrow> (('m, 'l) cell list \<Rightarrow> 'l \<Rightarrow> 'vl) \<Rightarrow> (('m, 'l) cell list \<Rightarrow> 'l \<Rightarrow> nat set) \<Rightarrow>
   ('m, 'l) apimachinery \<Rightarrow> bool"
where
  "library_copies mok mval mrefs lok lval lrefs lib \<longleftrightarrow>
     deep_copier flat_ok flat_val flat_refs (am_Time lib) \<and>
     deep_copier (ptr_ok is_TimeCell the_TimeCell flat_ok) (ptr_val the_TimeCell flat_val)
       (ptr_refs the_TimeCell flat_refs) (am_TimePtr lib) \<and>
     deep_copier mok mval mrefs (am_ObjectMeta lib) \<and>
     deep_copier lok lval lrefs (am_ListMeta lib)"

definition times_copied :: "('m, 'l) apimachinery \<Rightarrow> bool" where
  "times_copied lib \<longleftrightarrow>
     deep_copier flat_ok flat_val flat_refs (am_Time lib) \<and>
     deep_copier (ptr_ok is_TimeCell the_TimeCell flat_ok) (ptr_val the_TimeCell flat_val)
       (ptr_refs the_TimeCell flat_refs) (am_TimePtr lib)"

lemma times_copiedD:
  assumes "times_copied lib"
  shows "deep_copier flat_ok flat_val flat_refs (am_Time lib)"
    and "deep_copier (ptr_ok is_TimeCell the_TimeCell flat_ok) (ptr_val the_TimeCell flat_val)
       (ptr_refs the_TimeCell flat_refs) (am_TimePtr lib)"
  using assms by (simp_all add: times_copied_def)

lemma library_times: "library_copies mok mval mrefs lok lval lrefs lib \<Longrightarrow> times_copied lib"
  by (simp add: library_copies_def times_copied_def)

section \<open>Structs without pointers\<close>

text \<open>They are values; their times are copied by the library.\<close>

lemma flat_structI:
  assumes "\<And>h x. copying (\<lambda>h. True) h (into x) (is_copy flat_ok flat_val flat_refs h x)"
  shows "deep_copier flat_ok flat_val flat_refs into"
  using assms flat.memory_type_axioms by (intro deep_copierI)

lemma plain_copies:
  shows DetectiveConfigStatus_deep: "deep_copier flat_ok flat_val flat_refs DetectiveConfigStatus_DeepCopyInto"
    and Diagnosis_deep: "deep_copier flat_ok flat_val flat_refs Diagnosis_DeepCopyInto"
    and InvestigationStatus_deep: "deep_copier flat_ok flat_val flat_refs InvestigationStatus_DeepCopyInto"
    and InvestigationTrigger_deep: "deep_copier flat_ok flat_val flat_refs InvestigationTrigger_DeepCopyInto"
    and JobStep_deep: "deep_copier flat_ok flat_val flat_refs JobStep_DeepCopyInto"
    and PodConditionSnapshot_deep: "deep_copier flat_ok flat_val flat_refs PodConditionSnapshot_DeepCopyInto"
    and RepositoryRef_deep: "deep_copier flat_ok flat_val flat_refs RepositoryRef_DeepCopyInto"
    and WorkflowRunInfo_deep: "deep_copier flat_ok flat_val flat_refs WorkflowRunInfo_DeepCopyInto"
  by (rule flat_copier; simp add: DetectiveConfigStatus_DeepCopyInto_def Diagnosis_DeepCopyInto_def InvestigationStatus_DeepCopyInto_def InvestigationTrigger_DeepCopyInto_def JobStep_DeepCopyInto_def PodConditionSnapshot_DeepCopyInto_def RepositoryRef_DeepCopyInto_def WorkflowRunInfo_DeepCopyInto_def)+

lemma ConditionTransition_deep:
  assumes "times_copied lib"
  shows "deep_copier flat_ok flat_val flat_refs (ConditionTransition_DeepCopyInto lib)"
  unfolding ConditionTransition_DeepCopyInto_def
  by (intro flat_structI deep_copier.copying_field [OF times_copiedD(1) [OF assms]] copying_ret)
    (auto simp: flat_defs is_copy_def)

lemma EventSnapshot_deep:
  assumes "times_copied lib"
  shows "deep_copier flat_ok flat_val flat_refs (EventSnapshot_DeepCopyInto lib)"
  unfolding EventSnapshot_DeepCopyInto_def
  by (intro flat_structI deep_copier.copying_field [OF times_copiedD(1) [OF assms]] copying_ret)
    (auto simp: flat_defs is_copy_def)

lemma StatusTransition_deep:
  assumes "times_copied lib"
  shows "deep_copier flat_ok flat_val flat_refs (StatusTransition_DeepCopyInto lib)"
  unfolding StatusTransition_DeepCopyInto_def
  by (intro flat_structI deep_copier.copying_field [OF times_copiedD(1) [OF assms]] copying_ret)
    (auto simp: flat_defs is_copy_def)

lemma TimelineEvent_deep:
  assumes "times_copied lib"
  shows "deep_copier flat_ok flat_val flat_refs (TimelineEvent_DeepCopyInto lib)"
  unfolding TimelineEvent_DeepCopyInto_def
  by (intro flat_structI deep_copier.copying_field [OF times_copiedD(1) [OF assms]] copying_ret)
    (auto simp: flat_defs is_copy_def)

lemmas ConditionTransition_slice_deep = deep_copier.deep_slice [OF ConditionTransition_deep,
  of _ "\<lambda>c. is_ArrayCell c \<and> is_ConditionTransitionArray (the_ArrayCell c)" "\<lambda>y. ArrayCell (ConditionTransitionArray y)"
    "\<lambda>c. the_ConditionTransitionArray (the_ArrayCell c)", simplified]
lemmas EventSnapshot_slice_deep = deep_copier.deep_slice [OF EventSnapshot_deep,
  of _ "\<lambda>c. is_ArrayCell c \<and> is_EventSnapshotArray (the_ArrayCell c)" "\<lambda>y. ArrayCell (EventSnapshotArray y)"
    "\<lambda>c. the_EventSnapshotArray (the_ArrayCell c)", simplified]
lemmas StatusTransition_slice_deep = deep_copier.deep_slice [OF StatusTransition_deep,
  of _ "\<lambda>c. is_ArrayCell c \<and> is_StatusTransitionArray (the_ArrayCell c)" "\<lambda>y. ArrayCell (StatusTransitionArray y)"
    "\<lambda>c. the_StatusTransitionArray (the_ArrayCell c)", simplified]
lemmas TimelineEvent_slice_deep = deep_copier.deep_slice [OF TimelineEvent_deep,
  of _ "\<lambda>c. is_ArrayCell c \<and> is_TimelineEventArray (the_ArrayCell c)" "\<lambda>y. ArrayCell (TimelineEventArray y)"
    "\<lambda>c. the_TimelineEventArray (the_ArrayCell c)", simplified]

section \<open>Structs with pointers\<close>

definition ContainerStateTransition_ok :: "('m, 'l) cell list \<Rightarrow> mContainerStateTransition \<Rightarrow> bool" where
  "ContainerStateTransition_ok h x \<longleftrightarrow>
     ptr_ok is_Int32Cell the_Int32Cell flat_ok h (mcst_ExitCode x)"

definition ContainerStateTransition_val :: "('m, 'l) cell list \<Rightarrow> mContainerStateTransition \<Rightarrow> ContainerStateTransition" where
  "ContainerStateTransition_val h x =
     \<lparr>cst_From = mcst_From x,
      cst_To = mcst_To x,
      cst_Reason = mcst_Reason x,
      cst_ExitCode = ptr_val the_Int32Cell flat_val h (mcst_ExitCode x),
      cst_Timestamp = mcst_Timestamp x\<rparr>"

definition ContainerStateTransition_refs :: "('m, 'l) cell list \<Rightarrow> mContainerStateTransition \<Rightarrow> nat set" where
  "ContainerStateTransition_refs h x =
     ptr_refs the_Int32Cell flat_refs h (mcst_ExitCode x)"

lemmas ContainerStateTransition_defs = ContainerStateTransition_ok_def ContainerStateTransition_val_def ContainerStateTransition_refs_def

interpretation ContainerStateTransition: memory_type ContainerStateTransition_ok ContainerStateTransition_val ContainerStateTransition_refs
proof (unfold_locales, goal_cases)
  case (1 h x)
  then show ?case
    by (simp add: ContainerStateTransition_defs
      memory_type.in_heap [OF Int32_pointer])
next
  case (2 h x h')
  then show ?case
    using memory_type.local [OF Int32_pointer, of h "mcst_ExitCode x" h']
    by (simp add: ContainerStateTransition_defs)
qed

lemmas ContainerStateTransition_memory = ContainerStateTransition.memory_type_axioms
lemmas ContainerStateTransition_pointer = ContainerStateTransition.pointer [of is_ContainerStateTransitionCell the_ContainerStateTransitionCell]
lemmas ContainerStateTransition_slice =
  ContainerStateTransition.sliced [of "\<lambda>c. is_ArrayCell c \<and> is_ContainerStateTransitionArray (the_ArrayCell c)" "\<lambda>c. the_ContainerStateTransitionArray (the_ArrayCell c)"]

lemma ContainerStateTransition_deep:
  assumes "times_copied lib"
  shows "deep_copier ContainerStateTransition_ok ContainerStateTransition_val ContainerStateTransition_refs (ContainerStateTransition_DeepCopyInto lib)"
proof (rule deep_copierI [OF ContainerStateTransition_memory], goal_cases)
  case (1 h x)
  then show ?case
    unfolding ContainerStateTransition_DeepCopyInto_def
    by (intro flat_pointers [THEN deep_copier.copying_field]
        deep_copier.copying_field [OF times_copiedD(1) [OF assms]]
        copying_ret)
      (auto simp: ContainerStateTransition_defs is_copy_def flat_defs)
qed

lemmas ContainerStateTransition_slice_deep = deep_copier.deep_slice [OF ContainerStateTransition_deep,
  of _ "\<lambda>c. is_ArrayCell c \<and> is_ContainerStateTransitionArray (the_ArrayCell c)" "\<lambda>y. ArrayCell (ContainerStateTransitionArray y)"
    "\<lambda>c. the_ContainerStateTransitionArray (the_ArrayCell c)", simplified]

definition ContainerStatusInfo_ok :: "('m, 'l) cell list \<Rightarrow> mContainerStatusInfo \<Rightarrow> bool" where
  "ContainerStatusInfo_ok h x \<longleftrightarrow>
     ptr_ok is_Int32Cell the_Int32Cell flat_ok h (mcsi_ExitCode x) \<and>
     array_ok is_ContainerStateTransitionArray the_ContainerStateTransitionArray ContainerStateTransition_ok h (mcsi_StateHistory x)"

definition ContainerStatusInfo_val :: "('m, 'l) cell list \<Rightarrow> mContainerStatusInfo \<Rightarrow> ContainerStatusInfo" where
  "ContainerStatusInfo_val h x =
     \<lparr>csi_Name = mcsi_Name x,
      csi_State = mcsi_State x,
      csi_Reason = mcsi_Reason x,
      csi_ExitCode = ptr_val the_Int32Cell flat_val h (mcsi_ExitCode x),
      csi_RestartCount = mcsi_RestartCount x,
      csi_OOMKilled = mcsi_OOMKilled x,
      csi_StateHistory = array_val the_ContainerStateTransitionArray ContainerStateTransition_val h (mcsi_StateHistory x)\<rparr>"

definition ContainerStatusInfo_refs :: "('m, 'l) cell list \<Rightarrow> mContainerStatusInfo \<Rightarrow> nat set" where
  "ContainerStatusInfo_refs h x =
     ptr_refs the_Int32Cell flat_refs h (mcsi_ExitCode x) \<union>
     array_refs the_ContainerStateTransitionArray ContainerStateTransition_refs h (mcsi_StateHistory x)"

lemmas ContainerStatusInfo_defs = ContainerStatusInfo_ok_def ContainerStatusInfo_val_def ContainerStatusInfo_refs_def

interpretation ContainerStatusInfo: memory_type ContainerStatusInfo_ok ContainerStatusInfo_val ContainerStatusInfo_refs
proof (unfold_locales, goal_cases)
  case (1 h x)
  then show ?case
    by (simp add: ContainerStatusInfo_defs
      memory_type.in_heap [OF Int32_pointer]
      memory_type.in_heap [OF ContainerStateTransition_slice])
next
  case (2 h x h')
  then show ?case
    using memory_type.local [OF Int32_pointer, of h "mcsi_ExitCode x" h']
      memory_type.local [OF ContainerStateTransition_slice, of h "mcsi_StateHistory x" h']
    by (simp add: ContainerStatusInfo_defs)
qed

lemmas ContainerStatusInfo_memory = ContainerStatusInfo.memory_type_axioms
lemmas ContainerStatusInfo_pointer = ContainerStatusInfo.pointer [of is_ContainerStatusInfoCell the_ContainerStatusInfoCell]
lemmas ContainerStatusInfo_slice =
  ContainerStatusInfo.sliced [of "\<lambda>c. is_ArrayCell c \<and> is_ContainerStatusInfoArray (the_ArrayCell c)" "\<lambda>c. the_ContainerStatusInfoArray (the_ArrayCell c)"]

lemma ContainerStatusInfo_deep:
  assumes "times_copied lib"
  shows "deep_copier ContainerStatusInfo_ok ContainerStatusInfo_val ContainerStatusInfo_refs (ContainerStatusInfo_DeepCopyInto lib)"
proof (rule deep_copierI [OF ContainerStatusInfo_memory], goal_cases)
  case (1 h x)
  then show ?case
    unfolding ContainerStatusInfo_DeepCopyInto_def
    by (intro flat_pointers [THEN deep_copier.copying_field]
        deep_copier.copying_field [OF ContainerStateTransition_slice_deep [OF assms]]
        copying_ret)
      (auto simp: ContainerStatusInfo_defs is_copy_def flat_defs)
qed

lemmas ContainerStatusInfo_slice_deep = deep_copier.deep_slice [OF ContainerStatusInfo_deep,
  of _ "\<lambda>c. is_ArrayCell c \<and> is_ContainerStatusInfoArray (the_ArrayCell c)" "\<lambda>y. ArrayCell (ContainerStatusInfoArray y)"
    "\<lambda>c. the_ContainerStatusInfoArray (the_ArrayCell c)", simplified]

definition LogStorageSpec_ok :: "('m, 'l) cell list \<Rightarrow> mLogStorageSpec \<Rightarrow> bool" where
  "LogStorageSpec_ok h x \<longleftrightarrow>
     ptr_ok is_IntCell the_IntCell flat_ok h (mls_MaxSizeMB x)"

definition LogStorageSpec_val :: "('m, 'l) cell list \<Rightarrow> mLogStorageSpec \<Rightarrow> LogStorageSpec" where
  "LogStorageSpec_val h x =
     \<lparr>ls_PVCName = mls_PVCName x,
      ls_MaxSizeMB = ptr_val the_IntCell flat_val h (mls_MaxSizeMB x)\<rparr>"

definition LogStorageSpec_refs :: "('m, 'l) cell list \<Rightarrow> mLogStorageSpec \<Rightarrow> nat set" where
  "LogStorageSpec_refs h x =
     ptr_refs the_IntCell flat_refs h (mls_MaxSizeMB x)"

lemmas LogStorageSpec_defs = LogStorageSpec_ok_def LogStorageSpec_val_def LogStorageSpec_refs_def

interpretation LogStorageSpec: memory_type LogStorageSpec_ok LogStorageSpec_val LogStorageSpec_refs
proof (unfold_locales, goal_cases)
  case (1 h x)
  then show ?case
    by (simp add: LogStorageSpec_defs
      memory_type.in_heap [OF Int_pointer])
next
  case (2 h x h')
  then show ?case
    using memory_type.local [OF Int_pointer, of h "mls_MaxSizeMB x" h']
    by (simp add: LogStorageSpec_defs)
qed

lemmas LogStorageSpec_memory = LogStorageSpec.memory_type_axioms
lemmas LogStorageSpec_pointer = LogStorageSpec.pointer [of is_LogStorageSpecCell the_LogStorageSpecCell]

lemma LogStorageSpec_deep:
  shows "deep_copier LogStorageSpec_ok LogStorageSpec_val LogStorageSpec_refs LogStorageSpec_DeepCopyInto"
proof (rule deep_copierI [OF LogStorageSpec_memory], goal_cases)
  case (1 h x)
  then show ?case
    unfolding LogStorageSpec_DeepCopyInto_def
    by (intro flat_pointers [THEN deep_copier.copying_field]
        copying_ret)
      (auto simp: LogStorageSpec_defs is_copy_def flat_defs)
qed

interpretation LogStorageSpec: deep_copier LogStorageSpec_ok LogStorageSpec_val LogStorageSpec_refs LogStorageSpec_DeepCopyInto
  by (rule LogStorageSpec_deep)

definition DetectiveConfigSpec_ok :: "('m, 'l) cell list \<Rightarrow> mDetectiveConfigSpec \<Rightarrow> bool" where
  "DetectiveConfigSpec_ok h x \<longleftrightarrow>
     array_ok is_RepositoryRefArray the_RepositoryRefArray flat_ok h (mdc_Repositories x) \<and>
     ptr_ok is_DurationCell the_DurationCell flat_ok h (mdc_PollInterval x) \<and>
     LogStorageSpec_ok h (mdc_LogStorage x) \<and>
     ptr_ok is_DurationCell the_DurationCell flat_ok h (mdc_RetentionPeriod x) \<and>
     ptr_ok is_IntCell the_IntCell flat_ok h (mdc_MaxInvestigations x)"

definition DetectiveConfigSpec_val :: "('m, 'l) cell list \<Rightarrow> mDetectiveConfigSpec \<Rightarrow> DetectiveConfigSpec" where
  "DetectiveConfigSpec_val h x =
     \<lparr>dc_Repositories = array_val the_RepositoryRefArray flat_val h (mdc_Repositories x),
      dc_PollInterval = ptr_val the_DurationCell flat_val h (mdc_PollInterval x),
      dc_LogStorage = LogStorageSpec_val h (mdc_LogStorage x),
      dc_RetentionPeriod = ptr_val the_DurationCell flat_val h (mdc_RetentionPeriod x),
      dc_MaxInvestigations = ptr_val the_IntCell flat_val h (mdc_MaxInvestigations x)\<rparr>"

definition DetectiveConfigSpec_refs :: "('m, 'l) cell list \<Rightarrow> mDetectiveConfigSpec \<Rightarrow> nat set" where
  "DetectiveConfigSpec_refs h x =
     array_refs the_RepositoryRefArray flat_refs h (mdc_Repositories x) \<union>
     ptr_refs the_DurationCell flat_refs h (mdc_PollInterval x) \<union>
     LogStorageSpec_refs h (mdc_LogStorage x) \<union>
     ptr_refs the_DurationCell flat_refs h (mdc_RetentionPeriod x) \<union>
     ptr_refs the_IntCell flat_refs h (mdc_MaxInvestigations x)"

lemmas DetectiveConfigSpec_defs = DetectiveConfigSpec_ok_def DetectiveConfigSpec_val_def DetectiveConfigSpec_refs_def

interpretation DetectiveConfigSpec: memory_type DetectiveConfigSpec_ok DetectiveConfigSpec_val DetectiveConfigSpec_refs
proof (unfold_locales, goal_cases)
  case (1 h x)
  then show ?case
    by (simp add: DetectiveConfigSpec_defs
      memory_type.in_heap [OF RepositoryRef_slice]
      memory_type.in_heap [OF Duration_pointer]
      memory_type.in_heap [OF LogStorageSpec_memory]
      memory_type.in_heap [OF Int_pointer])
next
  case (2 h x h')
  then show ?case
    using memory_type.local [OF RepositoryRef_slice, of h "mdc_Repositories x" h']
      memory_type.local [OF Duration_pointer, of h "mdc_PollInterval x" h']
      memory_type.local [OF LogStorageSpec_memory, of h "mdc_LogStorage x" h']
      memory_type.local [OF Duration_pointer, of h "mdc_RetentionPeriod x" h']
      memory_type.local [OF Int_pointer, of h "mdc_MaxInvestigations x" h']
    by (simp add: DetectiveConfigSpec_defs)
qed

lemmas DetectiveConfigSpec_memory = DetectiveConfigSpec.memory_type_axioms
lemmas DetectiveConfigSpec_pointer = DetectiveConfigSpec.pointer [of is_DetectiveConfigSpecCell the_DetectiveConfigSpecCell]

lemma DetectiveConfigSpec_deep:
  shows "deep_copier DetectiveConfigSpec_ok DetectiveConfigSpec_val DetectiveConfigSpec_refs DetectiveConfigSpec_DeepCopyInto"
proof (rule deep_copierI [OF DetectiveConfigSpec_memory], goal_cases)
  case (1 h x)
  then show ?case
    unfolding DetectiveConfigSpec_DeepCopyInto_def
    by (intro flat_slices [THEN deep_copier.copying_field]
        flat_pointers [THEN deep_copier.copying_field]
        deep_copier.copying_field [OF LogStorageSpec_deep]
        copying_ret)
      (auto simp: DetectiveConfigSpec_defs is_copy_def flat_defs)
qed

interpretation DetectiveConfigSpec: deep_copier DetectiveConfigSpec_ok DetectiveConfigSpec_val DetectiveConfigSpec_refs DetectiveConfigSpec_DeepCopyInto
  by (rule DetectiveConfigSpec_deep)

definition EphemeralRunnerInfo_ok :: "('m, 'l) cell list \<Rightarrow> mEphemeralRunnerInfo \<Rightarrow> bool" where
  "EphemeralRunnerInfo_ok h x \<longleftrightarrow>
     array_ok is_StatusTransitionArray the_StatusTransitionArray flat_ok h (mer_StatusHistory x)"

definition EphemeralRunnerInfo_val :: "('m, 'l) cell list \<Rightarrow> mEphemeralRunnerInfo \<Rightarrow> EphemeralRunnerInfo" where
  "EphemeralRunnerInfo_val h x =
     \<lparr>er_Name = mer_Name x,
      er_Namespace = mer_Namespace x,
      er_Phase = mer_Phase x,
      er_StatusHistory = array_val the_StatusTransitionArray flat_val h (mer_StatusHistory x)\<rparr>"

definition EphemeralRunnerInfo_refs :: "('m, 'l) cell list \<Rightarrow> mEphemeralRunnerInfo \<Rightarrow> nat set" where
  "EphemeralRunnerInfo_refs h x =
     array_refs the_StatusTransitionArray flat_refs h (mer_StatusHistory x)"

lemmas EphemeralRunnerInfo_defs = EphemeralRunnerInfo_ok_def EphemeralRunnerInfo_val_def EphemeralRunnerInfo_refs_def

interpretation EphemeralRunnerInfo: memory_type EphemeralRunnerInfo_ok EphemeralRunnerInfo_val EphemeralRunnerInfo_refs
proof (unfold_locales, goal_cases)
  case (1 h x)
  then show ?case
    by (simp add: EphemeralRunnerInfo_defs
      memory_type.in_heap [OF StatusTransition_slice])
next
  case (2 h x h')
  then show ?case
    using memory_type.local [OF StatusTransition_slice, of h "mer_StatusHistory x" h']
    by (simp add: EphemeralRunnerInfo_defs)
qed

lemmas EphemeralRunnerInfo_memory = EphemeralRunnerInfo.memory_type_axioms
lemmas EphemeralRunnerInfo_pointer = EphemeralRunnerInfo.pointer [of is_EphemeralRunnerInfoCell the_EphemeralRunnerInfoCell]

lemma EphemeralRunnerInfo_deep:
  assumes "times_copied lib"
  shows "deep_copier EphemeralRunnerInfo_ok EphemeralRunnerInfo_val EphemeralRunnerInfo_refs (EphemeralRunnerInfo_DeepCopyInto lib)"
proof (rule deep_copierI [OF EphemeralRunnerInfo_memory], goal_cases)
  case (1 h x)
  then show ?case
    unfolding EphemeralRunnerInfo_DeepCopyInto_def
    by (intro deep_copier.copying_field [OF StatusTransition_slice_deep [OF assms]]
        copying_ret)
      (auto simp: EphemeralRunnerInfo_defs is_copy_def flat_defs)
qed

lemmas EphemeralRunnerInfo_pointer_deep =
  deep_copier.deep_pointer [OF EphemeralRunnerInfo_deep, of _ is_EphemeralRunnerInfoCell EphemeralRunnerInfoCell the_EphemeralRunnerInfoCell, simplified]

definition JobInfo_ok :: "('m, 'l) cell list \<Rightarrow> mJobInfo \<Rightarrow> bool" where
  "JobInfo_ok h x \<longleftrightarrow>
     ptr_ok is_TimeCell the_TimeCell flat_ok h (mji_StartedAt x) \<and>
     ptr_ok is_TimeCell the_TimeCell flat_ok h (mji_CompletedAt x) \<and>
     array_ok is_JobStepArray the_JobStepArray flat_ok h (mji_Steps x)"

definition JobInfo_val :: "('m, 'l) cell list \<Rightarrow> mJobInfo \<Rightarrow> JobInfo" where
  "JobInfo_val h x =
     \<lparr>ji_ID = mji_ID x,
      ji_Name = mji_Name x,
      ji_Status = mji_Status x,
      ji_Conclusion = mji_Conclusion x,
      ji_RunnerName = mji_RunnerName x,
      ji_StartedAt = ptr_val the_TimeCell flat_val h (mji_StartedAt x),
      ji_CompletedAt = ptr_val the_TimeCell flat_val h (mji_CompletedAt x),
      ji_Steps = array_val the_JobStepArray flat_val h (mji_Steps x)\<rparr>"

definition JobInfo_refs :: "('m, 'l) cell list \<Rightarrow> mJobInfo \<Rightarrow> nat set" where
  "JobInfo_refs h x =
     ptr_refs the_TimeCell flat_refs h (mji_StartedAt x) \<union>
     ptr_refs the_TimeCell flat_refs h (mji_CompletedAt x) \<union>
     array_refs the_JobStepArray flat_refs h (mji_Steps x)"

lemmas JobInfo_defs = JobInfo_ok_def JobInfo_val_def JobInfo_refs_def

interpretation JobInfo: memory_type JobInfo_ok JobInfo_val JobInfo_refs
proof (unfold_locales, goal_cases)
  case (1 h x)
  then show ?case
    by (simp add: JobInfo_defs
      memory_type.in_heap [OF Time_pointer]
      memory_type.in_heap [OF JobStep_slice])
next
  case (2 h x h')
  then show ?case
    using memory_type.local [OF Time_pointer, of h "mji_StartedAt x" h']
      memory_type.local [OF Time_pointer, of h "mji_CompletedAt x" h']
      memory_type.local [OF JobStep_slice, of h "mji_Steps x" h']
    by (simp add: JobInfo_defs)
qed

lemmas JobInfo_memory = JobInfo.memory_type_axioms
lemmas JobInfo_pointer = JobInfo.pointer [of is_JobInfoCell the_JobInfoCell]

lemma JobInfo_deep:
  assumes "times_copied lib"
  shows "deep_copier JobInfo_ok JobInfo_val JobInfo_refs (JobInfo_DeepCopyInto lib)"
proof (rule deep_copierI [OF JobInfo_memory], goal_cases)
  case (1 h x)
  then show ?case
    unfolding JobInfo_DeepCopyInto_def
    by (intro deep_copier.copying_field [OF times_copiedD(2) [OF assms]]
        flat_slices [THEN deep_copier.copying_field]
        copying_ret)
      (auto simp: JobInfo_defs is_copy_def flat_defs)
qed

lemmas JobInfo_pointer_deep =
  deep_copier.deep_pointer [OF JobInfo_deep, of _ is_JobInfoCell JobInfoCell the_JobInfoCell, simplified]

definition PodInfo_ok :: "('m, 'l) cell list \<Rightarrow> mPodInfo \<Rightarrow> bool" where
  "PodInfo_ok h x \<longleftrightarrow>
     array_ok is_StatusTransitionArray the_StatusTransitionArray flat_ok h (mpi_PhaseHistory x) \<and>
     array_ok is_ConditionTransitionArray the_ConditionTransitionArray flat_ok h (mpi_ConditionTransitions x) \<and>
     array_ok is_PodConditionSnapshotArray the_PodConditionSnapshotArray flat_ok h (mpi_Conditions x) \<and>
     array_ok is_ContainerStatusInfoArray the_ContainerStatusInfoArray ContainerStatusInfo_ok h (mpi_ContainerStatuses x) \<and>
     array_ok is_EventSnapshotArray the_EventSnapshotArray flat_ok h (mpi_Events x)"

definition PodInfo_val :: "('m, 'l) cell list \<Rightarrow> mPodInfo \<Rightarrow> PodInfo" where
  "PodInfo_val h x =
     \<lparr>pi_Name = mpi_Name x,
      pi_Namespace = mpi_Namespace x,
      pi_Phase = mpi_Phase x,
      pi_PhaseHistory = array_val the_StatusTransitionArray flat_val h (mpi_PhaseHistory x),
      pi_ConditionTransitions = array_val the_ConditionTransitionArray flat_val h (mpi_ConditionTransitions x),
      pi_Conditions = array_val the_PodConditionSnapshotArray flat_val h (mpi_Conditions x),
      pi_ContainerStatuses = array_val the_ContainerStatusInfoArray ContainerStatusInfo_val h (mpi_ContainerStatuses x),
      pi_Events = array_val the_EventSnapshotArray flat_val h (mpi_Events x),
      pi_NodeName = mpi_NodeName x\<rparr>"

definition PodInfo_refs :: "('m, 'l) cell list \<Rightarrow> mPodInfo \<Rightarrow> nat set" where
  "PodInfo_refs h x =
     array_refs the_StatusTransitionArray flat_refs h (mpi_PhaseHistory x) \<union>
     array_refs the_ConditionTransitionArray flat_refs h (mpi_ConditionTransitions x) \<union>
     array_refs the_PodConditionSnapshotArray flat_refs h (mpi_Conditions x) \<union>
     array_refs the_ContainerStatusInfoArray ContainerStatusInfo_refs h (mpi_ContainerStatuses x) \<union>
     array_refs the_EventSnapshotArray flat_refs h (mpi_Events x)"

lemmas PodInfo_defs = PodInfo_ok_def PodInfo_val_def PodInfo_refs_def

interpretation PodInfo_layout: memory_type PodInfo_ok PodInfo_val PodInfo_refs
proof (unfold_locales, goal_cases)
  case (1 h x)
  then show ?case
    by (simp add: PodInfo_defs
      memory_type.in_heap [OF StatusTransition_slice]
      memory_type.in_heap [OF ConditionTransition_slice]
      memory_type.in_heap [OF PodConditionSnapshot_slice]
      memory_type.in_heap [OF ContainerStatusInfo_slice]
      memory_type.in_heap [OF EventSnapshot_slice])
next
  case (2 h x h')
  then show ?case
    using memory_type.local [OF StatusTransition_slice, of h "mpi_PhaseHistory x" h']
      memory_type.local [OF ConditionTransition_slice, of h "mpi_ConditionTransitions x" h']
      memory_type.local [OF PodConditionSnapshot_slice, of h "mpi_Conditions x" h']
      memory_type.local [OF ContainerStatusInfo_slice, of h "mpi_ContainerStatuses x" h']
      memory_type.local [OF EventSnapshot_slice, of h "mpi_Events x" h']
    by (simp add: PodInfo_defs)
qed

lemmas PodInfo_memory = PodInfo_layout.memory_type_axioms
lemmas PodInfo_pointer = PodInfo_layout.pointer [of is_PodInfoCell the_PodInfoCell]

lemma PodInfo_deep:
  assumes "times_copied lib"
  shows "deep_copier PodInfo_ok PodInfo_val PodInfo_refs (PodInfo_DeepCopyInto lib)"
proof (rule deep_copierI [OF PodInfo_memory], goal_cases)
  case (1 h x)
  then show ?case
    unfolding PodInfo_DeepCopyInto_def
    by (intro deep_copier.copying_field [OF StatusTransition_slice_deep [OF assms]]
        deep_copier.copying_field [OF ConditionTransition_slice_deep [OF assms]]
        flat_slices [THEN deep_copier.copying_field]
        deep_copier.copying_field [OF ContainerStatusInfo_slice_deep [OF assms]]
        deep_copier.copying_field [OF EventSnapshot_slice_deep [OF assms]]
        copying_ret)
      (auto simp: PodInfo_defs is_copy_def flat_defs)
qed

lemmas PodInfo_pointer_deep =
  deep_copier.deep_pointer [OF PodInfo_deep, of _ is_PodInfoCell PodInfoCell the_PodInfoCell, simplified]

definition InvestigationSpec_ok :: "('m, 'l) cell list \<Rightarrow> mInvestigationSpec \<Rightarrow> bool" where
  "InvestigationSpec_ok h x \<longleftrightarrow>
     plain_ok is_WorkflowRunInfoPlain the_WorkflowRunInfoPlain h (msp_WorkflowRun x) \<and>
     ptr_ok is_JobInfoCell the_JobInfoCell JobInfo_ok h (msp_Job x) \<and>
     ptr_ok is_EphemeralRunnerInfoCell the_EphemeralRunnerInfoCell EphemeralRunnerInfo_ok h (msp_EphemeralRunner x) \<and>
     ptr_ok is_PodInfoCell the_PodInfoCell PodInfo_ok h (msp_Pod x) \<and>
     array_ok is_TimelineEventArray the_TimelineEventArray flat_ok h (msp_Timeline x) \<and>
     plain_ok is_DiagnosisPlain the_DiagnosisPlain h (msp_Diagnosis x) \<and>
     array_ok is_StringArray the_StringArray flat_ok h (msp_LogPaths x)"

definition InvestigationSpec_val :: "('m, 'l) cell list \<Rightarrow> mInvestigationSpec \<Rightarrow> InvestigationSpec" where
  "InvestigationSpec_val h x =
     \<lparr>sp_Trigger = msp_Trigger x,
      sp_WorkflowRun = plain_val the_WorkflowRunInfoPlain h (msp_WorkflowRun x),
      sp_Job = ptr_val the_JobInfoCell JobInfo_val h (msp_Job x),
      sp_EphemeralRunner = ptr_val the_EphemeralRunnerInfoCell EphemeralRunnerInfo_val h (msp_EphemeralRunner x),
      sp_Pod = ptr_val the_PodInfoCell PodInfo_val h (msp_Pod x),
      sp_Timeline = array_val the_TimelineEventArray flat_val h (msp_Timeline x),
      sp_Diagnosis = plain_val the_DiagnosisPlain h (msp_Diagnosis x),
      sp_LogPaths = array_val the_StringArray flat_val h (msp_LogPaths x)\<rparr>"

definition InvestigationSpec_refs :: "('m, 'l) cell list \<Rightarrow> mInvestigationSpec \<Rightarrow> nat set" where
  "InvestigationSpec_refs h x =
     plain_refs the_WorkflowRunInfoPlain h (msp_WorkflowRun x) \<union>
     ptr_refs the_JobInfoCell JobInfo_refs h (msp_Job x) \<union>
     ptr_refs the_EphemeralRunnerInfoCell EphemeralRunnerInfo_refs h (msp_EphemeralRunner x) \<union>
     ptr_refs the_PodInfoCell PodInfo_refs h (msp_Pod x) \<union>
     array_refs the_TimelineEventArray flat_refs h (msp_Timeline x) \<union>
     plain_refs the_DiagnosisPlain h (msp_Diagnosis x) \<union>
     array_refs the_StringArray flat_refs h (msp_LogPaths x)"

lemmas InvestigationSpec_defs = InvestigationSpec_ok_def InvestigationSpec_val_def InvestigationSpec_refs_def

interpretation InvestigationSpec: memory_type InvestigationSpec_ok InvestigationSpec_val InvestigationSpec_refs
proof (unfold_locales, goal_cases)
  case (1 h x)
  then show ?case
    by (simp add: InvestigationSpec_defs
      memory_type.in_heap [OF WorkflowRunInfo_pointer]
      memory_type.in_heap [OF JobInfo_pointer]
      memory_type.in_heap [OF EphemeralRunnerInfo_pointer]
      memory_type.in_heap [OF PodInfo_pointer]
      memory_type.in_heap [OF TimelineEvent_slice]
      memory_type.in_heap [OF Diagnosis_pointer]
      memory_type.in_heap [OF String_slice])
next
  case (2 h x h')
  then show ?case
    using memory_type.local [OF WorkflowRunInfo_pointer, of h "msp_WorkflowRun x" h']
      memory_type.local [OF JobInfo_pointer, of h "msp_Job x" h']
      memory_type.local [OF EphemeralRunnerInfo_pointer, of h "msp_EphemeralRunner x" h']
      memory_type.local [OF PodInfo_pointer, of h "msp_Pod x" h']
      memory_type.local [OF TimelineEvent_slice, of h "msp_Timeline x" h']
      memory_type.local [OF Diagnosis_pointer, of h "msp_Diagnosis x" h']
      memory_type.local [OF String_slice, of h "msp_LogPaths x" h']
    by (simp add: InvestigationSpec_defs)
qed

lemmas InvestigationSpec_memory = InvestigationSpec.memory_type_axioms
lemmas InvestigationSpec_pointer = InvestigationSpec.pointer [of is_InvestigationSpecCell the_InvestigationSpecCell]

lemma InvestigationSpec_deep:
  assumes "times_copied lib"
  shows "deep_copier InvestigationSpec_ok InvestigationSpec_val InvestigationSpec_refs (InvestigationSpec_DeepCopyInto lib)"
proof (rule deep_copierI [OF InvestigationSpec_memory], goal_cases)
  case (1 h x)
  then show ?case
    unfolding InvestigationSpec_DeepCopyInto_def
    by (intro flat_pointers [THEN deep_copier.copying_field]
        deep_copier.copying_field [OF JobInfo_pointer_deep [OF assms]]
        deep_copier.copying_field [OF EphemeralRunnerInfo_pointer_deep [OF assms]]
        deep_copier.copying_field [OF PodInfo_pointer_deep [OF assms]]
        deep_copier.copying_field [OF TimelineEvent_slice_deep [OF assms]]
        flat_slices [THEN deep_copier.copying_field]
        copying_ret)
      (auto simp: InvestigationSpec_defs is_copy_def flat_defs)
qed

section \<open>The resources\<close>

text \<open>Their metadata are as the library has them: \<open>mok\<close>, \<open>mval\<close> and \<open>mrefs\<close>.\<close>

definition DetectiveConfig_ok :: "(('m, 'l) cell list \<Rightarrow> 'm \<Rightarrow> bool) \<Rightarrow> ('m, 'l) cell list \<Rightarrow> 'm mDetectiveConfig \<Rightarrow> bool" where
  "DetectiveConfig_ok mok h x \<longleftrightarrow> mok h (mcfg_Meta x) \<and> DetectiveConfigSpec_ok h (mcfg_Spec x)"

definition DetectiveConfig_val ::
  "(('m, 'l) cell list \<Rightarrow> 'm \<Rightarrow> ObjectMeta) \<Rightarrow> ('m, 'l) cell list \<Rightarrow> 'm mDetectiveConfig \<Rightarrow> TypeMeta \<times> DetectiveConfig"
where
  "DetectiveConfig_val mval h x =
     (mcfg_TypeMeta x, \<lparr>cfg_Meta = mval h (mcfg_Meta x), cfg_Spec = DetectiveConfigSpec_val h (mcfg_Spec x),
       cfg_Status = mcfg_Status x\<rparr>)"

definition DetectiveConfig_refs :: "(('m, 'l) cell list \<Rightarrow> 'm \<Rightarrow> nat set) \<Rightarrow> ('m, 'l) cell list \<Rightarrow> 'm mDetectiveConfig \<Rightarrow> nat set" where
  "DetectiveConfig_refs mrefs h x = mrefs h (mcfg_Meta x) \<union> DetectiveConfigSpec_refs h (mcfg_Spec x)"

lemmas DetectiveConfig_defs = DetectiveConfig_ok_def DetectiveConfig_val_def DetectiveConfig_refs_def

lemma DetectiveConfig_memory:
  assumes "memory_type mok mval mrefs"
  shows "memory_type (DetectiveConfig_ok mok) (DetectiveConfig_val mval) (DetectiveConfig_refs mrefs)"
proof (unfold_locales, goal_cases)
  case (1 h x)
  then show ?case
    by (simp add: DetectiveConfig_defs memory_type.in_heap [OF assms] memory_type.in_heap [OF DetectiveConfigSpec_memory])
next
  case (2 h x h')
  then show ?case
    using memory_type.local [OF assms, of h "mcfg_Meta x" h']
      memory_type.local [OF DetectiveConfigSpec_memory, of h "mcfg_Spec x" h']
    by (simp add: DetectiveConfig_defs)
qed

lemma DetectiveConfig_deep:
  assumes lib: "library_copies mok mval mrefs lok lval lrefs lib"
  shows "deep_copier (DetectiveConfig_ok mok) (DetectiveConfig_val mval) (DetectiveConfig_refs mrefs) (DetectiveConfig_DeepCopyInto lib)"
proof -
  have meta: "deep_copier mok mval mrefs (am_ObjectMeta lib)" using lib by (simp add: library_copies_def)
  note memory = DetectiveConfig_memory [OF deep_copier.axioms(1) [OF meta]]
  show ?thesis
  proof (rule deep_copierI [OF memory], goal_cases)
    case (1 h x)
    then show ?case
      unfolding DetectiveConfig_DeepCopyInto_def
      by (intro deep_copier.copying_field [OF meta]
          deep_copier.copying_field [OF DetectiveConfigSpec_deep] copying_ret)
        (auto simp: DetectiveConfig_defs is_copy_def)
  qed
qed

lemmas DetectiveConfig_slice_deep = deep_copier.deep_slice [OF DetectiveConfig_deep,
  of _ _ _ _ _ _ _ "\<lambda>c. is_ArrayCell c \<and> is_DetectiveConfigArray (the_ArrayCell c)" "\<lambda>y. ArrayCell (DetectiveConfigArray y)"
    "\<lambda>c. the_DetectiveConfigArray (the_ArrayCell c)", simplified]

definition DetectiveConfigList_ok ::
  "(('m, 'l) cell list \<Rightarrow> 'm \<Rightarrow> bool) \<Rightarrow> (('m, 'l) cell list \<Rightarrow> 'l \<Rightarrow> bool) \<Rightarrow> ('m, 'l) cell list \<Rightarrow> 'l mDetectiveConfigList \<Rightarrow> bool"
where
  "DetectiveConfigList_ok mok lok h x \<longleftrightarrow>
     lok h (mcfgs_Meta x) \<and> array_ok is_DetectiveConfigArray the_DetectiveConfigArray (DetectiveConfig_ok mok) h (mcfgs_Items x)"

definition DetectiveConfigList_val ::
  "(('m, 'l) cell list \<Rightarrow> 'm \<Rightarrow> ObjectMeta) \<Rightarrow> (('m, 'l) cell list \<Rightarrow> 'l \<Rightarrow> 'vl) \<Rightarrow> ('m, 'l) cell list \<Rightarrow> 'l mDetectiveConfigList \<Rightarrow>
   TypeMeta \<times> 'vl \<times> (TypeMeta \<times> DetectiveConfig) list"
where
  "DetectiveConfigList_val mval lval h x =
     (mcfgs_TypeMeta x, lval h (mcfgs_Meta x), array_val the_DetectiveConfigArray (DetectiveConfig_val mval) h (mcfgs_Items x))"

definition DetectiveConfigList_refs ::
  "(('m, 'l) cell list \<Rightarrow> 'm \<Rightarrow> nat set) \<Rightarrow> (('m, 'l) cell list \<Rightarrow> 'l \<Rightarrow> nat set) \<Rightarrow> ('m, 'l) cell list \<Rightarrow> 'l mDetectiveConfigList \<Rightarrow> nat set"
where
  "DetectiveConfigList_refs mrefs lrefs h x =
     lrefs h (mcfgs_Meta x) \<union> array_refs the_DetectiveConfigArray (DetectiveConfig_refs mrefs) h (mcfgs_Items x)"

lemmas DetectiveConfigList_defs = DetectiveConfigList_ok_def DetectiveConfigList_val_def DetectiveConfigList_refs_def

lemma DetectiveConfigList_memory:
  assumes "memory_type mok mval mrefs" and "memory_type lok lval lrefs"
  shows "memory_type (DetectiveConfigList_ok mok lok) (DetectiveConfigList_val mval lval) (DetectiveConfigList_refs mrefs lrefs)"
proof -
  note items = memory_type.sliced [OF DetectiveConfig_memory [OF assms(1)],
    of "\<lambda>c. is_ArrayCell c \<and> is_DetectiveConfigArray (the_ArrayCell c)" "\<lambda>c. the_DetectiveConfigArray (the_ArrayCell c)"]
  show ?thesis
  proof (unfold_locales, goal_cases)
    case (1 h x)
    then show ?case
      by (simp add: DetectiveConfigList_defs memory_type.in_heap [OF assms(2)] memory_type.in_heap [OF items])
  next
    case (2 h x h')
    then show ?case
      using memory_type.local [OF assms(2), of h "mcfgs_Meta x" h']
        memory_type.local [OF items, of h "mcfgs_Items x" h']
      by (simp add: DetectiveConfigList_defs)
  qed
qed

lemma DetectiveConfigList_deep:
  assumes lib: "library_copies mok mval mrefs lok lval lrefs lib"
  shows "deep_copier (DetectiveConfigList_ok mok lok) (DetectiveConfigList_val mval lval) (DetectiveConfigList_refs mrefs lrefs)
    (DetectiveConfigList_DeepCopyInto lib)"
proof -
  have meta: "deep_copier lok lval lrefs (am_ListMeta lib)" "deep_copier mok mval mrefs (am_ObjectMeta lib)"
    using lib by (simp_all add: library_copies_def)
  note memory = DetectiveConfigList_memory [OF meta(2) [THEN deep_copier.axioms(1)] meta(1) [THEN deep_copier.axioms(1)]]
  show ?thesis
  proof (rule deep_copierI [OF memory], goal_cases)
    case (1 h x)
    then show ?case
      unfolding DetectiveConfigList_DeepCopyInto_def
      by (intro deep_copier.copying_field [OF meta(1)]
          deep_copier.copying_field [OF DetectiveConfig_slice_deep [OF lib]] copying_ret)
        (auto simp: DetectiveConfigList_defs is_copy_def)
  qed
qed

definition Investigation_ok :: "(('m, 'l) cell list \<Rightarrow> 'm \<Rightarrow> bool) \<Rightarrow> ('m, 'l) cell list \<Rightarrow> 'm mInvestigation \<Rightarrow> bool" where
  "Investigation_ok mok h x \<longleftrightarrow> mok h (minv_Meta x) \<and> InvestigationSpec_ok h (minv_Spec x)"

definition Investigation_val ::
  "(('m, 'l) cell list \<Rightarrow> 'm \<Rightarrow> ObjectMeta) \<Rightarrow> ('m, 'l) cell list \<Rightarrow> 'm mInvestigation \<Rightarrow> TypeMeta \<times> Investigation"
where
  "Investigation_val mval h x =
     (minv_TypeMeta x, \<lparr>inv_Meta = mval h (minv_Meta x), inv_Spec = InvestigationSpec_val h (minv_Spec x),
       inv_Status = minv_Status x\<rparr>)"

definition Investigation_refs :: "(('m, 'l) cell list \<Rightarrow> 'm \<Rightarrow> nat set) \<Rightarrow> ('m, 'l) cell list \<Rightarrow> 'm mInvestigation \<Rightarrow> nat set" where
  "Investigation_refs mrefs h x = mrefs h (minv_Meta x) \<union> InvestigationSpec_refs h (minv_Spec x)"

lemmas Investigation_defs = Investigation_ok_def Investigation_val_def Investigation_refs_def

lemma Investigation_memory:
  assumes "memory_type mok mval mrefs"
  shows "memory_type (Investigation_ok mok) (Investigation_val mval) (Investigation_refs mrefs)"
proof (unfold_locales, goal_cases)
  case (1 h x)
  then show ?case
    by (simp add: Investigation_defs memory_type.in_heap [OF assms] memory_type.in_heap [OF InvestigationSpec_memory])
next
  case (2 h x h')
  then show ?case
    using memory_type.local [OF assms, of h "minv_Meta x" h']
      memory_type.local [OF InvestigationSpec_memory, of h "minv_Spec x" h']
    by (simp add: Investigation_defs)
qed

lemma Investigation_deep:
  assumes lib: "library_copies mok mval mrefs lok lval lrefs lib"
  shows "deep_copier (Investigation_ok mok) (Investigation_val mval) (Investigation_refs mrefs) (Investigation_DeepCopyInto lib)"
proof -
  have meta: "deep_copier mok mval mrefs (am_ObjectMeta lib)" using lib by (simp add: library_copies_def)
  note memory = Investigation_memory [OF deep_copier.axioms(1) [OF meta]]
  show ?thesis
  proof (rule deep_copierI [OF memory], goal_cases)
    case (1 h x)
    then show ?case
      unfolding Investigation_DeepCopyInto_def
      by (intro deep_copier.copying_field [OF meta]
          deep_copier.copying_field [OF InvestigationSpec_deep [OF library_times [OF lib]]] copying_ret)
        (auto simp: Investigation_defs is_copy_def)
  qed
qed

lemmas Investigation_slice_deep = deep_copier.deep_slice [OF Investigation_deep,
  of _ _ _ _ _ _ _ "\<lambda>c. is_ArrayCell c \<and> is_InvestigationArray (the_ArrayCell c)" "\<lambda>y. ArrayCell (InvestigationArray y)"
    "\<lambda>c. the_InvestigationArray (the_ArrayCell c)", simplified]

definition InvestigationList_ok ::
  "(('m, 'l) cell list \<Rightarrow> 'm \<Rightarrow> bool) \<Rightarrow> (('m, 'l) cell list \<Rightarrow> 'l \<Rightarrow> bool) \<Rightarrow> ('m, 'l) cell list \<Rightarrow> 'l mInvestigationList \<Rightarrow> bool"
where
  "InvestigationList_ok mok lok h x \<longleftrightarrow>
     lok h (minvs_Meta x) \<and> array_ok is_InvestigationArray the_InvestigationArray (Investigation_ok mok) h (minvs_Items x)"

definition InvestigationList_val ::
  "(('m, 'l) cell list \<Rightarrow> 'm \<Rightarrow> ObjectMeta) \<Rightarrow> (('m, 'l) cell list \<Rightarrow> 'l \<Rightarrow> 'vl) \<Rightarrow> ('m, 'l) cell list \<Rightarrow> 'l mInvestigationList \<Rightarrow>
   TypeMeta \<times> 'vl \<times> (TypeMeta \<times> Investigation) list"
where
  "InvestigationList_val mval lval h x =
     (minvs_TypeMeta x, lval h (minvs_Meta x), array_val the_InvestigationArray (Investigation_val mval) h (minvs_Items x))"

definition InvestigationList_refs ::
  "(('m, 'l) cell list \<Rightarrow> 'm \<Rightarrow> nat set) \<Rightarrow> (('m, 'l) cell list \<Rightarrow> 'l \<Rightarrow> nat set) \<Rightarrow> ('m, 'l) cell list \<Rightarrow> 'l mInvestigationList \<Rightarrow> nat set"
where
  "InvestigationList_refs mrefs lrefs h x =
     lrefs h (minvs_Meta x) \<union> array_refs the_InvestigationArray (Investigation_refs mrefs) h (minvs_Items x)"

lemmas InvestigationList_defs = InvestigationList_ok_def InvestigationList_val_def InvestigationList_refs_def

lemma InvestigationList_memory:
  assumes "memory_type mok mval mrefs" and "memory_type lok lval lrefs"
  shows "memory_type (InvestigationList_ok mok lok) (InvestigationList_val mval lval) (InvestigationList_refs mrefs lrefs)"
proof -
  note items = memory_type.sliced [OF Investigation_memory [OF assms(1)],
    of "\<lambda>c. is_ArrayCell c \<and> is_InvestigationArray (the_ArrayCell c)" "\<lambda>c. the_InvestigationArray (the_ArrayCell c)"]
  show ?thesis
  proof (unfold_locales, goal_cases)
    case (1 h x)
    then show ?case
      by (simp add: InvestigationList_defs memory_type.in_heap [OF assms(2)] memory_type.in_heap [OF items])
  next
    case (2 h x h')
    then show ?case
      using memory_type.local [OF assms(2), of h "minvs_Meta x" h']
        memory_type.local [OF items, of h "minvs_Items x" h']
      by (simp add: InvestigationList_defs)
  qed
qed

lemma InvestigationList_deep:
  assumes lib: "library_copies mok mval mrefs lok lval lrefs lib"
  shows "deep_copier (InvestigationList_ok mok lok) (InvestigationList_val mval lval) (InvestigationList_refs mrefs lrefs)
    (InvestigationList_DeepCopyInto lib)"
proof -
  have meta: "deep_copier lok lval lrefs (am_ListMeta lib)" "deep_copier mok mval mrefs (am_ObjectMeta lib)"
    using lib by (simp_all add: library_copies_def)
  note memory = InvestigationList_memory [OF meta(2) [THEN deep_copier.axioms(1)] meta(1) [THEN deep_copier.axioms(1)]]
  show ?thesis
  proof (rule deep_copierI [OF memory], goal_cases)
    case (1 h x)
    then show ?case
      unfolding InvestigationList_DeepCopyInto_def
      by (intro deep_copier.copying_field [OF meta(1)]
          deep_copier.copying_field [OF Investigation_slice_deep [OF lib]] copying_ret)
        (auto simp: InvestigationList_defs is_copy_def)
  qed
qed

end
