(* ===== verification/DeepCopyProps.thy ===== *)
theory DeepCopyProps
  imports DeepCopyLaws
begin

text \<open>
  What the generated copies are relied on for: that a controller can change the object it was given
  and the cache of the client, which keeps the original, does not see it.
\<close>

section \<open>Copies of pointers\<close>

text \<open>
  What is promised of a copy of a pointer to a cell of one type: no cell that was there changes, the
  result points to an object that is laid out properly and has the same value, it is nil for nil, and
  it reaches new cells only.
\<close>

definition copies_deeply ::
  "('c \<Rightarrow> bool) \<Rightarrow> ('c \<Rightarrow> 'a) \<Rightarrow> ('c list \<Rightarrow> 'a \<Rightarrow> bool) \<Rightarrow>
   ('c list \<Rightarrow> 'a \<Rightarrow> 'v) \<Rightarrow> ('c list \<Rightarrow> 'a \<Rightarrow> nat set) \<Rightarrow> (ptr \<Rightarrow> ('c list, ptr) state) \<Rightarrow> bool"
where
  "copies_deeply is sel ok val refs copy \<longleftrightarrow>
     (\<forall>h p q h'. ptr_ok is sel ok h p \<longrightarrow> run_state (copy p) h = (q, h') \<longrightarrow>
        prefix h h' \<and> ptr_ok is sel ok h' q \<and> (q = None \<longleftrightarrow> p = None) \<and>
        ptr_val sel val h' q = ptr_val sel val h p \<and>
        ptr_refs sel refs h' q \<subseteq> {length h..<length h'})"

lemma clone_copies_deeply:
  assumes "deep_copier ok val refs into" and "\<And>y. is (mk y) \<and> sel (mk y) = y"
  shows "copies_deeply is sel ok val refs (clone_ptr mk sel into)"
  unfolding copies_deeply_def
proof (intro allI impI, goal_cases)
  case (1 h p q h')
  have "q = None \<longleftrightarrow> p = None"
    using 1(2) by (cases p) (auto simp: clone_ptr_def split: prod.splits)
  with deep_copier.deep [OF deep_copier.deep_pointer [OF assms] 1] show ?case by simp
qed

lemma Investigation_DeepCopy_deep:
  assumes "library_copies mok mval mrefs lok lval lrefs lib"
  shows "deep_copier (ptr_ok is_InvestigationCell the_InvestigationCell (Investigation_ok mok))
    (ptr_val the_InvestigationCell (Investigation_val mval))
    (ptr_refs the_InvestigationCell (Investigation_refs mrefs)) (Investigation_DeepCopy lib)"
  unfolding Investigation_DeepCopy_def by (rule deep_copier.deep_pointer [OF Investigation_deep [OF assms]]) simp

section \<open>A concrete memory\<close>

text \<open>
  A library that copies what it is given, with metadata that hold a slice and a pointer, and a pod
  Investigation in memory with its finalizers, its snapshot and one log path.
\<close>

record sample_meta =
  sm_Name :: string
  sm_Namespace :: string
  sm_Finalizers :: "slice option"
  sm_DeletionTimestamp :: ptr

type_synonym sample_heap = "(sample_meta, string) cell list"

definition sample_meta_copy :: "sample_meta \<Rightarrow> (sample_heap, sample_meta) state" where
  "sample_meta_copy m = do {
     fs \<leftarrow> clone_array StringArray the_StringArray ret (sm_Finalizers m);
     d \<leftarrow> clone_ptr TimeCell the_TimeCell ret (sm_DeletionTimestamp m);
     ret (m\<lparr>sm_Finalizers := fs, sm_DeletionTimestamp := d\<rparr>)
   }"

definition sample_lib :: "(sample_meta, string) apimachinery" where
  "sample_lib = \<lparr>am_Time = ret, am_TimePtr = clone_ptr TimeCell the_TimeCell ret,
     am_ObjectMeta = sample_meta_copy, am_ListMeta = ret\<rparr>"

definition sm_ok :: "sample_heap \<Rightarrow> sample_meta \<Rightarrow> bool" where
  "sm_ok h m \<longleftrightarrow> array_ok is_StringArray the_StringArray flat_ok h (sm_Finalizers m) \<and>
     ptr_ok is_TimeCell the_TimeCell flat_ok h (sm_DeletionTimestamp m)"

definition sm_val :: "sample_heap \<Rightarrow> sample_meta \<Rightarrow> ObjectMeta" where
  "sm_val h m = (new_meta (sm_Namespace m) (sm_Name m))
     \<lparr>om_Finalizers := array_val the_StringArray flat_val h (sm_Finalizers m),
      om_DeletionTimestamp := ptr_val the_TimeCell flat_val h (sm_DeletionTimestamp m)\<rparr>"

definition sm_refs :: "sample_heap \<Rightarrow> sample_meta \<Rightarrow> nat set" where
  "sm_refs h m = array_refs the_StringArray flat_refs h (sm_Finalizers m) \<union>
     ptr_refs the_TimeCell flat_refs h (sm_DeletionTimestamp m)"

lemmas sm_defs = sm_ok_def sm_val_def sm_refs_def

interpretation sample_meta: memory_type sm_ok sm_val sm_refs
proof (unfold_locales, goal_cases)
  case (1 h m)
  then show ?case
    by (simp add: sm_defs memory_type.in_heap [OF String_slice] memory_type.in_heap [OF Time_pointer])
next
  case (2 h m h')
  then show ?case
    using memory_type.local [OF String_slice, of h "sm_Finalizers m" h']
      memory_type.local [OF Time_pointer, of h "sm_DeletionTimestamp m" h']
    by (simp add: sm_defs)
qed

lemmas time_pointer_copy = flat.deep_pointer [of is_TimeCell TimeCell the_TimeCell, simplified]

lemma sample_meta_deep: "deep_copier sm_ok sm_val sm_refs sample_meta_copy"
proof (rule deep_copierI [OF sample_meta.memory_type_axioms], goal_cases)
  case (1 h m)
  then show ?case
    unfolding sample_meta_copy_def
    by (intro flat_slices [THEN deep_copier.copying_field]
        time_pointer_copy [THEN deep_copier.copying_field] copying_ret)
      (auto simp: sm_defs is_copy_def)
qed

lemma sample_copies: "library_copies sm_ok sm_val sm_refs flat_ok flat_val flat_refs sample_lib"
  by (simp add: library_copies_def sample_lib_def flat_assign time_pointer_copy sample_meta_deep)

definition pod_snapshot :: mPodInfo where
  "pod_snapshot = \<lparr>mpi_Name = ''runner'', mpi_Namespace = ''ns'', mpi_Phase = ''Failed'',
     mpi_PhaseHistory = None, mpi_ConditionTransitions = None, mpi_Conditions = None,
     mpi_ContainerStatuses = None, mpi_Events = None, mpi_NodeName = ''node''\<rparr>"

definition log_paths :: slice where
  "log_paths = \<lparr>sl_array = 3, sl_off = 1, sl_len = 1, sl_cap = 2\<rparr>"

definition sample_object :: "sample_meta mInvestigation" where
  "sample_object = \<lparr>minv_TypeMeta = \<lparr>tm_Kind = ''Investigation'', tm_APIVersion = ''v1alpha1''\<rparr>,
     minv_Meta = \<lparr>sm_Name = ''pod-runner'', sm_Namespace = ''ns'', sm_Finalizers = None,
       sm_DeletionTimestamp = Some 1\<rparr>,
     minv_Spec = \<lparr>msp_Trigger = \<lparr>tr_Type = ''pod-crash'', tr_Source = ''ns/runner''\<rparr>,
       msp_WorkflowRun = None, msp_Job = None, msp_EphemeralRunner = None, msp_Pod = Some 2,
       msp_Timeline = None, msp_Diagnosis = None, msp_LogPaths = Some log_paths\<rparr>,
     minv_Status = \<lparr>is_Phase = ''Collecting'', is_Message = ''''\<rparr>\<rparr>"

definition sample_memory :: sample_heap where
  "sample_memory = [InvestigationCell sample_object, TimeCell 7, PodInfoCell pod_snapshot,
     ArrayCell (StringArray [''old.log'', ''a.log'', ''spare''])]"

lemmas layout_defs =
  ptr_defs slice_defs flat_defs Investigation_defs InvestigationSpec_defs PodInfo_defs sm_defs

lemma sample_laid_out:
  "ptr_ok is_InvestigationCell the_InvestigationCell (Investigation_ok sm_ok) sample_memory (Some 0)"
  by (simp add: layout_defs sample_memory_def sample_object_def pod_snapshot_def log_paths_def)

section \<open>Properties\<close>

text \<open>C40: every generated DeepCopy is deep: for a pointer to an object that is laid out properly in
  memory, or nil, it changes no cell that was there, it returns a pointer to an object that is laid out
  properly and has the same value, nil for nil, and that reaches only new cells, so that original and
  copy share nothing.\<close>

theorem generated_copies_are_deep:
  assumes lib: "library_copies mok mval mrefs lok lval lrefs lib"
  shows "copies_deeply (\<lambda>c. is_PlainCell c \<and> is_ConditionTransitionPlain (the_PlainCell c))
       (\<lambda>c. the_ConditionTransitionPlain (the_PlainCell c)) flat_ok flat_val flat_refs
       (ConditionTransition_DeepCopy lib) \<and>
     copies_deeply is_ContainerStateTransitionCell the_ContainerStateTransitionCell
       ContainerStateTransition_ok ContainerStateTransition_val ContainerStateTransition_refs
       (ContainerStateTransition_DeepCopy lib) \<and>
     copies_deeply is_ContainerStatusInfoCell the_ContainerStatusInfoCell
       ContainerStatusInfo_ok ContainerStatusInfo_val ContainerStatusInfo_refs
       (ContainerStatusInfo_DeepCopy lib) \<and>
     copies_deeply is_DetectiveConfigCell the_DetectiveConfigCell
       (DetectiveConfig_ok mok) (DetectiveConfig_val mval) (DetectiveConfig_refs mrefs)
       (DetectiveConfig_DeepCopy lib) \<and>
     copies_deeply is_DetectiveConfigListCell the_DetectiveConfigListCell
       (DetectiveConfigList_ok mok lok) (DetectiveConfigList_val mval lval) (DetectiveConfigList_refs mrefs lrefs)
       (DetectiveConfigList_DeepCopy lib) \<and>
     copies_deeply is_DetectiveConfigSpecCell the_DetectiveConfigSpecCell
       DetectiveConfigSpec_ok DetectiveConfigSpec_val DetectiveConfigSpec_refs
       DetectiveConfigSpec_DeepCopy \<and>
     copies_deeply (\<lambda>c. is_PlainCell c \<and> is_DetectiveConfigStatusPlain (the_PlainCell c))
       (\<lambda>c. the_DetectiveConfigStatusPlain (the_PlainCell c)) flat_ok flat_val flat_refs
       DetectiveConfigStatus_DeepCopy \<and>
     copies_deeply (\<lambda>c. is_PlainCell c \<and> is_DiagnosisPlain (the_PlainCell c))
       (\<lambda>c. the_DiagnosisPlain (the_PlainCell c)) flat_ok flat_val flat_refs
       Diagnosis_DeepCopy \<and>
     copies_deeply is_EphemeralRunnerInfoCell the_EphemeralRunnerInfoCell
       EphemeralRunnerInfo_ok EphemeralRunnerInfo_val EphemeralRunnerInfo_refs
       (EphemeralRunnerInfo_DeepCopy lib) \<and>
     copies_deeply (\<lambda>c. is_PlainCell c \<and> is_EventSnapshotPlain (the_PlainCell c))
       (\<lambda>c. the_EventSnapshotPlain (the_PlainCell c)) flat_ok flat_val flat_refs
       (EventSnapshot_DeepCopy lib) \<and>
     copies_deeply is_InvestigationCell the_InvestigationCell
       (Investigation_ok mok) (Investigation_val mval) (Investigation_refs mrefs)
       (Investigation_DeepCopy lib) \<and>
     copies_deeply is_InvestigationListCell the_InvestigationListCell
       (InvestigationList_ok mok lok) (InvestigationList_val mval lval) (InvestigationList_refs mrefs lrefs)
       (InvestigationList_DeepCopy lib) \<and>
     copies_deeply is_InvestigationSpecCell the_InvestigationSpecCell
       InvestigationSpec_ok InvestigationSpec_val InvestigationSpec_refs
       (InvestigationSpec_DeepCopy lib) \<and>
     copies_deeply (\<lambda>c. is_PlainCell c \<and> is_InvestigationStatusPlain (the_PlainCell c))
       (\<lambda>c. the_InvestigationStatusPlain (the_PlainCell c)) flat_ok flat_val flat_refs
       InvestigationStatus_DeepCopy \<and>
     copies_deeply (\<lambda>c. is_PlainCell c \<and> is_InvestigationTriggerPlain (the_PlainCell c))
       (\<lambda>c. the_InvestigationTriggerPlain (the_PlainCell c)) flat_ok flat_val flat_refs
       InvestigationTrigger_DeepCopy \<and>
     copies_deeply is_JobInfoCell the_JobInfoCell
       JobInfo_ok JobInfo_val JobInfo_refs
       (JobInfo_DeepCopy lib) \<and>
     copies_deeply (\<lambda>c. is_PlainCell c \<and> is_JobStepPlain (the_PlainCell c))
       (\<lambda>c. the_JobStepPlain (the_PlainCell c)) flat_ok flat_val flat_refs
       JobStep_DeepCopy \<and>
     copies_deeply is_LogStorageSpecCell the_LogStorageSpecCell
       LogStorageSpec_ok LogStorageSpec_val LogStorageSpec_refs
       LogStorageSpec_DeepCopy \<and>
     copies_deeply (\<lambda>c. is_PlainCell c \<and> is_PodConditionSnapshotPlain (the_PlainCell c))
       (\<lambda>c. the_PodConditionSnapshotPlain (the_PlainCell c)) flat_ok flat_val flat_refs
       PodConditionSnapshot_DeepCopy \<and>
     copies_deeply is_PodInfoCell the_PodInfoCell
       PodInfo_ok PodInfo_val PodInfo_refs
       (PodInfo_DeepCopy lib) \<and>
     copies_deeply (\<lambda>c. is_PlainCell c \<and> is_RepositoryRefPlain (the_PlainCell c))
       (\<lambda>c. the_RepositoryRefPlain (the_PlainCell c)) flat_ok flat_val flat_refs
       RepositoryRef_DeepCopy \<and>
     copies_deeply (\<lambda>c. is_PlainCell c \<and> is_StatusTransitionPlain (the_PlainCell c))
       (\<lambda>c. the_StatusTransitionPlain (the_PlainCell c)) flat_ok flat_val flat_refs
       (StatusTransition_DeepCopy lib) \<and>
     copies_deeply (\<lambda>c. is_PlainCell c \<and> is_TimelineEventPlain (the_PlainCell c))
       (\<lambda>c. the_TimelineEventPlain (the_PlainCell c)) flat_ok flat_val flat_refs
       (TimelineEvent_DeepCopy lib) \<and>
     copies_deeply (\<lambda>c. is_PlainCell c \<and> is_WorkflowRunInfoPlain (the_PlainCell c))
       (\<lambda>c. the_WorkflowRunInfoPlain (the_PlainCell c)) flat_ok flat_val flat_refs
       WorkflowRunInfo_DeepCopy"
  unfolding ConditionTransition_DeepCopy_def ContainerStateTransition_DeepCopy_def
    ContainerStatusInfo_DeepCopy_def DetectiveConfig_DeepCopy_def
    DetectiveConfigList_DeepCopy_def DetectiveConfigSpec_DeepCopy_def
    DetectiveConfigStatus_DeepCopy_def Diagnosis_DeepCopy_def EphemeralRunnerInfo_DeepCopy_def
    EventSnapshot_DeepCopy_def Investigation_DeepCopy_def InvestigationList_DeepCopy_def
    InvestigationSpec_DeepCopy_def InvestigationStatus_DeepCopy_def
    InvestigationTrigger_DeepCopy_def JobInfo_DeepCopy_def JobStep_DeepCopy_def
    LogStorageSpec_DeepCopy_def PodConditionSnapshot_DeepCopy_def PodInfo_DeepCopy_def
    RepositoryRef_DeepCopy_def StatusTransition_DeepCopy_def TimelineEvent_DeepCopy_def
    WorkflowRunInfo_DeepCopy_def
  by (intro conjI clone_copies_deeply
      ConditionTransition_deep [OF library_times [OF lib]]
      ContainerStateTransition_deep [OF library_times [OF lib]]
      ContainerStatusInfo_deep [OF library_times [OF lib]] DetectiveConfig_deep [OF lib]
      DetectiveConfigList_deep [OF lib] DetectiveConfigSpec_deep DetectiveConfigStatus_deep Diagnosis_deep
      EphemeralRunnerInfo_deep [OF library_times [OF lib]] EventSnapshot_deep [OF library_times [OF lib]]
      Investigation_deep [OF lib] InvestigationList_deep [OF lib]
      InvestigationSpec_deep [OF library_times [OF lib]] InvestigationStatus_deep
      InvestigationTrigger_deep JobInfo_deep [OF library_times [OF lib]] JobStep_deep LogStorageSpec_deep
      PodConditionSnapshot_deep PodInfo_deep [OF library_times [OF lib]] RepositoryRef_deep
      StatusTransition_deep [OF library_times [OF lib]] TimelineEvent_deep [OF library_times [OF lib]]
      WorkflowRunInfo_deep;
      simp)

theorem generated_copies_are_deep_witness:
  "\<exists>q h'. run_state (Investigation_DeepCopy sample_lib (Some 0)) sample_memory = (q, h') \<and>
     ptr_val the_InvestigationCell (Investigation_val sm_val) h' q =
       ptr_val the_InvestigationCell (Investigation_val sm_val) sample_memory (Some 0) \<and>
     ptr_refs the_InvestigationCell (Investigation_refs sm_refs) h' q \<subseteq> {4..<length h'}"
proof -
  obtain q h' where run: "run_state (Investigation_DeepCopy sample_lib (Some 0)) sample_memory = (q, h')"
    by fastforce
  have "copies_deeply is_InvestigationCell the_InvestigationCell
      (Investigation_ok sm_ok) (Investigation_val sm_val) (Investigation_refs sm_refs)
      (Investigation_DeepCopy sample_lib)"
    using generated_copies_are_deep [OF sample_copies] by blast
  with run sample_laid_out show ?thesis
    unfolding copies_deeply_def by (fastforce simp: sample_memory_def)
qed

text \<open>C19: an Investigation got from the cache can be changed without harm: after the copy that
  DeepCopyObject makes, whatever is then written to the cells the copy reaches, and however memory
  grows, the original in the cache stays well laid out and keeps its value; and the other way round,
  what the cache writes to its object is not seen in the copy. A nil object is copied to nil.\<close>

theorem investigation_copy_is_isolated:
  assumes lib: "library_copies mok mval mrefs lok lval lrefs lib"
    and obj: "ptr_ok is_InvestigationCell the_InvestigationCell (Investigation_ok mok) h p"
    and run: "run_state (Investigation_DeepCopyObject lib p) h = (q, h')"
    and grown: "length h' \<le> length h''"
  shows "let object = ptr_val the_InvestigationCell (Investigation_val mval);
       cells = ptr_refs the_InvestigationCell (Investigation_refs mrefs) in
     (q = None \<longleftrightarrow> p = None) \<and> object h' q = object h p \<and>
     ((\<forall>a < length h'. a \<notin> cells h' q \<longrightarrow> h'' ! a = h' ! a) \<longrightarrow> object h'' p = object h p) \<and>
     ((\<forall>a < length h'. a \<notin> cells h' p \<longrightarrow> h'' ! a = h' ! a) \<longrightarrow> object h'' q = object h p)"
proof -
  note copier = Investigation_DeepCopy_deep [OF lib]
  have same: "run_state (Investigation_DeepCopy lib p) h = (q, h')"
    using run by (auto simp: Investigation_DeepCopyObject_def split: prod.splits option.splits)
  have "q = None \<longleftrightarrow> p = None"
    using same by (cases p) (auto simp: Investigation_DeepCopy_def clone_ptr_def split: prod.splits)
  then show ?thesis
    using deep_copier.deep [OF copier obj same] deep_copier.change_to_copy [OF copier obj same grown]
      deep_copier.change_to_original [OF copier obj same grown]
    by (simp add: Let_def)
qed

text \<open>The kind of change a controller makes: fields of the object it got are set.\<close>

theorem investigation_copy_is_isolated_witness:
  "\<exists>q h'. run_state (Investigation_DeepCopyObject sample_lib (Some 0)) sample_memory = (Some q, h') \<and>
     (\<forall>x. ptr_val the_InvestigationCell (Investigation_val sm_val) (h'[q := InvestigationCell x]) (Some 0) =
        ptr_val the_InvestigationCell (Investigation_val sm_val) sample_memory (Some 0))"
proof -
  obtain p h' where run: "run_state (Investigation_DeepCopyObject sample_lib (Some 0)) sample_memory = (p, h')"
    by fastforce
  note isolated = investigation_copy_is_isolated [OF sample_copies sample_laid_out run, unfolded Let_def]
  obtain q where p: "p = Some q" using isolated [of h'] by auto
  have "ptr_val the_InvestigationCell (Investigation_val sm_val) (h'[q := InvestigationCell x]) (Some 0) =
      ptr_val the_InvestigationCell (Investigation_val sm_val) sample_memory (Some 0)" for x
    using isolated [of "h'[q := InvestigationCell x]"]
    by (simp add: p ptr_refs_def nth_list_update)
  with run p show ?thesis by blast
qed

end
