(* ===== verification/Spec2Isabelle.thy ===== *)
theory Spec2Isabelle
  imports PodWatcher ERWatcher Correlator Poller GitHub LogCollector StorageLimit System Interleaving
    Interference Quiescence Lifecycle RunnerLifecycle JobLifecycle LogTrail Names DeepCopyProps
begin

text \<open>
  ARC Detective is a Kubernetes operator in Go that watches the runner pods of GitHub Actions (ARC),
  opens an Investigation resource when one fails or hangs, gathers evidence from the cluster and from
  GitHub, saves the logs of pods before they disappear and diagnoses the failure. This development
  models its implementation under \<open>api\<close>, \<open>internal\<close> and \<open>cmd\<close> and proves what it does.

  \<^bold>\<open>The program.\<close> Three controllers open Investigations: the pod watcher (anomalies of containers, pods
  that are deleted), the runner watcher (EphemeralRunner objects Failed or Running for too long) and
  the GitHub poller (jobs queued for too long). They share one counter that bounds the number of
  Investigations. A new Investigation gets the phase Collecting; the correlator picks it up, adds the
  evidence it still finds, sorts the timeline, classifies the failure and sets the phase Complete. The
  pod watcher holds deleted pods with a finalizer until the log collector has written their logs to
  the disk storage. The cleanup deletes old Investigations with their logs and keeps the storage below
  its size limit. \<open>main\<close> puts these parts together from flags and the configuration resource.

  \<^bold>\<open>Theories and sources.\<close>
  \<^item> Prelude: errors, the state monad, the loops of the source as recursion over lists, the rules that
    lift a property of single calls to handlers, 64-bit wrap-around, the state of a controller
    (shared counter, private fields, world). GoFmt, GoTime, GoSort and GoPath: what the source uses
    of \<open>strconv\<close>, \<open>fmt\<close>, \<open>net/url\<close>, \<open>time\<close>, \<open>sort\<close> and \<open>path/filepath\<close>.
  \<^item> Types: the structs of \<open>api/v1alpha1\<close>, field by field.
  \<^item> Kube: pods, runners, events, and the methods of the Kubernetes client as a record of functions, a
    parameter of every controller. Cluster: an in-memory instance for concrete runs. Trace: the calls a
    controller makes, recorded in order.
  \<^item> Classifier: \<open>internal/diagnosis\<close>. Counter: \<open>internal/controller/investigation_counter.go\<close>.
    GitHub: \<open>internal/github\<close>.
  \<^item> Submit (the two calls that open an Investigation), Tracker (histories of phases), PodInfo and
    PodWatcher: \<open>pod_watcher.go\<close>; ERWatcher: \<open>ephemeralrunner_watcher.go\<close>; JobEvidence and Correlator:
    \<open>correlator.go\<close>; Poller: \<open>github_poller.go\<close>; Cleanup and StorageLimit: \<open>cleanup.go\<close>.
  \<^item> Storage, Disk and LogCollector: \<open>internal/logcollector\<close>.
  \<^item> Startup: \<open>cmd/main.go\<close>. Ledger and System: the controllers together, run by run.
    Threads and Interleaving: the handlers of all controllers cut at every call and run as
    goroutines in any interleaving, with \<open>run_thread\<close> giving back the handlers of the other theories.
    Interference: what a handler calls when any state may be found before each of its steps.
    Quiescence: the handlers under way come to their end.
  \<^item> Server (an API server that answers), Lifecycle (from the anomaly of a pod to the diagnosis),
    RunnerLifecycle (from a stuck runner), JobLifecycle (from a job that waits), LogTrail (the logs of a deleted pod) and
    Names (the names of the Investigations): properties that span the components.
  \<^item> GoHeap (memory, pointers, slices), DeepCopy, DeepCopyLaws and DeepCopyProps:
    \<open>api/v1alpha1/zz_generated.deepcopy.go\<close>, where structs are what lies in memory. Everywhere else a
    struct is a value, since the controllers work on copies of their own, which is what DeepCopyProps shows.

  A method of the source is a definition of the same name (with a prefix where names clash:
  \<open>pod_Reconcile\<close>, \<open>er_Reconcile\<close>, \<open>corr_Reconcile\<close>). It is a computation on the state of its controller;
  a returned error is the left side of a sum, a panic a value of its own. A loop body or a branch of
  some size has its own definition. Logging is left out.

  \<^bold>\<open>What is proved.\<close>
  \<^item> Contracts between the parts are locales, interpreted on the code's definitions: \<open>admission\<close> (the
    counter), \<open>transition_log\<close> (the trackers), \<open>slice_sorter\<close>, \<open>log_storage\<close> (the disk storage),
    \<open>backoff\<close> (the client as the poller sees it), \<open>deep_copier\<close> (the generated copies), and
    \<open>step_closed\<close> for relations between states.
  \<^item> Of each part: the classifier refines a declarative specification by least evidence; the trackers are
    connected histories; the watchers report exactly when a threshold has passed and wake up in time;
    the correlator writes once, complete and sorted; the finalizer goes only after the logs were asked
    for; what the collector returns can be read back; the cleanup deletes exactly the overdue objects
    and the fewest oldest logs; the rate limit tracker follows the responses.
  \<^item> Of the whole: in every interleaving of the handlers, between any two of their calls, the number of
    stored Investigations is bounded, and the counter is above it by the places that the handlers
    under way hold (Interleaving); it is exact when none is. Each thread carries a debt (\<open>pays\<close>), and a
    pool of threads is out of balance by the sum of them. The same invariant shows what an
    Investigation deleted by hand costs (System). When no new handler begins, every fair run comes to
    rest, and then the counter is exact (Quiescence).
  \<^item> Across the components, given an API server that answers: an anomaly of a pod ends in a Complete
    Investigation with the diagnosis its statuses stand for (Lifecycle); a stuck runner ends in one with
    a diagnosis, never in unknown, whatever GitHub answers (RunnerLifecycle); a job that waits is found wherever it
    stands in the lists of a poll, and ends in a diagnosis unless the poll uses up the places
    (JobLifecycle); the logs of a deleted pod are
    listed in its Investigation and can be read back after the pod was let go (LogTrail).
  \<^item> The names of the Investigations are valid and apart (Names); the generated deep copies share nothing
    with their originals (DeepCopyProps).
  \<^item> Where the code does not do what it means to, a theorem states what it does: a negative maximum, the
    poller that stays rate limited, Investigations stranded without a phase, the overflow of the size
    limit, paths that leave the storage, evidence that is lost or never gathered.

  \<^bold>\<open>Bounds.\<close> Every loop of the source runs over a list, so every definition is total and no fuel is
  needed; the endless loops of the runnables (\<open>Start\<close>) are run over a given finite sequence of ticks.
  Machine integers wrap around where the source computes with them. File sizes and times are unbounded.

  \<^bold>\<open>Not modelled.\<close> The Kubernetes API server, the kubelet, GitHub, the HTTP transport, JSON decoding and
  the quicksort behind \<open>sort.Slice\<close> are parameters; what a property needs of them is a hypothesis that
  states their documented behaviour, and each such property has a concrete instance. The properties
  of a single handler are about its run without interruption by other goroutines; what the world does
  between its calls is part of the parameters, which keep a state of their own. Proved for interrupted
  handlers are the accounting of Investigations, that they come to rest, and the protection of the log
  finalizer (Interference, where the shared fields may change too). There the collector of the logs
  is one step and the correlator is any change that leaves the set of Investigations alone. Conflicts
  of versions are among the errors a write may return; the server that answers has none. The registration of the controllers with
  the manager is a call of \<open>main\<close> that may fail, except for the event filters. The copies of
  \<open>metav1.Time\<close>, \<open>ObjectMeta\<close> and \<open>ListMeta\<close> are parameters that are assumed deep. The
  registration of the scheme, tests, manifests and documentation are left out.
\<close>

end
